(* ===== verification/Prelude.thy ===== *)
theory Prelude
  imports Complex_Main "HOL-Library.AList" "HOL-Library.Word"
begin

text \<open>
  The shared vocabulary of the development: how the Go types of pathosd are represented, the Go
  library functions several components use, and the lemma collections the component proofs rest on.

  \<^item> A Go \<open>string\<close> is a HOL \<open>string\<close>, one \<open>char\<close> per byte.
  \<^item> A Go \<open>int\<close>, \<open>time.Duration\<close> (nanoseconds) or \<open>time.Time\<close> (nanoseconds since the zero time,
    which is 0) is an \<open>int\<close>; where the source multiplies values it has not bounded, the two's
    complement wrap of 64 bits is written out (\<open>wrap64\<close>).
  \<^item> \<open>uint16\<close> and \<open>uint32\<close> are words.
  \<^item> A Go map is an association list without repeated keys (\<open>gm_wf\<close>): lookup is \<open>map_of\<close>, storing is
    \<open>AList.update\<close>, deleting is \<open>AList.delete\<close>, \<open>len\<close> is \<open>length\<close>.
  \<^item> A Go \<open>error\<close> that may be nil is a \<open>go_error option\<close>; a result with an error is a sum.
    An error made by \<open>fmt.Errorf\<close> is kept as its format, its operands and the error it wraps.
\<close>

section \<open>Types\<close>

type_synonym go_time = int
type_synonym go_duration = int
type_synonym uint16 = "16 word"
type_synonym uint32 = "32 word"
type_synonym uint64 = "64 word"
type_synonym ('k, 'v) gomap = "('k \<times> 'v) list"

text \<open>An operand of \<open>fmt.Sprintf\<close>: a string, an integer, a \<open>time.Duration\<close>, a finite float.\<close>

datatype fmt_arg = FStr string | FInt int | FDur int | FRat rat

datatype go_error = Errorf string "fmt_arg list" "go_error option"

text \<open>A computation that may panic.\<close>

datatype 'a outcome = Ret 'a | Panic string

definition wrap64 :: "int \<Rightarrow> int" where
  "wrap64 x = (x + 2 ^ 63) mod 2 ^ 64 - 2 ^ 63"

section \<open>Lemma collections\<close>

named_theorems gomap_simps \<open>rewrite rules for Go maps as association lists\<close>
named_theorems wf_intros \<open>preservation of well-formedness by the operations\<close>
named_theorems frame_simps \<open>what an operation leaves unchanged\<close>

section \<open>Go maps\<close>

abbreviation gm_put :: "'k \<Rightarrow> 'v \<Rightarrow> ('k, 'v) gomap \<Rightarrow> ('k, 'v) gomap" where
  "gm_put \<equiv> AList.update"

abbreviation gm_del :: "'k \<Rightarrow> ('k, 'v) gomap \<Rightarrow> ('k, 'v) gomap" where
  "gm_del \<equiv> AList.delete"

abbreviation gm_keys :: "('k, 'v) gomap \<Rightarrow> 'k list" where
  "gm_keys m \<equiv> map fst m"

definition gm_wf :: "('k, 'v) gomap \<Rightarrow> bool" where
  "gm_wf m \<longleftrightarrow> distinct (map fst m)"

text \<open>A lookup with the zero value of the element type for an absent key (\<open>m[k]\<close>).\<close>

definition gm_get0 :: "'v \<Rightarrow> ('k, 'v) gomap \<Rightarrow> 'k \<Rightarrow> 'v" where
  "gm_get0 z m k = (case map_of m k of None \<Rightarrow> z | Some v \<Rightarrow> v)"

declare AList.update_conv' [gomap_simps] AList.delete_conv' [gomap_simps]

lemma gm_wf_Nil [simp, wf_intros]: "gm_wf []"
  by (simp add: gm_wf_def)

lemma gm_wf_put [wf_intros]: "gm_wf m \<Longrightarrow> gm_wf (gm_put k v m)"
  by (simp add: gm_wf_def distinct_update)

lemma gm_wf_del [wf_intros]: "gm_wf m \<Longrightarrow> gm_wf (gm_del k m)"
  by (simp add: gm_wf_def distinct_delete)

lemma gm_keys_put: "set (gm_keys (gm_put k v m)) = insert k (set (gm_keys m))"
  using dom_update [of k v m] by auto

lemma gm_keys_del: "set (gm_keys (gm_del k m)) = set (gm_keys m) - {k}"
  by (auto simp: AList.delete_keys)

lemma map_of_mem_iff: "gm_wf m \<Longrightarrow> map_of m k = Some v \<longleftrightarrow> (k, v) \<in> set m"
  by (simp add: gm_wf_def)

lemma in_set_put_iff:
  "gm_wf m \<Longrightarrow> (k', v') \<in> set (gm_put k v m) \<longleftrightarrow>
     (if k' = k then v' = v else (k', v') \<in> set m)"
  by (auto simp: map_of_mem_iff [symmetric] gm_wf_put gomap_simps)

lemma in_set_del_iff:
  "gm_wf m \<Longrightarrow> (k', v') \<in> set (gm_del k m) \<longleftrightarrow> k' \<noteq> k \<and> (k', v') \<in> set m"
  by (auto simp: map_of_mem_iff [symmetric] gm_wf_del gomap_simps)

lemma in_set_put_cases:
  "(k', v') \<in> set (gm_put k v m) \<Longrightarrow> v' = v \<or> (k', v') \<in> set m"
  by (induction m) (auto split: if_splits)

lemma gm_get0_put [simp]: "gm_get0 z (gm_put k v m) k' = (if k' = k then v else gm_get0 z m k')"
  by (simp add: gm_get0_def gomap_simps)

lemma gm_get0_Nil [simp]: "gm_get0 z [] k = z"
  by (simp add: gm_get0_def)

lemma gm_put_neq_Nil_length: "0 < length (gm_put k v m)"
  by simp

lemma gm_keys_put_known: "map_of m k \<noteq> None \<Longrightarrow> gm_keys (gm_put k v m) = gm_keys m"
  by (simp add: update_keys map_of_eq_None_iff)

lemma length_put_known: "map_of m k \<noteq> None \<Longrightarrow> length (gm_put k v m) = length m"
  using gm_keys_put_known [of m k v] by (metis length_map)

text \<open>Filling a map from a list: one entry per element, the last of equal keys wins.\<close>

lemma fold_put_wf: "gm_wf m \<Longrightarrow> gm_wf (fold (\<lambda>x m. gm_put (k x) (f x) m) xs m)"
  by (induction xs arbitrary: m) (simp_all add: gm_wf_put)

lemma fold_put_keys:
  "set (gm_keys (fold (\<lambda>x m. gm_put (k x) (f x) m) xs m)) = set (gm_keys m) \<union> k ` set xs"
  by (induction xs arbitrary: m) (auto simp: gm_keys_put simp del: set_map)

lemma fold_put_mem:
  assumes "gm_wf m" and "(q, w) \<in> set (fold (\<lambda>x m. gm_put (k x) (f x) m) xs m)"
  shows "(q, w) \<in> set m \<or> (\<exists>x \<in> set xs. q = k x \<and> w = f x)"
  using assms
proof (induction xs arbitrary: m)
  case (Cons x xs)
  have "(q, w) \<in> set (gm_put (k x) (f x) m) \<or> (\<exists>x \<in> set xs. q = k x \<and> w = f x)"
    using Cons.prems by (intro Cons.IH) (simp_all add: gm_wf_put)
  then show ?case by (auto simp: in_set_put_iff [OF Cons.prems(1)] split: if_splits)
qed simp

section \<open>Slices and strings\<close>

text \<open>\<open>strings.Join\<close>, \<open>strings.HasPrefix\<close>, \<open>strings.SplitN (s, sep, 2)\<close> for a one-byte separator.\<close>

fun str_join :: "string list \<Rightarrow> string \<Rightarrow> string" where
  "str_join [] sep = []"
| "str_join [x] sep = x"
| "str_join (x # y # xs) sep = x @ sep @ str_join (y # xs) sep"

fun has_prefix :: "string \<Rightarrow> string \<Rightarrow> bool" where
  "has_prefix s [] = True"
| "has_prefix [] (p # ps) = False"
| "has_prefix (c # cs) (p # ps) = (c = p \<and> has_prefix cs ps)"

lemma has_prefix_append [simp]: "has_prefix (p @ s) p"
  by (induction p) auto

lemma has_prefix_iff: "has_prefix s p \<longleftrightarrow> (\<exists>r. s = p @ r)"
  by (induction s p rule: has_prefix.induct) auto

definition split2 :: "char \<Rightarrow> string \<Rightarrow> string list" where
  "split2 sep s =
     (case dropWhile (\<lambda>c. c \<noteq> sep) s of
        [] \<Rightarrow> [s]
      | _ # rest \<Rightarrow> [takeWhile (\<lambda>c. c \<noteq> sep) s, rest])"

lemma split2_glue: "sep \<notin> set a \<Longrightarrow> split2 sep (a @ sep # b) = [a, b]"
proof -
  assume "sep \<notin> set a"
  then have "dropWhile (\<lambda>c. c \<noteq> sep) (a @ sep # b) = sep # b"
    and "takeWhile (\<lambda>c. c \<noteq> sep) (a @ sep # b) = a"
    by (induction a) auto
  then show ?thesis by (simp add: split2_def)
qed

lemma split2_no_sep: "sep \<notin> set s \<Longrightarrow> split2 sep s = [s]"
proof -
  assume "sep \<notin> set s"
  then have "dropWhile (\<lambda>c. c \<noteq> sep) s = []" by auto
  then show ?thesis unfolding split2_def by (simp only: list.case)
qed

text \<open>\<open>strings.ToLower\<close> and \<open>strings.ToUpper\<close> on ASCII text.\<close>

definition lower_char :: "char \<Rightarrow> char" where
  "lower_char c = (let n = of_char c :: nat in if 65 \<le> n \<and> n \<le> 90 then char_of (n + 32) else c)"

definition upper_char :: "char \<Rightarrow> char" where
  "upper_char c = (let n = of_char c :: nat in if 97 \<le> n \<and> n \<le> 122 then char_of (n - 32) else c)"

definition to_lower :: "string \<Rightarrow> string" where
  "to_lower s = map lower_char s"

definition to_upper :: "string \<Rightarrow> string" where
  "to_upper s = map upper_char s"

section \<open>Decimal numbers (strconv)\<close>

definition digit_val :: "char \<Rightarrow> nat option" where
  "digit_val c =
     (let n = of_char c :: nat in if 48 \<le> n \<and> n \<le> 57 then Some (n - 48) else None)"

definition digit_char :: "nat \<Rightarrow> char" where
  "digit_char d = char_of (48 + d)"

text \<open>The digits of \<open>s\<close> read from the accumulator, \<open>None\<close> at the first byte that is no digit.\<close>

fun digits_from :: "nat \<Rightarrow> string \<Rightarrow> nat option" where
  "digits_from acc [] = Some acc"
| "digits_from acc (c # cs) =
     (case digit_val c of None \<Rightarrow> None | Some d \<Rightarrow> digits_from (10 * acc + d) cs)"

text \<open>
  \<open>strconv.ParseUint (s, 10, bits)\<close>: a non-empty string of decimal digits (leading zeros allowed, no
  sign) whose value fits in \<open>bits\<close> bits.
\<close>

definition parse_uint :: "nat \<Rightarrow> string \<Rightarrow> nat option" where
  "parse_uint bits s =
     (if s = [] then None
      else case digits_from 0 s of
             None \<Rightarrow> None
           | Some n \<Rightarrow> if n < 2 ^ bits then Some n else None)"

text \<open>\<open>strconv.Itoa\<close> and the verb \<open>%d\<close> on non-negative numbers.\<close>

fun show_nat :: "nat \<Rightarrow> string" where
  "show_nat n = (if n < 10 then [digit_char n] else show_nat (n div 10) @ [digit_char (n mod 10)])"

declare show_nat.simps [simp del]

text \<open>The verb \<open>%d\<close> on any integer.\<close>

definition show_int :: "int \<Rightarrow> string" where
  "show_int i = (if i < 0 then ''-'' @ show_nat (nat (- i)) else show_nat (nat i))"

text \<open>
  The verb \<open>%q\<close> (\<open>strconv.Quote\<close>): double quotes around the text, with quote, backslash and control
  characters escaped. Bytes above 126 other than DEL are kept, as they are in printable UTF-8.
\<close>

definition hex_digit :: "nat \<Rightarrow> char" where
  "hex_digit d = char_of (if d < 10 then 48 + d else 87 + d)"

definition quote_char :: "char \<Rightarrow> string" where
  "quote_char c =
     (let n = of_char c :: nat in
      if n = 34 then [CHR 0x5C, CHR 0x22]
      else if n = 92 then [CHR 0x5C, CHR 0x5C]
      else if n = 7 then [CHR 0x5C, CHR ''a'']
      else if n = 8 then [CHR 0x5C, CHR ''b'']
      else if n = 9 then [CHR 0x5C, CHR ''t'']
      else if n = 10 then [CHR 0x5C, CHR ''n'']
      else if n = 11 then [CHR 0x5C, CHR ''v'']
      else if n = 12 then [CHR 0x5C, CHR ''f'']
      else if n = 13 then [CHR 0x5C, CHR ''r'']
      else if n < 32 \<or> n = 127 then [CHR 0x5C, CHR ''x'', hex_digit (n div 16), hex_digit (n mod 16)]
      else [c])"

definition quote :: "string \<Rightarrow> string" where
  "quote s = [CHR 0x22] @ concat (map quote_char s) @ [CHR 0x22]"

text \<open>
  \<open>Duration.String\<close>: below a second in one unit with up to six decimals, from a second on in hours, minutes
  and seconds with up to nine; trailing zeros are cut.
\<close>

definition pad_digits :: "nat \<Rightarrow> nat \<Rightarrow> string" where
  "pad_digits w n = (let s = show_nat n in replicate (w - length s) CHR ''0'' @ s)"

definition frac_text :: "nat \<Rightarrow> nat \<Rightarrow> string" where
  "frac_text prec v =
     (let ds = rev (dropWhile (\<lambda>c. c = CHR ''0'') (rev (pad_digits prec (v mod 10 ^ prec))))
      in if ds = [] then [] else ''.'' @ ds)"

definition duration_text :: "int \<Rightarrow> string" where
  "duration_text d =
     (let u = nat (abs d); sign = (if d < 0 then ''-'' else []) in
      if u = 0 then ''0s''
      else if u < 1000 then sign @ show_nat u @ ''ns''
      else if u < 1000000 then sign @ show_nat (u div 10 ^ 3) @ frac_text 3 u @ [CHR 0xC2, CHR 0xB5, CHR ''s'']
      else if u < 1000000000 then sign @ show_nat (u div 10 ^ 6) @ frac_text 6 u @ ''ms''
      else
        let s = u div 10 ^ 9; m = s div 60; h = m div 60 in
        sign @ (if 0 < h then show_nat h @ ''h'' else []) @ (if 0 < m then show_nat (m mod 60) @ ''m'' else []) @
        show_nat (s mod 60) @ frac_text 9 u @ ''s'')"

text \<open>The verb \<open>%f\<close>: six decimals, rounded to nearest with ties to even.\<close>

definition round_even :: "rat \<Rightarrow> nat" where
  "round_even r =
     (let n = nat \<lfloor>r\<rfloor>; rest = r - of_nat n
      in if rest < 1 / 2 \<or> rest = 1 / 2 \<and> even n then n else n + 1)"

definition float_text :: "rat \<Rightarrow> string" where
  "float_text r =
     (let n = round_even (abs r * 1000000)
      in (if r < 0 then ''-'' else []) @ show_nat (n div 1000000) @ ''.'' @ pad_digits 6 (n mod 1000000))"

text \<open>
  \<open>fmt.Sprintf\<close> for the verbs the sources use: \<open>%s\<close> and \<open>%v\<close> print an operand as it is, \<open>%q\<close> quoted, \<open>%d\<close> in
  decimal, and \<open>%w\<close> prints the text of the wrapped error.
\<close>

fun fmt_arg_text :: "fmt_arg \<Rightarrow> string" where
  "fmt_arg_text (FStr s) = s"
| "fmt_arg_text (FInt i) = show_int i"
| "fmt_arg_text (FDur d) = duration_text d"
| "fmt_arg_text (FRat r) = float_text r"

fun sprintf :: "string \<Rightarrow> fmt_arg list \<Rightarrow> string \<Rightarrow> string" where
  "sprintf (CHR ''%'' # v # fs) args w =
     (if v = CHR ''w'' then w @ sprintf fs args w
      else case args of
             [] \<Rightarrow> CHR ''%'' # v # sprintf fs args w
           | a # as \<Rightarrow> (if v = CHR ''q'' then quote (fmt_arg_text a) else fmt_arg_text a) @ sprintf fs as w)"
| "sprintf (c # fs) args w = c # sprintf fs args w"
| "sprintf [] args w = []"

text \<open>\<open>err.Error ()\<close>.\<close>

fun error_text :: "go_error \<Rightarrow> string" where
  "error_text (Errorf f args None) = sprintf f args []"
| "error_text (Errorf f args (Some e)) = sprintf f args (error_text e)"

lemma digit_val_char [simp]: "d < 10 \<Longrightarrow> digit_val (digit_char d) = Some d"
  by (simp add: digit_val_def digit_char_def)

lemma digits_from_append:
  "digits_from acc (s @ t) =
     (case digits_from acc s of None \<Rightarrow> None | Some n \<Rightarrow> digits_from n t)"
  by (induction acc s rule: digits_from.induct) (auto split: option.splits)

lemma show_nat_not_Nil [simp]: "show_nat n \<noteq> []"
  by (subst show_nat.simps) simp

lemma digits_from_show_nat: "digits_from 0 (show_nat n) = Some n"
proof (induction n rule: show_nat.induct)
  case (1 n)
  show ?case
  proof (cases "n < 10")
    case True
    then show ?thesis by (subst show_nat.simps) simp
  next
    case False
    with "1.IH" show ?thesis
      by (subst show_nat.simps) (simp add: digits_from_append)
  qed
qed

lemma parse_uint_show_nat: "n < 2 ^ bits \<Longrightarrow> parse_uint bits (show_nat n) = Some n"
  by (simp add: parse_uint_def digits_from_show_nat)

lemma parse_uint_bound: "parse_uint bits s = Some n \<Longrightarrow> n < 2 ^ bits"
  by (auto simp: parse_uint_def split: if_splits option.splits)

lemma digits_from_set: "digits_from acc s = Some n \<Longrightarrow> c \<in> set s \<Longrightarrow> digit_val c \<noteq> None"
  by (induction acc s rule: digits_from.induct) (auto split: option.splits)

lemma show_nat_digits: "c \<in> set (show_nat n) \<Longrightarrow> digit_val c \<noteq> None"
  by (rule digits_from_set [OF digits_from_show_nat])

lemma show_nat_no_colon: "CHR '':'' \<notin> set (show_nat n)"
  using show_nat_digits [of "CHR '':''" n] by (auto simp: digit_val_def)

end
