(* ===== verification/Config.thy ===== *)
theory Config
  imports Complex_Main Prelude
begin

text \<open>
  The configuration of pathosd (\<open>internal/config/config.go\<close>): one record per Go struct, with the
  fields in the order of the source, and the accessors the other components call.

  A Go pointer field is an \<open>option\<close> (nil is \<open>None\<close>), a slice is a list (a nil and an empty slice are
  both \<open>[]\<close>), a \<open>map[string]string\<close> is the list of its entries ordered by key, so that equality of
  two records is \<open>reflect.DeepEqual\<close> of the two structs up to nil against empty. The global OTEL
  headers keep nil apart (\<open>otel_headers\<close> is an \<open>option\<close>): the code clones that map. Durations are
  nanoseconds. The struct tags (names of the keys in YAML, TOML and JSON) are not part of the model.
\<close>

section \<open>Constants\<close>

definition CheckTypeHTTP :: string where "CheckTypeHTTP = ''http''"
definition CheckTypeDNS :: string where "CheckTypeDNS = ''dns''"
definition CheckTypePing :: string where "CheckTypePing = ''ping''"
definition CheckTypeUDP :: string where "CheckTypeUDP = ''udp''"
definition CheckTypeTCP :: string where "CheckTypeTCP = ''tcp''"
definition CheckTypeGRPC :: string where "CheckTypeGRPC = ''grpc''"
definition CheckTypeListen :: string where "CheckTypeListen = ''listen''"
definition CheckTypeSQL :: string where "CheckTypeSQL = ''sql''"
definition CheckTypeKafka :: string where "CheckTypeKafka = ''kafka''"

definition ChecksPolicyAll :: string where "ChecksPolicyAll = ''all''"
definition ChecksPolicyAny :: string where "ChecksPolicyAny = ''any''"

definition DefaultGoBGPAPIListen :: string where "DefaultGoBGPAPIListen = ''127.0.0.1:50051''"

section \<open>Sections other than the VIPs\<close>

record paths_config =
  paths_procfs :: string

record otel_signal_config =
  sig_endpoint :: string
  sig_enabled :: "bool option"
  sig_insecure :: "bool option"
  sig_headers :: "(string, string) gomap"

record otel_config =
  otel_enabled :: "bool option"
  otel_endpoint :: string
  otel_insecure :: bool
  otel_headers :: "(string, string) gomap option"
  otel_service_name :: string
  otel_traces :: otel_signal_config
  otel_metrics :: otel_signal_config
  otel_logs :: otel_signal_config

record router_config =
  rt_asn :: uint32
  rt_router_id :: string
  rt_local_address :: string
  rt_local_address_ipv6 :: string

record api_config =
  api_listen :: string
  api_read_header_timeout :: "go_duration option"
  api_read_timeout :: "go_duration option"
  api_write_timeout :: "go_duration option"
  api_idle_timeout :: "go_duration option"

record logging_config =
  log_level :: string
  log_format :: string
  log_otel_level :: string
  log_timestamps :: "bool option"

record gobgp_api_config =
  gapi_enabled :: bool
  gapi_listen :: string

record bfd_config =
  bfd_enabled :: bool
  bfd_port :: uint32
  bfd_desired_minimum_tx_interval :: uint32
  bfd_required_minimum_receive :: uint32
  bfd_detection_multiplier :: uint32

record neighbor_config =
  nb_name :: string
  nb_address :: string
  nb_peer_asn :: uint32
  nb_required :: "bool option"
  nb_port :: uint16
  nb_local_address :: string
  nb_passive :: bool
  nb_enable_multihop :: bool
  nb_multihop_ttl :: uint32
  nb_bfd :: "bfd_config option"
  nb_auth_password :: string

record bgp_config =
  bgp_graceful_restart :: "bool option"
  bgp_hold_time :: "go_duration option"
  bgp_keepalive_time :: "go_duration option"
  bgp_listen_address :: string
  bgp_listen_port :: int
  bgp_gobgp_api :: gobgp_api_config
  bgp_neighbors :: "neighbor_config list"

section \<open>Checks\<close>

record http_check_config =
  http_url :: string
  http_proto :: string
  http_host :: string
  http_port :: uint16
  http_method :: string
  http_response_codes :: "int list"
  http_response_text :: string
  http_response_regex :: string
  http_response_jq :: string
  http_tls_insecure :: bool
  http_tls_ca_cert :: string
  http_tls_server_name :: string
  http_proxy :: string
  http_headers :: "(string, string) gomap"
  http_keep_alive :: bool

record tcp_check_config =
  tcp_host :: string
  tcp_port :: uint16

record udp_check_config =
  udp_host :: string
  udp_port :: uint16
  udp_payload :: string

record listen_check_config =
  ls_proto :: string
  ls_port :: uint16
  ls_host :: string
  ls_netns_pid :: int
  ls_procfs :: string

record sql_query_config =
  q_name :: string
  q_sql :: string
  q_result_jq :: string

record sql_check_config =
  sql_driver :: string
  sql_host :: string
  sql_port :: uint16
  sql_user :: string
  sql_password :: string
  sql_database :: string
  sql_tls :: bool
  sql_tls_insecure :: bool
  sql_tls_ca_cert :: string
  sql_tls_server_name :: string
  sql_keep_alive :: bool
  sql_queries :: "sql_query_config list"
  sql_max_rows :: int

record kafka_sasl_config =
  sasl_mechanism :: string
  sasl_user :: string
  sasl_password :: string

record kafka_check_config =
  kf_host :: string
  kf_port :: uint16
  kf_client_id :: string
  kf_tls :: bool
  kf_tls_insecure :: bool
  kf_tls_ca_cert :: string
  kf_tls_server_name :: string
  kf_sasl :: "kafka_sasl_config option"
  kf_topic :: string
  kf_min_brokers :: int

record dns_check_config =
  dns_names :: "string list"
  dns_resolver :: string
  dns_port :: uint16
  dns_query_type :: string

record grpc_check_config =
  grpc_host :: string
  grpc_port :: uint16
  grpc_tls :: bool
  grpc_tls_insecure :: bool
  grpc_tls_ca_cert :: string
  grpc_tls_server_name :: string
  grpc_method :: string
  grpc_service :: string
  grpc_ok_codes :: "string list"
  grpc_metadata :: "(string, string) gomap"

text \<open>\<open>max_loss_ratio\<close> is a finite \<open>float64\<close>, hence a rational.\<close>

record ping_check_config =
  ping_dst_ip :: string
  ping_src_ip :: string
  ping_privileged :: bool
  ping_count :: int
  ping_timeout :: "go_duration option"
  ping_interval :: "go_duration option"
  ping_max_loss_ratio :: rat

record check_config =
  ck_name :: string
  ck_type :: string
  ck_detailed_metrics :: bool
  ck_interval :: "go_duration option"
  ck_timeout :: "go_duration option"
  ck_rise :: "int option"
  ck_fall :: "int option"
  ck_http :: "http_check_config option"
  ck_dns :: "dns_check_config option"
  ck_ping :: "ping_check_config option"
  ck_udp :: "udp_check_config option"
  ck_tcp :: "tcp_check_config option"
  ck_listen :: "listen_check_config option"
  ck_sql :: "sql_check_config option"
  ck_kafka :: "kafka_check_config option"
  ck_grpc :: "grpc_check_config option"

section \<open>VIPs and their policy\<close>

record announce_config =
  an_as_path_prepend :: "int option"
  an_communities :: "string list"

record lower_priority_config =
  lp_as_path_prepend :: "int option"
  lp_communities :: "string list"

record policy_config =
  pc_fail_action :: string
  pc_lower_priority_file :: string
  pc_announce :: "announce_config option"
  pc_lower_priority :: "lower_priority_config option"

record vip_config =
  v_name :: string
  v_prefix :: string
  v_check :: check_config
  v_checks :: "check_config list"
  v_checks_policy :: string
  v_policy :: policy_config
  v_require_local_address :: bool
  v_local_interface :: string

record config =
  c_schema :: string
  c_router :: router_config
  c_api :: api_config
  c_logging :: logging_config
  c_otel :: otel_config
  c_paths :: paths_config
  c_bgp :: bgp_config
  c_vips :: "vip_config list"

section \<open>Accessors\<close>

definition check_EffectiveName :: "check_config \<Rightarrow> string" where
  "check_EffectiveName c = (if ck_name c \<noteq> [] then ck_name c else ck_type c)"

definition CheckList :: "vip_config \<Rightarrow> check_config list" where
  "CheckList v = (if v_checks v \<noteq> [] then v_checks v else [v_check v])"

definition EffectiveChecksPolicy :: "vip_config \<Rightarrow> string" where
  "EffectiveChecksPolicy v = (if v_checks_policy v = [] then ChecksPolicyAll else v_checks_policy v)"

definition query_EffectiveName :: "sql_query_config \<Rightarrow> nat \<Rightarrow> string" where
  "query_EffectiveName q index = (if q_name q \<noteq> [] then q_name q else ''q'' @ show_nat (index + 1))"

definition EffectiveEndpoint :: "otel_signal_config \<Rightarrow> string \<Rightarrow> string" where
  "EffectiveEndpoint s global = (if sig_endpoint s \<noteq> [] then sig_endpoint s else global)"

definition signal_IsEnabled :: "otel_signal_config \<Rightarrow> bool" where
  "signal_IsEnabled s = (case sig_enabled s of None \<Rightarrow> True | Some b \<Rightarrow> b)"

definition EffectiveInsecure :: "otel_signal_config \<Rightarrow> bool \<Rightarrow> bool" where
  "EffectiveInsecure s global = (case sig_insecure s of Some b \<Rightarrow> b | None \<Rightarrow> global)"

text \<open>
  \<open>maps.Clone (global)\<close> followed by \<open>maps.Copy\<close>. Cloning a nil map (\<open>None\<close>) gives nil, and copying
  an entry into a nil map panics.
\<close>

definition EffectiveHeaders ::
    "otel_signal_config \<Rightarrow> (string, string) gomap option \<Rightarrow> (string, string) gomap option outcome" where
  "EffectiveHeaders s global =
     (if sig_headers s = [] then Ret global
      else case global of
             None \<Rightarrow> Panic ''assignment to entry in nil map''
           | Some g \<Rightarrow> Ret (Some (fold (\<lambda>(k, v) m. gm_put k v m) (sig_headers s) g)))"

definition otel_IsEnabled :: "otel_config \<Rightarrow> bool" where
  "otel_IsEnabled c = (case otel_enabled c of None \<Rightarrow> True | Some b \<Rightarrow> b)"

datatype otel_protocol = OTelProtocolGRPC | OTelProtocolHTTP

definition ParseOTelEndpoint :: "string \<Rightarrow> otel_protocol \<times> string \<times> go_error option" where
  "ParseOTelEndpoint rawURL =
     (if has_prefix rawURL ''grpcs://'' then
        (OTelProtocolGRPC, ''https://'' @ drop (length ''grpcs://'') rawURL, None)
      else if has_prefix rawURL ''grpc://'' then
        (OTelProtocolGRPC, ''http://'' @ drop (length ''grpc://'') rawURL, None)
      else if has_prefix rawURL ''https://'' \<or> has_prefix rawURL ''http://'' then
        (OTelProtocolHTTP, rawURL, None)
      else
        (OTelProtocolGRPC, rawURL,
         Some (Errorf ''unrecognised OTLP endpoint scheme in %q; use grpc://, grpcs://, http://, or https://''
                 [FStr rawURL] None)))"

section \<open>Lemmas\<close>

lemma CheckList_not_Nil [simp]: "CheckList v \<noteq> []"
  by (simp add: CheckList_def)

lemma EffectiveChecksPolicy_not_Nil: "EffectiveChecksPolicy v \<noteq> []"
  by (simp add: EffectiveChecksPolicy_def ChecksPolicyAll_def)

text \<open>The endpoint the exporters get is an \<open>http\<close> or \<open>https\<close> URL exactly when no error is reported.\<close>

lemma ParseOTelEndpoint_normalised:
  "ParseOTelEndpoint u = (p, n, None) \<Longrightarrow> has_prefix n ''http://'' \<or> has_prefix n ''https://''"
  by (auto simp: ParseOTelEndpoint_def has_prefix_iff split: if_splits)

end
