(* ===== verification/Model.thy ===== *)
theory Model
  imports Config
begin

text \<open>
  The data the components exchange (\<open>internal/model/model.go\<close>, \<open>internal/checks/check.go\<close>): states,
  health, route attributes, check results and their details, and the observable status records.
\<close>

section \<open>States\<close>

datatype VIPState = StateWithdrawn | StateAnnounced | StatePessimized

datatype HealthStatus = HealthUnknown | HealthHealthy | HealthUnhealthy

definition VIPState_String :: "VIPState \<Rightarrow> string" where
  "VIPState_String s =
     (case s of StateWithdrawn \<Rightarrow> ''withdrawn'' | StateAnnounced \<Rightarrow> ''announced''
              | StatePessimized \<Rightarrow> ''pessimized'')"

definition HealthStatus_String :: "HealthStatus \<Rightarrow> string" where
  "HealthStatus_String h =
     (case h of HealthUnknown \<Rightarrow> ''unknown'' | HealthHealthy \<Rightarrow> ''healthy''
              | HealthUnhealthy \<Rightarrow> ''unhealthy'')"

text \<open>The numeric value of a state, exported by the gauge \<open>pathosd_vip_state\<close>.\<close>

definition VIPState_int :: "VIPState \<Rightarrow> int" where
  "VIPState_int s = (case s of StateWithdrawn \<Rightarrow> 0 | StateAnnounced \<Rightarrow> 1 | StatePessimized \<Rightarrow> 2)"

record route_attrs =
  ra_as_path_prepend :: int
  ra_communities :: "string list"

text \<open>The zero value: a plain announcement.\<close>

definition zero_route_attrs :: route_attrs where
  "zero_route_attrs = \<lparr>ra_as_path_prepend = 0, ra_communities = []\<rparr>"

section \<open>Check results\<close>

record ping_details =
  pd_rtts :: "go_duration list"
  pd_packet_loss :: rat
  pd_packets_sent :: int
  pd_packets_recv :: int

record http_details =
  hd_status_code :: int
  hd_tls_cert_not_after :: go_time

record dns_name_details =
  dn_name :: string
  dn_rcode :: int
  dn_answers :: int

record grpc_details =
  gd_status_code :: uint32
  gd_serving_status :: string

record sql_query_details =
  sq_name :: string
  sq_rows :: int
  sq_duration :: go_duration
  sq_passed :: bool

record kafka_details =
  kd_cluster_id :: string
  kd_controller :: int
  kd_brokers :: int
  kd_topic :: string
  kd_partitions :: int
  kd_partitions_without_leader :: int

datatype check_details =
    PingDetails ping_details
  | HTTPDetails http_details
  | DNSDetails "dns_name_details list"
  | GRPCDetails grpc_details
  | ListenDetails "string list"
  | SQLDetails "sql_query_details list"
  | KafkaDetails kafka_details

record check_result =
  res_success :: bool
  res_detail :: string
  res_duration :: go_duration
  res_err :: "go_error option"
  res_timed_out :: bool
  res_details :: "check_details option"

definition zero_result :: check_result where
  "zero_result = \<lparr>res_success = False, res_detail = [], res_duration = 0, res_err = None,
                  res_timed_out = False, res_details = None\<rparr>"

section \<open>Observable status\<close>

record check_status =
  cst_name :: string
  cst_type :: string
  cst_health :: HealthStatus
  cst_health_name :: string
  cst_consecutive_ok :: int
  cst_consecutive_fail :: int
  cst_last_success :: bool
  cst_last_detail :: string
  cst_last_time :: go_time

record vip_status =
  vst_name :: string
  vst_prefix :: string
  vst_state :: VIPState
  vst_state_name :: string
  vst_health :: HealthStatus
  vst_health_name :: string
  vst_consecutive_ok :: int
  vst_consecutive_fail :: int
  vst_last_check_success :: bool
  vst_last_check_detail :: string
  vst_last_check_time :: go_time
  vst_last_transition_time :: go_time
  vst_last_transition_reason :: string
  vst_check_type :: string
  vst_checks_policy :: string
  vst_checks :: "check_status list"
  vst_bgp_pending :: bool
  vst_as_path_prepend_base :: int
  vst_as_path_prepend :: int
  vst_communities :: "string list"

record peer_status =
  ps_name :: string
  ps_address :: string
  ps_peer_asn :: uint32
  ps_session_state :: string
  ps_required :: bool

datatype reload_outcome = ReloadNone | ReloadApplied | ReloadUnchanged | ReloadRejected | ReloadFailed

text \<open>The outcome as the source stores it, a string.\<close>

definition outcome_text :: "reload_outcome \<Rightarrow> string" where
  "outcome_text o' =
     (case o' of ReloadNone \<Rightarrow> [] | ReloadApplied \<Rightarrow> ''applied'' | ReloadUnchanged \<Rightarrow> ''unchanged''
              | ReloadRejected \<Rightarrow> ''rejected'' | ReloadFailed \<Rightarrow> ''failed'')"

record reload_status =
  rs_at :: go_time
  rs_outcome :: reload_outcome
  rs_error :: string
  rs_errors :: "string list"
  rs_added :: "string list"
  rs_removed :: "string list"
  rs_changed :: "string list"
  rs_pending :: "string list"

definition ReloadStatus_OK :: "reload_status option \<Rightarrow> bool" where
  "ReloadStatus_OK r =
     (case r of None \<Rightarrow> False
      | Some s \<Rightarrow> rs_outcome s = ReloadApplied \<or> rs_outcome s = ReloadUnchanged)"

record config_status =
  cs_path :: string
  cs_loaded_at :: go_time
  cs_generation :: int
  cs_file_changed :: bool
  cs_pending_vips :: "string list"
  cs_last_reload :: "reload_status option"

text \<open>The gauge value determines the state, and so does its name: no two states are confused.\<close>

lemma VIPState_int_inj: "VIPState_int s = VIPState_int t \<Longrightarrow> s = t"
  by (cases s; cases t) (simp_all add: VIPState_int_def)

lemma VIPState_String_inj: "VIPState_String s = VIPState_String t \<Longrightarrow> s = t"
  by (cases s; cases t) (simp_all add: VIPState_String_def)

end
