(* ===== verification/Checks_Policy.thy ===== *)
theory Checks_Policy
  imports Model "HOL-Library.Char_ord" "HOL-Library.List_Lexorder"
begin

text \<open>
  How the health of several checks combines into the health of a VIP
  (\<open>internal/config/checkspolicy.go\<close>).

  The expression language is a third-party package (expr-lang). \<open>expr.Compile\<close> is the parameter
  \<open>expr_compile\<close> of the definitions that call it, and a compiled program is represented by what
  \<open>expr.Run\<close> returns for it on an environment.
\<close>

section \<open>Check names\<close>

definition is_letter_or_underscore :: "char \<Rightarrow> bool" where
  "is_letter_or_underscore c =
     (let n = of_char c :: nat in (65 \<le> n \<and> n \<le> 90) \<or> (97 \<le> n \<and> n \<le> 122) \<or> n = 95)"

text \<open>The regular expression \<open>^[A-Za-z_][A-Za-z0-9_]*$\<close>.\<close>

definition checkNameRe :: "string \<Rightarrow> bool" where
  "checkNameRe s =
     (case s of
        [] \<Rightarrow> False
      | c # cs \<Rightarrow> is_letter_or_underscore c \<and>
                   list_all (\<lambda>d. is_letter_or_underscore d \<or> digit_val d \<noteq> None) cs)"

definition ValidateCheckName :: "string \<Rightarrow> go_error option" where
  "ValidateCheckName name =
     (if \<not> checkNameRe name then
        Some (Errorf ''must match %s'' [FStr ''^[A-Za-z_][A-Za-z0-9_]*$''] None)
      else if name = ChecksPolicyAll \<or> name = ChecksPolicyAny then
        Some (Errorf ''%q is reserved'' [FStr name] None)
      else None)"

section \<open>The evaluator\<close>

text \<open>What running a compiled expression can give: an error, a boolean, or another value.\<close>

datatype expr_out = ExprErr go_error | ExprBool bool | ExprOther

type_synonym expr_program = "(string, bool) gomap \<Rightarrow> expr_out"

type_synonym expr_compiler = "string \<Rightarrow> (string, bool) gomap \<Rightarrow> go_error + expr_program"

record checks_evaluator =
  ev_policy :: string
  ev_names :: "string list"
  ev_program :: "expr_program option"

definition CompileChecksPolicy ::
    "expr_compiler \<Rightarrow> string \<Rightarrow> string list \<Rightarrow> go_error + checks_evaluator" where
  "CompileChecksPolicy expr_compile policy0 names =
     (let policy = (if policy0 = [] then ChecksPolicyAll else policy0);
          ev = \<lparr>ev_policy = policy, ev_names = names, ev_program = None\<rparr>
      in if policy = ChecksPolicyAll \<or> policy = ChecksPolicyAny then Inr ev
         else case expr_compile policy (fold (\<lambda>n env. gm_put n True env) names []) of
                Inl err \<Rightarrow>
                  Inl (Errorf ''%w (known checks: %s)'' [FStr (str_join (sort names) '', '')] (Some err))
              | Inr prog \<Rightarrow> Inr (ev\<lparr>ev_program := Some prog\<rparr>))"

fun eval_loop :: "(string, bool) gomap \<Rightarrow> string list \<Rightarrow> bool \<times> bool \<Rightarrow> bool \<times> bool" where
  "eval_loop healthy [] (all, anyOK) = (all, anyOK)"
| "eval_loop healthy (n # ns) (all, anyOK) =
     (if gm_get0 False healthy n then eval_loop healthy ns (all, True)
      else eval_loop healthy ns (False, anyOK))"

definition Eval :: "checks_evaluator \<Rightarrow> (string, bool) gomap \<Rightarrow> bool" where
  "Eval e healthy =
     (case ev_program e of
        None \<Rightarrow>
          (let (all, anyOK) = eval_loop healthy (ev_names e) (True, False)
           in if ev_policy e = ChecksPolicyAny then anyOK
              else all \<and> ev_names e \<noteq> [])
      | Some prog \<Rightarrow>
          (let env = fold (\<lambda>n env. gm_put n (gm_get0 False healthy n) env) (ev_names e) []
           in case prog env of ExprErr _ \<Rightarrow> False | ExprBool b \<Rightarrow> b | ExprOther \<Rightarrow> False))"

section \<open>Lemmas\<close>

lemma policy_names_distinct [simp]: "ChecksPolicyAll \<noteq> ChecksPolicyAny" "ChecksPolicyAll \<noteq> []"
  by (simp_all add: ChecksPolicyAll_def ChecksPolicyAny_def)

lemma eval_loop_spec:
  "eval_loop healthy ns (a, o') =
     (a \<and> (\<forall>n \<in> set ns. gm_get0 False healthy n), o' \<or> (\<exists>n \<in> set ns. gm_get0 False healthy n))"
  by (induction ns arbitrary: a o') auto

lemma Eval_any:
  assumes "ev_program e = None" and "ev_policy e = ChecksPolicyAny"
  shows "Eval e healthy \<longleftrightarrow> (\<exists>n \<in> set (ev_names e). gm_get0 False healthy n)"
  using assms by (simp add: Eval_def eval_loop_spec)

lemma Eval_all:
  assumes "ev_program e = None" and "ev_policy e \<noteq> ChecksPolicyAny"
  shows "Eval e healthy \<longleftrightarrow> ev_names e \<noteq> [] \<and> (\<forall>n \<in> set (ev_names e). gm_get0 False healthy n)"
  using assms by (auto simp: Eval_def eval_loop_spec)

text \<open>The evaluator looks at the health of the named checks only.\<close>

lemma Eval_cong:
  assumes "\<And>n. n \<in> set (ev_names e) \<Longrightarrow> gm_get0 False h n = gm_get0 False h' n"
  shows "Eval e h = Eval e h'"
proof -
  have env: "fold (\<lambda>n env. gm_put n (gm_get0 False h n) env) (ev_names e) [] =
        fold (\<lambda>n env. gm_put n (gm_get0 False h' n) env) (ev_names e) []"
    by (rule fold_cong) (auto simp: assms)
  have loop: "eval_loop h (ev_names e) (True, False) = eval_loop h' (ev_names e) (True, False)"
    using assms by (simp add: eval_loop_spec)
  show ?thesis by (simp only: Eval_def env loop)
qed

lemma CompileChecksPolicy_Inr:
  assumes "CompileChecksPolicy xc pol names = Inr e"
  shows "ev_names e = names"
    and "ev_policy e = (if pol = [] then ChecksPolicyAll else pol)"
    and "ev_program e = None \<longleftrightarrow> pol = [] \<or> pol = ChecksPolicyAll \<or> pol = ChecksPolicyAny"
  using assms by (auto simp: CompileChecksPolicy_def Let_def split: if_splits sum.splits)

text \<open>The shortcuts always compile, so the fallback of a VIP entry to \<open>all\<close> cannot fail.\<close>

lemma CompileChecksPolicy_shortcut:
  "pol = [] \<or> pol = ChecksPolicyAll \<or> pol = ChecksPolicyAny \<Longrightarrow>
   CompileChecksPolicy xc pol names =
     Inr \<lparr>ev_policy = (if pol = [] then ChecksPolicyAll else pol), ev_names = names, ev_program = None\<rparr>"
  by (auto simp: CompileChecksPolicy_def)

section \<open>Properties\<close>

text \<open>C8: A compiled shortcut policy means what it says: under \<open>any\<close> one healthy named check is enough,
  under \<open>all\<close> (also written as no policy) every named check must be healthy and there must be one. A
  check with no reported health counts as unhealthy.\<close>

theorem shortcut_policy_meaning:
  assumes "CompileChecksPolicy xc pol names = Inr e" and "pol \<in> {[], ChecksPolicyAll, ChecksPolicyAny}"
  shows "Eval e healthy \<longleftrightarrow>
    (if pol = ChecksPolicyAny then \<exists>n \<in> set names. map_of healthy n = Some True
     else names \<noteq> [] \<and> (\<forall>n \<in> set names. map_of healthy n = Some True))"
proof -
  have g: "gm_get0 False healthy n \<longleftrightarrow> map_of healthy n = Some True" for n
    by (simp add: gm_get0_def split: option.split)
  have "ev_program e = None" "ev_names e = names"
    "ev_policy e = ChecksPolicyAny \<longleftrightarrow> pol = ChecksPolicyAny"
    using CompileChecksPolicy_Inr [OF assms(1)] assms(2) by (auto simp: ChecksPolicyAny_def ChecksPolicyAll_def)
  then show ?thesis by (simp add: Eval_any Eval_all g)
qed

theorem shortcut_policy_meaning_witness:
  "Eval \<lparr>ev_policy = ChecksPolicyAny, ev_names = [''a'', ''b''], ev_program = None\<rparr> [(''a'', False), (''b'', True)]"
  using shortcut_policy_meaning [of "\<lambda>_ _. Inl (Errorf [] [] None)" ChecksPolicyAny "[''a'', ''b'']"
      "\<lparr>ev_policy = ChecksPolicyAny, ev_names = [''a'', ''b''], ev_program = None\<rparr>" "[(''a'', False), (''b'', True)]"]
  by (simp add: CompileChecksPolicy_shortcut ChecksPolicyAny_def)

text \<open>The evaluation of every policy, expressions included, depends on nothing but the health of the
  named checks, and an expression that fails at run time or does not give a boolean counts as
  unhealthy.\<close>

theorem Eval_depends_on_named_checks:
  "((\<forall>n \<in> set (ev_names e). map_of h n = map_of h' n) \<longrightarrow> Eval e h = Eval e h') \<and>
   (\<forall>prog. ev_program e = Some prog \<and> (\<forall>env b. prog env \<noteq> ExprBool b) \<longrightarrow> \<not> Eval e h)"
proof (intro conjI allI impI)
  assume "\<forall>n \<in> set (ev_names e). map_of h n = map_of h' n"
  then show "Eval e h = Eval e h'" by (intro Eval_cong) (simp add: gm_get0_def)
next
  fix prog assume prog: "ev_program e = Some prog \<and> (\<forall>env b. prog env \<noteq> ExprBool b)"
  then show "\<not> Eval e h" by (auto simp: Eval_def Let_def split: expr_out.splits)
qed

theorem Eval_depends_on_named_checks_witness:
  "Eval \<lparr>ev_policy = ChecksPolicyAll, ev_names = [''a''], ev_program = None\<rparr> [(''a'', True), (''b'', False)] =
   Eval \<lparr>ev_policy = ChecksPolicyAll, ev_names = [''a''], ev_program = None\<rparr> [(''a'', True)]"
  using Eval_depends_on_named_checks [of "\<lparr>ev_policy = ChecksPolicyAll, ev_names = [''a''], ev_program = None\<rparr>"
      "[(''a'', True), (''b'', False)]" "[(''a'', True)]"] by simp

end
