(* ===== verification/Example_Data.thy ===== *)
theory Example_Data
  imports Config
begin

text \<open>
  Concrete configurations for the witnesses of the development: a policy, a check, a VIP and a whole
  configuration. They model nothing of the sources.
\<close>

definition ex_policy :: policy_config where
  "ex_policy =
     \<lparr>pc_fail_action = ''lower_priority'', pc_lower_priority_file = [],
      pc_announce = Some \<lparr>an_as_path_prepend = Some 1, an_communities = [''65001:1'']\<rparr>,
      pc_lower_priority = Some \<lparr>lp_as_path_prepend = Some 4, lp_communities = [''65001:9'']\<rparr>\<rparr>"

definition ex_check :: "string \<Rightarrow> check_config" where
  "ex_check name =
     \<lparr>ck_name = name, ck_type = CheckTypeTCP, ck_detailed_metrics = False, ck_interval = None,
      ck_timeout = None, ck_rise = None, ck_fall = None, ck_http = None, ck_dns = None, ck_ping = None,
      ck_udp = None, ck_tcp = Some \<lparr>tcp_host = ''127.0.0.1'', tcp_port = 80\<rparr>, ck_listen = None,
      ck_sql = None, ck_kafka = None, ck_grpc = None\<rparr>"

definition ex_vip :: "string \<Rightarrow> string \<Rightarrow> string list \<Rightarrow> vip_config" where
  "ex_vip name prefix checks =
     \<lparr>v_name = name, v_prefix = prefix, v_check = ex_check [], v_checks = map ex_check checks,
      v_checks_policy = ChecksPolicyAny, v_policy = ex_policy\<lparr>pc_fail_action := ''withdraw''\<rparr>,
      v_require_local_address = False, v_local_interface = []\<rparr>"

lemma ex_vip_sel [simp]:
  "v_name (ex_vip n p cs) = n" "v_prefix (ex_vip n p cs) = p"
  "v_policy (ex_vip n p cs) = ex_policy\<lparr>pc_fail_action := ''withdraw''\<rparr>"
  "pc_lower_priority_file ex_policy = []"
  by (simp_all add: ex_vip_def ex_policy_def)

definition ex_config :: config where
  "ex_config =
     \<lparr>c_schema = [],
      c_router = \<lparr>rt_asn = 65001, rt_router_id = ''10.0.0.1'', rt_local_address = ''10.0.0.1'', rt_local_address_ipv6 = []\<rparr>,
      c_api = \<lparr>api_listen = '':9179'', api_read_header_timeout = None, api_read_timeout = None,
               api_write_timeout = None, api_idle_timeout = None\<rparr>,
      c_logging = \<lparr>log_level = ''info'', log_format = ''text'', log_otel_level = [], log_timestamps = None\<rparr>,
      c_otel = \<lparr>otel_enabled = None, otel_endpoint = [], otel_insecure = False, otel_headers = None,
                otel_service_name = [],
                otel_traces = \<lparr>sig_endpoint = [], sig_enabled = None, sig_insecure = None, sig_headers = []\<rparr>,
                otel_metrics = \<lparr>sig_endpoint = [], sig_enabled = None, sig_insecure = None, sig_headers = []\<rparr>,
                otel_logs = \<lparr>sig_endpoint = [], sig_enabled = None, sig_insecure = None, sig_headers = []\<rparr>\<rparr>,
      c_paths = \<lparr>paths_procfs = ''/proc''\<rparr>,
      c_bgp = \<lparr>bgp_graceful_restart = None, bgp_hold_time = None, bgp_keepalive_time = None,
               bgp_listen_address = [], bgp_listen_port = 0,
               bgp_gobgp_api = \<lparr>gapi_enabled = False, gapi_listen = []\<rparr>, bgp_neighbors = []\<rparr>,
      c_vips = []\<rparr>"

text \<open>A configuration with the given VIPs.\<close>

definition ex_config_with :: "vip_config list \<Rightarrow> config" where
  "ex_config_with vs = ex_config\<lparr>c_vips := vs\<rparr>"

end
