(* ===== verification/Engine.thy ===== *)
theory Engine
  imports Model Example_Data
begin

text \<open>
  The policy engine (\<open>internal/policy/engine.go\<close>): from health to routing state, and from routing
  state to the BGP attributes of the route.
\<close>

definition Evaluate :: "bool \<Rightarrow> bool \<Rightarrow> policy_config \<Rightarrow> VIPState" where
  "Evaluate healthy lowerPriorityFilePresent p =
     (if healthy then
        (if lowerPriorityFilePresent then StatePessimized else StateAnnounced)
      else if pc_fail_action p = ''withdraw'' then StateWithdrawn
      else if pc_fail_action p = ''lower_priority'' then StatePessimized
      else StateWithdrawn)"

definition defaultLowerPriorityPrepend :: int where
  "defaultLowerPriorityPrepend = 6"

definition BaseRouteAttrs :: "policy_config \<Rightarrow> route_attrs" where
  "BaseRouteAttrs p =
     (case pc_announce p of
        None \<Rightarrow> zero_route_attrs
      | Some a \<Rightarrow>
          \<lparr>ra_as_path_prepend = (case an_as_path_prepend a of None \<Rightarrow> 0 | Some n \<Rightarrow> n),
           ra_communities = an_communities a\<rparr>)"

text \<open>The loop of \<open>mergeCommunities\<close>: \<open>seen\<close> and \<open>out\<close> grow together.\<close>

fun merge_loop :: "string list \<Rightarrow> string list \<Rightarrow> string list \<Rightarrow> string list" where
  "merge_loop [] seen out = out"
| "merge_loop (c # cs) seen out =
     (if List.member seen c then merge_loop cs seen out else merge_loop cs (c # seen) (out @ [c]))"

definition mergeCommunities :: "string list \<Rightarrow> string list \<Rightarrow> string list" where
  "mergeCommunities base extra =
     (if base = [] \<and> extra = [] then [] else merge_loop (base @ extra) [] [])"

definition RouteAttrsFor :: "policy_config \<Rightarrow> VIPState \<Rightarrow> route_attrs" where
  "RouteAttrsFor p state =
     (case state of
        StateAnnounced \<Rightarrow> BaseRouteAttrs p
      | StatePessimized \<Rightarrow>
          (let attrs = BaseRouteAttrs p;
               lowerPrepend =
                 (case pc_lower_priority p of
                    None \<Rightarrow> defaultLowerPriorityPrepend
                  | Some lp \<Rightarrow>
                      (case lp_as_path_prepend lp of None \<Rightarrow> defaultLowerPriorityPrepend | Some n \<Rightarrow> n));
               lowerCommunities =
                 (case pc_lower_priority p of None \<Rightarrow> [] | Some lp \<Rightarrow> lp_communities lp)
           in \<lparr>ra_as_path_prepend = ra_as_path_prepend attrs + lowerPrepend,
               ra_communities = mergeCommunities (ra_communities attrs) lowerCommunities\<rparr>)
      | StateWithdrawn \<Rightarrow> zero_route_attrs)"

section \<open>Evaluate\<close>

lemma Evaluate_announced_iff:
  "Evaluate healthy fileOn p = StateAnnounced \<longleftrightarrow> healthy \<and> \<not> fileOn"
  by (simp add: Evaluate_def)

lemma Evaluate_withdrawn_iff:
  "Evaluate healthy fileOn p = StateWithdrawn \<longleftrightarrow> \<not> healthy \<and> pc_fail_action p \<noteq> ''lower_priority''"
  by (simp add: Evaluate_def)

lemma Evaluate_pessimized_iff:
  "Evaluate healthy fileOn p = StatePessimized \<longleftrightarrow>
     (if healthy then fileOn else pc_fail_action p = ''lower_priority'')"
  by (simp add: Evaluate_def)

section \<open>Merging communities\<close>

lemma merge_loop_spec:
  assumes "set seen = set out" and "distinct out"
  shows "set (merge_loop cs seen out) = set out \<union> set cs \<and> distinct (merge_loop cs seen out)"
  using assms by (induction cs seen out rule: merge_loop.induct) auto

lemma merge_loop_prefix: "\<exists>ys. merge_loop cs seen out = out @ ys"
  by (induction cs seen out rule: merge_loop.induct) auto

lemma merge_loop_append:
  "distinct (out @ cs) \<Longrightarrow> set seen = set out \<Longrightarrow>
   merge_loop (cs @ ds) seen out = merge_loop ds (rev cs @ seen) (out @ cs)"
proof (induction cs arbitrary: seen out)
  case Nil
  then show ?case by simp
next
  case (Cons c cs)
  then have "merge_loop (cs @ ds) (c # seen) (out @ [c]) =
      merge_loop ds (rev cs @ (c # seen)) ((out @ [c]) @ cs)"
    by (intro Cons.IH) auto
  with Cons.prems show ?case by auto
qed

lemma set_mergeCommunities: "set (mergeCommunities a b) = set a \<union> set b"
  using merge_loop_spec [of "[]" "[]" "a @ b"] by (auto simp: mergeCommunities_def)

lemma distinct_mergeCommunities: "distinct (mergeCommunities a b)"
  using merge_loop_spec [of "[]" "[]" "a @ b"] by (auto simp: mergeCommunities_def)

text \<open>A base list without repetitions stays in front, in its order.\<close>

lemma mergeCommunities_keeps_base:
  assumes "distinct a"
  shows "\<exists>ys. mergeCommunities a b = a @ ys"
proof (cases "a = [] \<and> b = []")
  case True
  then show ?thesis by (simp add: mergeCommunities_def)
next
  case False
  then have "mergeCommunities a b = merge_loop b (rev a) a"
    using merge_loop_append [of "[]" a "[]" b] assms by (simp add: mergeCommunities_def)
  then show ?thesis using merge_loop_prefix [of b "rev a" a] by simp
qed

section \<open>Route attributes\<close>

lemma BaseRouteAttrs_prepend:
  "ra_as_path_prepend (BaseRouteAttrs p) =
     (case pc_announce p of None \<Rightarrow> 0
      | Some a \<Rightarrow> (case an_as_path_prepend a of None \<Rightarrow> 0 | Some n \<Rightarrow> n))"
  by (simp add: BaseRouteAttrs_def zero_route_attrs_def split: option.splits)

lemma RouteAttrsFor_simps [simp]:
  "RouteAttrsFor p StateAnnounced = BaseRouteAttrs p"
  "RouteAttrsFor p StateWithdrawn = zero_route_attrs"
  by (simp_all add: RouteAttrsFor_def)

lemma RouteAttrsFor_pessimized_communities:
  "set (ra_communities (RouteAttrsFor p StatePessimized)) =
     set (ra_communities (BaseRouteAttrs p)) \<union>
     (case pc_lower_priority p of None \<Rightarrow> {} | Some lp \<Rightarrow> set (lp_communities lp))"
  by (simp add: RouteAttrsFor_def Let_def set_mergeCommunities split: option.splits)

section \<open>Properties\<close>

text \<open>The routing state of a VIP by cases: it is announced exactly when healthy and not drained,
  withdrawn exactly when unhealthy without the \<open>lower_priority\<close> action (so an unknown action fails
  closed), and pessimized exactly when drained while healthy or unhealthy under that action.\<close>

theorem Evaluate_complete:
  "(Evaluate healthy drained p = StateAnnounced \<longleftrightarrow> healthy \<and> \<not> drained) \<and>
   (Evaluate healthy drained p = StateWithdrawn \<longleftrightarrow> \<not> healthy \<and> pc_fail_action p \<noteq> ''lower_priority'') \<and>
   (Evaluate healthy drained p = StatePessimized \<longleftrightarrow>
      (if healthy then drained else pc_fail_action p = ''lower_priority''))"
  by (simp add: Evaluate_announced_iff Evaluate_withdrawn_iff Evaluate_pessimized_iff)

text \<open>Merging communities keeps every community of both lists exactly once, and a base list without
  repetitions stays in front in its order.\<close>

theorem mergeCommunities_correct:
  "set (mergeCommunities base extra) = set base \<union> set extra \<and>
   distinct (mergeCommunities base extra) \<and>
   (distinct base \<longrightarrow> (\<exists>ys. mergeCommunities base extra = base @ ys))"
  by (simp add: set_mergeCommunities distinct_mergeCommunities mergeCommunities_keeps_base)

theorem mergeCommunities_correct_witness:
  "\<exists>ys. mergeCommunities [''65001:1'', ''65001:2''] [''65001:2'', ''65001:9''] = [''65001:1'', ''65001:2''] @ ys"
  using mergeCommunities_correct [of "[''65001:1'', ''65001:2'']" "[''65001:2'', ''65001:9'']"] by simp



text \<open>
  The order of two nodes is not so protected: a degraded node with a small base prepend outranks a
  healthy node whose base prepend is larger than the sum, although the comments on \<open>RouteAttrsFor\<close>
  and on \<open>AnnounceConfig\<close> exclude it.
\<close>

lemma degraded_can_outrank_healthy:
  "\<exists>degraded healthy.
     ra_as_path_prepend (BaseRouteAttrs degraded) < ra_as_path_prepend (BaseRouteAttrs healthy) \<and>
     ra_as_path_prepend (RouteAttrsFor degraded StatePessimized) <
       ra_as_path_prepend (RouteAttrsFor healthy StateAnnounced)"
  by (rule exI [of _ "ex_policy\<lparr>pc_announce := None, pc_lower_priority := None\<rparr>"],
      rule exI [of _ "ex_policy\<lparr>pc_announce := Some \<lparr>an_as_path_prepend = Some 10, an_communities = []\<rparr>\<rparr>"])
    (simp add: RouteAttrsFor_def BaseRouteAttrs_def zero_route_attrs_def defaultLowerPriorityPrepend_def Let_def)

end
