(* ===== verification/Scheduler.thy ===== *)
theory Scheduler
  imports Model
begin

text \<open>
  The check scheduler (\<open>internal/checks/scheduler.go\<close>): rise/fall hysteresis over the results of one
  check, and the callbacks it fires.

  A run of the check is one step: the checker's result is an input of \<open>runCheck\<close> (the checkers and
  their network I/O are behind the \<open>Checker\<close> interface), the output is the new scheduler and the
  callbacks in the order they are invoked. The mutex \<open>runMu\<close> serialises the runs, so a history of a
  scheduler is a list of results. Tracing and logging are not modelled.
\<close>

section \<open>State\<close>

text \<open>The two functions the program installs as callbacks: those of the policy manager and the
  closure by which the reloader watches a shadow scheduler.\<close>

datatype callback = CbPolicy | CbWatchShadow

record health_transition =
  ht_vip_name :: string
  ht_check_name :: string
  ht_healthy :: bool
  ht_reason :: string
  ht_check_result :: check_result

record scheduler_config =
  scfg_vip_name :: string
  scfg_check_name :: string
  scfg_checker_type :: "string option"
  scfg_interval :: go_duration
  scfg_timeout :: go_duration
  scfg_rise :: int
  scfg_fall :: int
  scfg_on_transition :: "callback option"
  scfg_on_check_result :: "callback option"

record scheduler =
  s_vip_name :: string
  s_check_name :: string
  s_interval :: go_duration
  s_timeout :: go_duration
  s_rise :: int
  s_fall :: int
  s_on_transition :: "callback option"
  s_on_check_result :: "callback option"
  s_healthy :: bool
  s_consecutive_ok :: int
  s_consecutive_fail :: int
  s_last_result :: check_result

text \<open>A callback invocation.\<close>

datatype sched_event =
    CheckResultEvent callback string string check_result
  | TransitionEvent callback health_transition

section \<open>Operations\<close>

definition NewScheduler :: "scheduler_config \<Rightarrow> scheduler" where
  "NewScheduler cfg =
     \<lparr>s_vip_name = scfg_vip_name cfg,
      s_check_name =
        (if scfg_check_name cfg = [] then
           (case scfg_checker_type cfg of None \<Rightarrow> [] | Some ty \<Rightarrow> ty)
         else scfg_check_name cfg),
      s_interval = scfg_interval cfg,
      s_timeout = scfg_timeout cfg,
      s_rise = scfg_rise cfg,
      s_fall = scfg_fall cfg,
      s_on_transition = scfg_on_transition cfg,
      s_on_check_result = scfg_on_check_result cfg,
      s_healthy = False,
      s_consecutive_ok = 0,
      s_consecutive_fail = 0,
      s_last_result = zero_result\<rparr>"

definition SetCallbacks :: "callback option \<Rightarrow> callback option \<Rightarrow> scheduler \<Rightarrow> scheduler" where
  "SetCallbacks onTransition onCheckResult s =
     s\<lparr>s_on_transition := onTransition, s_on_check_result := onCheckResult\<rparr>"

text \<open>The update of the counters and of the health under the lock, with the transition it makes.\<close>

definition applyResult :: "check_result \<Rightarrow> scheduler \<Rightarrow> scheduler \<times> health_transition option" where
  "applyResult result s0 =
     (let s = s0\<lparr>s_last_result := result\<rparr> in
      if res_success result then
        (let s1 = s\<lparr>s_consecutive_fail := 0\<rparr>;
             s2 = (if s_consecutive_ok s1 < s_rise s1
                   then s1\<lparr>s_consecutive_ok := s_consecutive_ok s1 + 1\<rparr> else s1)
         in if \<not> s_healthy s2 \<and> s_rise s2 \<le> s_consecutive_ok s2 then
              (s2\<lparr>s_healthy := True\<rparr>,
               Some \<lparr>ht_vip_name = s_vip_name s2, ht_check_name = s_check_name s2, ht_healthy = True,
                     ht_reason = ''rise threshold reached'', ht_check_result = result\<rparr>)
            else (s2, None))
      else
        (let s1 = s\<lparr>s_consecutive_ok := 0\<rparr>;
             s2 = (if s_consecutive_fail s1 < s_fall s1
                   then s1\<lparr>s_consecutive_fail := s_consecutive_fail s1 + 1\<rparr> else s1)
         in if s_healthy s2 \<and> s_fall s2 \<le> s_consecutive_fail s2 then
              (s2\<lparr>s_healthy := False\<rparr>,
               Some \<lparr>ht_vip_name = s_vip_name s2, ht_check_name = s_check_name s2, ht_healthy = False,
                     ht_reason = ''fall threshold reached'', ht_check_result = result\<rparr>)
            else (s2, None)))"

text \<open>
  One run: the result callback first, then the transition callback, both read under the lock before
  they are called.
\<close>

definition runCheck :: "check_result \<Rightarrow> scheduler \<Rightarrow> scheduler \<times> sched_event list" where
  "runCheck result s =
     (let (s', transition) = applyResult result s;
          evs1 = (case s_on_check_result s of
                    None \<Rightarrow> []
                  | Some cb \<Rightarrow> [CheckResultEvent cb (s_vip_name s) (s_check_name s) result]);
          evs2 = (case (transition, s_on_transition s) of
                    (Some t, Some cb) \<Rightarrow> [TransitionEvent cb t]
                  | _ \<Rightarrow> [])
      in (s', evs1 @ evs2))"

text \<open>
  \<open>TriggerCheck\<close>: a context that is already cancelled runs nothing and reports its error; otherwise it
  is \<open>runCheck\<close> on the result of a check detached from the caller's cancellation.
\<close>

definition TriggerCheck ::
    "go_error option \<Rightarrow> check_result \<Rightarrow> scheduler \<Rightarrow> scheduler \<times> sched_event list \<times> (go_error + check_result)" where
  "TriggerCheck ctx_err result s =
     (case ctx_err of
        Some e \<Rightarrow> (s, [], Inl e)
      | None \<Rightarrow> (let (s', evs) = runCheck result s in (s', evs, Inr result)))"

text \<open>\<open>Run\<close>: an immediate check, then one per tick, until the context is done.\<close>

fun sched_run :: "check_result list \<Rightarrow> scheduler \<Rightarrow> scheduler \<times> sched_event list" where
  "sched_run [] s = (s, [])"
| "sched_run (r # rs) s =
     (let (s1, evs1) = runCheck r s; (s2, evs2) = sched_run rs s1 in (s2, evs1 @ evs2))"

section \<open>The abstract hysteresis\<close>

text \<open>
  The specification works on the plain list of successes and failures, newest first, with unbounded
  run lengths.
\<close>

fun ok_streak :: "bool list \<Rightarrow> nat" where
  "ok_streak [] = 0"
| "ok_streak (b # bs) = (if b then Suc (ok_streak bs) else 0)"

fun fail_streak :: "bool list \<Rightarrow> nat" where
  "fail_streak [] = 0"
| "fail_streak (b # bs) = (if b then 0 else Suc (fail_streak bs))"

fun hysteresis :: "nat \<Rightarrow> nat \<Rightarrow> bool list \<Rightarrow> bool" where
  "hysteresis rise fall [] = False"
| "hysteresis rise fall (b # bs) =
     (if b then hysteresis rise fall bs \<or> rise \<le> ok_streak (b # bs)
      else hysteresis rise fall bs \<and> fail_streak (b # bs) < fall)"

definition successes :: "check_result list \<Rightarrow> bool list" where
  "successes rs = rev (map res_success rs)"

section \<open>Invariant\<close>

definition sched_inv :: "scheduler \<Rightarrow> bool" where
  "sched_inv s \<longleftrightarrow>
     1 \<le> s_rise s \<and> 1 \<le> s_fall s \<and>
     0 \<le> s_consecutive_ok s \<and> s_consecutive_ok s \<le> s_rise s \<and>
     0 \<le> s_consecutive_fail s \<and> s_consecutive_fail s \<le> s_fall s \<and>
     (s_consecutive_ok s = 0 \<or> s_consecutive_fail s = 0) \<and>
     (s_consecutive_ok s = s_rise s \<longrightarrow> s_healthy s) \<and>
     (s_consecutive_fail s = s_fall s \<longrightarrow> \<not> s_healthy s)"

lemma sched_inv_New [wf_intros]:
  "1 \<le> scfg_rise cfg \<Longrightarrow> 1 \<le> scfg_fall cfg \<Longrightarrow> sched_inv (NewScheduler cfg)"
  by (simp add: sched_inv_def NewScheduler_def)

lemma sched_inv_SetCallbacks [wf_intros]: "sched_inv s \<Longrightarrow> sched_inv (SetCallbacks t c s)"
  by (simp add: sched_inv_def SetCallbacks_def)

lemma sched_inv_applyResult [wf_intros]:
  "sched_inv s \<Longrightarrow> sched_inv (fst (applyResult r s))"
  by (auto simp: sched_inv_def applyResult_def Let_def)

lemma applyResult_frame [frame_simps]:
  "s_vip_name (fst (applyResult r s)) = s_vip_name s"
  "s_check_name (fst (applyResult r s)) = s_check_name s"
  "s_rise (fst (applyResult r s)) = s_rise s"
  "s_fall (fst (applyResult r s)) = s_fall s"
  "s_interval (fst (applyResult r s)) = s_interval s"
  "s_timeout (fst (applyResult r s)) = s_timeout s"
  "s_on_transition (fst (applyResult r s)) = s_on_transition s"
  "s_on_check_result (fst (applyResult r s)) = s_on_check_result s"
  "s_last_result (fst (applyResult r s)) = r"
  by (simp_all add: applyResult_def Let_def)

lemma fst_runCheck [simp]: "fst (runCheck r s) = fst (applyResult r s)"
  by (simp add: runCheck_def split: prod.splits)

lemma fst_sched_run: "fst (sched_run rs s) = fold (\<lambda>r s. fst (applyResult r s)) rs s"
proof (induction rs arbitrary: s)
  case (Cons r rs)
  have "fst (sched_run (r # rs) s) = fst (sched_run rs (fst (runCheck r s)))"
    by (simp add: Let_def case_prod_beta del: fst_runCheck)
  then show ?case using Cons.IH by simp
qed simp

lemma sched_inv_run [wf_intros]: "sched_inv s \<Longrightarrow> sched_inv (fst (sched_run rs s))"
  unfolding fst_sched_run by (induction rs arbitrary: s) (auto intro: wf_intros)

lemma sched_run_frame [frame_simps]:
  "s_vip_name (fst (sched_run rs s)) = s_vip_name s"
  "s_check_name (fst (sched_run rs s)) = s_check_name s"
  "s_rise (fst (sched_run rs s)) = s_rise s"
  "s_fall (fst (sched_run rs s)) = s_fall s"
  "s_on_transition (fst (sched_run rs s)) = s_on_transition s"
  "s_on_check_result (fst (sched_run rs s)) = s_on_check_result s"
  unfolding fst_sched_run by (induction rs arbitrary: s) (simp_all add: frame_simps)

section \<open>Refinement\<close>

text \<open>The saturating counters and the health flag represent a history.\<close>

definition represents :: "scheduler \<Rightarrow> bool list \<Rightarrow> bool" where
  "represents s bs \<longleftrightarrow>
     s_consecutive_ok s = min (s_rise s) (int (ok_streak bs)) \<and>
     s_consecutive_fail s = min (s_fall s) (int (fail_streak bs)) \<and>
     s_healthy s = hysteresis (nat (s_rise s)) (nat (s_fall s)) bs"

lemma represents_step:
  assumes "represents s bs" and "1 \<le> s_rise s" and "1 \<le> s_fall s"
  shows "represents (fst (applyResult r s)) (res_success r # bs)"
  using assms by (auto simp: represents_def applyResult_def Let_def)

lemma represents_run:
  assumes "represents s bs" and "1 \<le> s_rise s" and "1 \<le> s_fall s"
  shows "represents (fst (sched_run rs s)) (rev (map res_success rs) @ bs)"
  unfolding fst_sched_run using assms
proof (induction rs arbitrary: s bs)
  case Nil
  then show ?case by simp
next
  case (Cons r rs)
  have "represents (fst (applyResult r s)) (res_success r # bs)"
    using Cons.prems by (rule represents_step)
  then show ?case using Cons.IH Cons.prems by (simp add: frame_simps)
qed

lemma represents_New:
  "1 \<le> scfg_rise cfg \<Longrightarrow> 1 \<le> scfg_fall cfg \<Longrightarrow> represents (NewScheduler cfg) []"
  by (simp add: represents_def NewScheduler_def)

section \<open>A declarative reading of the hysteresis\<close>

lemma fail_streak_append: "fail_streak us = 0 \<Longrightarrow> fail_streak (vs @ us) = fail_streak vs"
  by (induction vs) auto

lemma fail_streak_append_le: "fail_streak vs \<le> fail_streak (vs @ us)"
  by (induction vs) auto

lemma fail_streak_after_ok: "0 < ok_streak us \<Longrightarrow> fail_streak us = 0"
  by (cases us) (auto split: if_splits)

lemma hysteresis_split:
  assumes "hysteresis rise fall bs" and "1 \<le> fall"
  shows "\<exists>vs us. bs = vs @ us \<and> rise \<le> ok_streak us \<and> (\<forall>k \<le> length vs. fail_streak (drop k vs) < fall)"
  using assms(1)
proof (induction bs)
  case (Cons b bs)
  show ?case
  proof (cases "rise \<le> ok_streak (b # bs)")
    case True
    with assms(2) show ?thesis by (intro exI [of _ "[]"] exI [of _ "b # bs"]) auto
  next
    case False
    with Cons.prems have "hysteresis rise fall bs" by (auto split: if_splits)
    then obtain vs us where vu: "bs = vs @ us" "rise \<le> ok_streak us"
      and lt: "\<forall>k \<le> length vs. fail_streak (drop k vs) < fall"
      using Cons.IH by blast
    have "fail_streak (b # vs) < fall"
      using Cons.prems False assms(2) vu(1) fail_streak_append_le [of vs us]
      by (auto split: if_splits)
    with lt have "\<forall>k \<le> length (b # vs). fail_streak (drop k (b # vs)) < fall"
      by (auto simp: drop_Cons split: nat.splits)
    with vu show ?thesis by (intro exI [of _ "b # vs"] exI [of _ us]) auto
  qed
qed simp

lemma hysteresis_join:
  assumes "rise \<le> ok_streak us" and "1 \<le> rise" and "\<forall>k \<le> length vs. fail_streak (drop k vs) < fall"
  shows "hysteresis rise fall (vs @ us)"
  using assms(3)
proof (induction vs)
  case Nil
  from assms(1,2) have "us \<noteq> [] \<and> hd us" by (cases us) (auto split: if_splits)
  with assms(1) show ?case by (cases us) auto
next
  case (Cons b vs)
  have "\<forall>k \<le> length vs. fail_streak (drop k vs) < fall"
    using Cons.prems by (metis Suc_le_mono drop_Suc_Cons length_Cons)
  then have "hysteresis rise fall (vs @ us)" by (rule Cons.IH)
  moreover have "fail_streak (b # vs) < fall" using Cons.prems by (metis drop0 le0)
  moreover have "fail_streak (b # vs @ us) = fail_streak (b # vs)"
    using fail_streak_append [OF fail_streak_after_ok, of us "b # vs"] assms(1,2) by simp
  ultimately show ?case by auto
qed

section \<open>Transitions\<close>

definition transition_flags :: "sched_event list \<Rightarrow> bool list" where
  "transition_flags evs =
     List.map_filter (\<lambda>e. case e of TransitionEvent _ t \<Rightarrow> Some (ht_healthy t) | _ \<Rightarrow> None) evs"

fun alternating :: "bool \<Rightarrow> bool list \<Rightarrow> bool" where
  "alternating b [] = True"
| "alternating b (x # xs) = (x = b \<and> alternating (\<not> b) xs)"

lemma transition_flags_simps [simp]:
  "transition_flags [] = []"
  "transition_flags (xs @ ys) = transition_flags xs @ transition_flags ys"
  "transition_flags (CheckResultEvent cb v c r # xs) = transition_flags xs"
  "transition_flags (TransitionEvent cb t # xs) = ht_healthy t # transition_flags xs"
  by (simp_all add: transition_flags_def map_filter_def)

lemma runCheck_flags:
  assumes "s_on_transition s = Some cb"
  shows "transition_flags (snd (runCheck r s)) =
           (if s_healthy (fst (applyResult r s)) = s_healthy s then []
            else [s_healthy (fst (applyResult r s))])"
  using assms
  by (cases "s_on_check_result s") (auto simp: runCheck_def applyResult_def Let_def split: prod.splits)

lemma snd_sched_run_Cons:
  "snd (sched_run (r # rs) s) = snd (runCheck r s) @ snd (sched_run rs (fst (applyResult r s)))"
  by (simp add: Let_def case_prod_beta)

lemma sched_run_flags:
  assumes "s_on_transition s = Some cb"
  shows "alternating (\<not> s_healthy s) (transition_flags (snd (sched_run rs s))) \<and>
         s_healthy (fst (sched_run rs s)) =
           (s_healthy s \<noteq> odd (length (transition_flags (snd (sched_run rs s)))))"
  using assms
proof (induction rs arbitrary: s)
  case Nil
  then show ?case by simp
next
  case (Cons r rs)
  let ?s = "fst (applyResult r s)"
  have cb: "s_on_transition ?s = Some cb" using Cons.prems by (simp add: frame_simps)
  have fst: "fst (sched_run (r # rs) s) = fst (sched_run rs ?s)"
    by (simp add: fst_sched_run del: sched_run.simps)
  show ?case
    using Cons.IH [OF cb] runCheck_flags [OF Cons.prems, of r]
    by (auto simp: snd_sched_run_Cons fst simp del: sched_run.simps)
qed

section \<open>Progress\<close>

lemma all_ok_run:
  assumes "\<forall>r \<in> set rs. res_success r" and "sched_inv s" and "s_rise s \<le> s_consecutive_ok s + int (length rs)"
    and "rs \<noteq> []"
  shows "s_healthy (fst (sched_run rs s))"
proof -
  have "s_healthy (fold (\<lambda>r s. fst (applyResult r s)) rs s) \<and>
      s_rise s \<le> s_consecutive_ok (fold (\<lambda>r s. fst (applyResult r s)) rs s)"
    using assms
  proof (induction rs arbitrary: s)
    case (Cons r rs)
    have inv: "sched_inv (fst (applyResult r s))" using Cons.prems by (auto intro: wf_intros)
    have step: "s_consecutive_ok (fst (applyResult r s)) = min (s_rise s) (s_consecutive_ok s + 1)"
      "s_rise s \<le> s_consecutive_ok s + 1 \<Longrightarrow> s_healthy (fst (applyResult r s))"
      using Cons.prems by (auto simp: applyResult_def Let_def sched_inv_def)
    show ?case
    proof (cases "rs = []")
      case True
      with Cons.prems step show ?thesis by simp
    next
      case False
      then have "1 \<le> length rs" by (cases rs) auto
      with False Cons.prems step inv Cons.IH [of "fst (applyResult r s)"] show ?thesis
        by (simp add: frame_simps min_def split: if_splits)
    qed
  qed simp
  then show ?thesis by (simp add: fst_sched_run)
qed

lemma all_fail_run:
  assumes "\<forall>r \<in> set rs. \<not> res_success r" and "sched_inv s"
    and "s_fall s \<le> s_consecutive_fail s + int (length rs)" and "rs \<noteq> []"
  shows "\<not> s_healthy (fst (sched_run rs s))"
proof -
  have "\<not> s_healthy (fold (\<lambda>r s. fst (applyResult r s)) rs s) \<and>
      s_fall s \<le> s_consecutive_fail (fold (\<lambda>r s. fst (applyResult r s)) rs s)"
    using assms
  proof (induction rs arbitrary: s)
    case (Cons r rs)
    have inv: "sched_inv (fst (applyResult r s))" using Cons.prems by (auto intro: wf_intros)
    have step: "s_consecutive_fail (fst (applyResult r s)) = min (s_fall s) (s_consecutive_fail s + 1)"
      "s_fall s \<le> s_consecutive_fail s + 1 \<Longrightarrow> \<not> s_healthy (fst (applyResult r s))"
      using Cons.prems by (auto simp: applyResult_def Let_def sched_inv_def)
    show ?case
    proof (cases "rs = []")
      case True
      with Cons.prems step show ?thesis by simp
    next
      case False
      then have "1 \<le> length rs" by (cases rs) auto
      with False Cons.prems step inv Cons.IH [of "fst (applyResult r s)"] show ?thesis
        by (simp add: frame_simps min_def split: if_splits)
    qed
  qed simp
  then show ?thesis by (simp add: fst_sched_run)
qed

section \<open>Properties\<close>

text \<open>Data for the concrete instances: a scheduler that rises after two results and falls after three.\<close>

definition ex_result :: "bool \<Rightarrow> check_result" where
  "ex_result ok = zero_result\<lparr>res_success := ok\<rparr>"

definition ex_scheduler :: scheduler_config where
  "ex_scheduler =
     \<lparr>scfg_vip_name = ''web'', scfg_check_name = ''http'', scfg_checker_type = Some ''http'',
      scfg_interval = 1000000000, scfg_timeout = 500000000, scfg_rise = 2, scfg_fall = 3,
      scfg_on_transition = Some CbPolicy, scfg_on_check_result = Some CbPolicy\<rparr>"

lemma ex_result_success [simp]: "res_success (ex_result ok) = ok"
  by (simp add: ex_result_def)

text \<open>C4: The scheduler refines the abstract hysteresis: after any history of results its saturating
  counters are the lengths of the current runs of successes and failures, cut off at the thresholds,
  and its health flag is the hysteresis of the whole history.\<close>

theorem sched_refines_hysteresis:
  assumes "1 \<le> scfg_rise cfg" and "1 \<le> scfg_fall cfg"
  shows "represents (fst (sched_run rs (NewScheduler cfg))) (successes rs)"
  using represents_run [OF represents_New [OF assms], of rs] assms
  by (simp add: successes_def NewScheduler_def)

theorem sched_refines_hysteresis_witness:
  "represents (fst (sched_run [ex_result True, ex_result True, ex_result False] (NewScheduler ex_scheduler)))
     (successes [ex_result True, ex_result True, ex_result False])"
  by (rule sched_refines_hysteresis) (simp_all add: ex_scheduler_def)

text \<open>C5: What hysteresis means: a check is healthy exactly when at some point of its history the last
  \<open>rise\<close> results were all successes and since then there never were \<open>fall\<close> failures in a row.\<close>

theorem sched_healthy_iff:
  assumes "1 \<le> scfg_rise cfg" and "1 \<le> scfg_fall cfg"
  shows "s_healthy (fst (sched_run rs (NewScheduler cfg))) \<longleftrightarrow>
    (\<exists>since upto. successes rs = since @ upto \<and> nat (scfg_rise cfg) \<le> ok_streak upto \<and>
       (\<forall>k \<le> length since. fail_streak (drop k since) < nat (scfg_fall cfg)))"
proof -
  have "s_healthy (fst (sched_run rs (NewScheduler cfg))) =
      hysteresis (nat (scfg_rise cfg)) (nat (scfg_fall cfg)) (successes rs)"
    using represents_run [OF represents_New [OF assms], of rs] assms
    by (simp add: represents_def successes_def NewScheduler_def frame_simps)
  moreover have "1 \<le> nat (scfg_fall cfg)" "1 \<le> nat (scfg_rise cfg)" using assms by simp_all
  ultimately show ?thesis
    using hysteresis_split [of "nat (scfg_rise cfg)" "nat (scfg_fall cfg)" "successes rs"]
      hysteresis_join [of "nat (scfg_rise cfg)" _ _ "nat (scfg_fall cfg)"] by metis
qed

theorem sched_healthy_iff_witness:
  "s_healthy (fst (sched_run [ex_result True, ex_result True, ex_result False] (NewScheduler ex_scheduler))) \<longleftrightarrow>
    (\<exists>since upto. successes [ex_result True, ex_result True, ex_result False] = since @ upto \<and>
       nat (scfg_rise ex_scheduler) \<le> ok_streak upto \<and>
       (\<forall>k \<le> length since. fail_streak (drop k since) < nat (scfg_fall ex_scheduler)))"
  by (rule sched_healthy_iff) (simp_all add: ex_scheduler_def)

text \<open>The transitions a scheduler reports alternate, starting with the opposite of its health, and
  the last one reported is its health: no transition is lost, repeated or out of order.\<close>

theorem sched_transitions_alternate:
  assumes "s_on_transition s = Some cb"
  shows "alternating (\<not> s_healthy s) (transition_flags (snd (sched_run rs s))) \<and>
    s_healthy (fst (sched_run rs s)) =
      (s_healthy s \<noteq> odd (length (transition_flags (snd (sched_run rs s)))))"
  by (rule sched_run_flags [OF assms])

theorem sched_transitions_alternate_witness:
  "alternating (\<not> s_healthy (NewScheduler ex_scheduler))
     (transition_flags (snd (sched_run [ex_result True, ex_result True] (NewScheduler ex_scheduler)))) \<and>
   s_healthy (fst (sched_run [ex_result True, ex_result True] (NewScheduler ex_scheduler))) =
     (s_healthy (NewScheduler ex_scheduler) \<noteq>
        odd (length (transition_flags (snd (sched_run [ex_result True, ex_result True] (NewScheduler ex_scheduler))))))"
  by (rule sched_transitions_alternate [of _ CbPolicy]) (simp add: NewScheduler_def ex_scheduler_def)

text \<open>C6: From every state a scheduler can be in, \<open>rise\<close> successes in a row make it healthy and \<open>fall\<close>
  failures in a row make it unhealthy; along the way its counters never leave their bounds.\<close>

theorem sched_converges:
  assumes "1 \<le> scfg_rise cfg" and "1 \<le> scfg_fall cfg"
  shows "sched_inv (fst (sched_run past (NewScheduler cfg))) \<and>
    (scfg_rise cfg \<le> int (length rs) \<and> (\<forall>r \<in> set rs. res_success r) \<longrightarrow>
       s_healthy (fst (sched_run (past @ rs) (NewScheduler cfg)))) \<and>
    (scfg_fall cfg \<le> int (length rs) \<and> (\<forall>r \<in> set rs. \<not> res_success r) \<longrightarrow>
       \<not> s_healthy (fst (sched_run (past @ rs) (NewScheduler cfg))))"
proof (intro conjI impI)
  let ?s = "fst (sched_run past (NewScheduler cfg))"
  show inv: "sched_inv ?s" using assms by (intro wf_intros)
  have th: "s_rise ?s = scfg_rise cfg" "s_fall ?s = scfg_fall cfg"
    by (simp_all add: frame_simps NewScheduler_def)
  have split: "fst (sched_run (past @ rs) (NewScheduler cfg)) = fst (sched_run rs ?s)"
    by (simp add: fst_sched_run)
  show "s_healthy (fst (sched_run (past @ rs) (NewScheduler cfg)))"
    if "scfg_rise cfg \<le> int (length rs) \<and> (\<forall>r \<in> set rs. res_success r)"
    using all_ok_run [of rs, OF _ inv] that assms inv th split by (fastforce simp: sched_inv_def)
  show "\<not> s_healthy (fst (sched_run (past @ rs) (NewScheduler cfg)))"
    if "scfg_fall cfg \<le> int (length rs) \<and> (\<forall>r \<in> set rs. \<not> res_success r)"
    using all_fail_run [of rs, OF _ inv] that assms inv th split by (fastforce simp: sched_inv_def)
qed

theorem sched_converges_witness:
  "sched_inv (fst (sched_run [ex_result False] (NewScheduler ex_scheduler))) \<and>
   s_healthy (fst (sched_run ([ex_result False] @ [ex_result True, ex_result True]) (NewScheduler ex_scheduler)))"
  using sched_converges [of ex_scheduler "[ex_result False]" "[ex_result True, ex_result True]"]
  by (simp add: ex_scheduler_def)

end
