(* ===== verification/Metrics.thy ===== *)
theory Metrics
  imports Model
begin

text \<open>
  The metrics (\<open>internal/metrics/metrics.go\<close>). The Prometheus client is a third-party library the
  sources only call, so a component keeps the operations it performs on the metric vectors as a log,
  newest first. \<open>series_value\<close> reads off such a log what a vector holds for given label values,
  following the documented meaning of the operations; it is used in statements only.

  Values are rationals: \<open>float64\<close> conversions of small integers are exact, and \<open>Duration.Seconds\<close> is
  kept without rounding.
\<close>

datatype metric_vec =
    VIPStateVec | VIPTransitionsVec | VIPLastTransitionVec | VIPPriorityVec | VIPLocalAddressVec
  | RouteStateVec
  | CheckTotalVec | CheckDurationVec | CheckLastResultVec | CheckTimeoutExceededVec
  | PingRTTVec | PingPacketLossVec | HTTPResponseStatusVec | HTTPTLSCertExpiryVec
  | DNSRcodeVec | DNSAnswersVec | GRPCStatusCodeVec | ListenSocketsVec
  | SQLQueryRowsVec | SQLQueryDurationVec | SQLQueryPassedVec | KafkaBrokersVec | KafkaLeaderlessVec
  | ConfigReloadTotalVec | ConfigLastReloadSuccess | ConfigLastReloadTimestamp
  | ConfigLoadedTimestamp | ConfigFileChanged | ConfigReloadPendingVIPs

text \<open>The label names of the vectors, as \<open>New\<close> registers them.\<close>

definition label_names :: "metric_vec \<Rightarrow> string list" where
  "label_names v =
     (case v of
        VIPStateVec \<Rightarrow> [''vip'', ''nlri'']
      | VIPTransitionsVec \<Rightarrow> [''vip'', ''nlri'', ''to'']
      | VIPLastTransitionVec \<Rightarrow> [''vip'', ''nlri'']
      | VIPPriorityVec \<Rightarrow> [''vip'', ''nlri'']
      | VIPLocalAddressVec \<Rightarrow> [''vip'', ''nlri'']
      | RouteStateVec \<Rightarrow>
          [''nlri'', ''peer_ip'', ''peer_asn'', ''as_path'', ''communities'', ''local_preference'',
           ''med'', ''family'']
      | CheckTotalVec \<Rightarrow> [''vip'', ''nlri'', ''check'', ''type'', ''result'']
      | CheckDurationVec \<Rightarrow> [''vip'', ''nlri'', ''check'', ''type'']
      | CheckLastResultVec \<Rightarrow> [''vip'', ''nlri'', ''check'']
      | CheckTimeoutExceededVec \<Rightarrow> [''vip'', ''nlri'', ''check'']
      | PingRTTVec \<Rightarrow> [''vip'', ''nlri'', ''check'']
      | PingPacketLossVec \<Rightarrow> [''vip'', ''nlri'', ''check'']
      | HTTPResponseStatusVec \<Rightarrow> [''vip'', ''nlri'', ''check'']
      | HTTPTLSCertExpiryVec \<Rightarrow> [''vip'', ''nlri'', ''check'']
      | DNSRcodeVec \<Rightarrow> [''vip'', ''nlri'', ''check'', ''name'']
      | DNSAnswersVec \<Rightarrow> [''vip'', ''nlri'', ''check'', ''name'']
      | GRPCStatusCodeVec \<Rightarrow> [''vip'', ''nlri'', ''check'']
      | ListenSocketsVec \<Rightarrow> [''vip'', ''nlri'', ''check'']
      | SQLQueryRowsVec \<Rightarrow> [''vip'', ''nlri'', ''check'', ''query'']
      | SQLQueryDurationVec \<Rightarrow> [''vip'', ''nlri'', ''check'', ''query'']
      | SQLQueryPassedVec \<Rightarrow> [''vip'', ''nlri'', ''check'', ''query'']
      | KafkaBrokersVec \<Rightarrow> [''vip'', ''nlri'', ''check'']
      | KafkaLeaderlessVec \<Rightarrow> [''vip'', ''nlri'', ''check'']
      | ConfigReloadTotalVec \<Rightarrow> [''result'']
      | _ \<Rightarrow> [])"

datatype metric_op =
    GaugeSet metric_vec "string list" rat
  | CounterInc metric_vec "string list"
  | HistObserve metric_vec "string list" rat
  | DeletePartialMatch metric_vec "(string \<times> string) list"

text \<open>The log is newest first: \<open>emit ops ml\<close> performs \<open>ops\<close> in order.\<close>

type_synonym metric_log = "metric_op list"

definition emit :: "metric_op list \<Rightarrow> metric_log \<Rightarrow> metric_log" where
  "emit ops ml = rev ops @ ml"

definition seconds :: "go_duration \<Rightarrow> rat" where
  "seconds d = of_int d / 1000000000"

text \<open>\<open>Time.Unix\<close>: whole seconds.\<close>

definition unix :: "go_time \<Rightarrow> rat" where
  "unix t = of_int (t div 1000000000)"

section \<open>Observing the details of a check\<close>

definition ObserveCheckDetails :: "string \<Rightarrow> string \<Rightarrow> string \<Rightarrow> check_details option \<Rightarrow> metric_op list" where
  "ObserveCheckDetails vip nlri check details =
     (case details of
        None \<Rightarrow> []
      | Some (PingDetails d) \<Rightarrow>
          map (\<lambda>rtt. HistObserve PingRTTVec [vip, nlri, check] (seconds rtt)) (pd_rtts d) @
          [GaugeSet PingPacketLossVec [vip, nlri, check] (pd_packet_loss d)]
      | Some (HTTPDetails d) \<Rightarrow>
          [GaugeSet HTTPResponseStatusVec [vip, nlri, check] (of_int (hd_status_code d))] @
          (if hd_tls_cert_not_after d \<noteq> 0
           then [GaugeSet HTTPTLSCertExpiryVec [vip, nlri, check] (unix (hd_tls_cert_not_after d))]
           else [])
      | Some (DNSDetails names) \<Rightarrow>
          concat (map (\<lambda>n. [GaugeSet DNSRcodeVec [vip, nlri, check, dn_name n] (of_int (dn_rcode n)),
                            GaugeSet DNSAnswersVec [vip, nlri, check, dn_name n] (of_int (dn_answers n))])
                    names)
      | Some (GRPCDetails d) \<Rightarrow>
          [GaugeSet GRPCStatusCodeVec [vip, nlri, check] (of_nat (unat (gd_status_code d)))]
      | Some (ListenDetails sockets) \<Rightarrow>
          [GaugeSet ListenSocketsVec [vip, nlri, check] (of_nat (length sockets))]
      | Some (KafkaDetails d) \<Rightarrow>
          [GaugeSet KafkaBrokersVec [vip, nlri, check] (of_int (kd_brokers d)),
           GaugeSet KafkaLeaderlessVec [vip, nlri, check] (of_int (kd_partitions_without_leader d))]
      | Some (SQLDetails queries) \<Rightarrow>
          concat (map (\<lambda>q. [GaugeSet SQLQueryRowsVec [vip, nlri, check, sq_name q] (of_int (sq_rows q)),
                            GaugeSet SQLQueryDurationVec [vip, nlri, check, sq_name q] (seconds (sq_duration q)),
                            GaugeSet SQLQueryPassedVec [vip, nlri, check, sq_name q]
                              (if sq_passed q then 1 else 0)])
                    queries))"

section \<open>Deleting the series of a VIP or of a check\<close>

definition vipVecs :: "metric_vec list" where
  "vipVecs =
     [VIPStateVec, VIPTransitionsVec, VIPLastTransitionVec, VIPPriorityVec, VIPLocalAddressVec,
      CheckTotalVec, CheckDurationVec, CheckLastResultVec, CheckTimeoutExceededVec,
      PingRTTVec, PingPacketLossVec, HTTPResponseStatusVec, HTTPTLSCertExpiryVec,
      DNSRcodeVec, DNSAnswersVec, GRPCStatusCodeVec, ListenSocketsVec,
      SQLQueryRowsVec, SQLQueryDurationVec, SQLQueryPassedVec, KafkaBrokersVec, KafkaLeaderlessVec]"

definition DeleteVIPSeries :: "string \<Rightarrow> metric_op list" where
  "DeleteVIPSeries vip = map (\<lambda>vec. DeletePartialMatch vec [(''vip'', vip)]) vipVecs"

definition DeleteCheckSeries :: "string \<Rightarrow> string \<Rightarrow> metric_op list" where
  "DeleteCheckSeries vip check =
     map (\<lambda>vec. DeletePartialMatch vec [(''vip'', vip), (''check'', check)]) vipVecs"

section \<open>Reading a log\<close>

text \<open>A partial match needs every given label to be a label of the vector with that value.\<close>

definition partial_match :: "metric_vec \<Rightarrow> string list \<Rightarrow> (string \<times> string) list \<Rightarrow> bool" where
  "partial_match vec labels pats =
     list_all (\<lambda>p. List.member (zip (label_names vec) labels) p) pats"

fun series_value :: "metric_log \<Rightarrow> metric_vec \<Rightarrow> string list \<Rightarrow> rat option" where
  "series_value [] vec labels = None"
| "series_value (GaugeSet v l x # ops) vec labels =
     (if v = vec \<and> l = labels then Some x else series_value ops vec labels)"
| "series_value (CounterInc v l # ops) vec labels =
     (if v = vec \<and> l = labels
      then Some (1 + (case series_value ops vec labels of None \<Rightarrow> 0 | Some x \<Rightarrow> x))
      else series_value ops vec labels)"
| "series_value (HistObserve v l x # ops) vec labels =
     (if v = vec \<and> l = labels
      then Some (1 + (case series_value ops vec labels of None \<Rightarrow> 0 | Some y \<Rightarrow> y))
      else series_value ops vec labels)"
| "series_value (DeletePartialMatch v pats # ops) vec labels =
     (if v = vec \<and> partial_match vec labels pats then None else series_value ops vec labels)"

text \<open>Whether an operation can change what a vector holds for the given labels.\<close>

fun touches :: "metric_op \<Rightarrow> metric_vec \<Rightarrow> string list \<Rightarrow> bool" where
  "touches (GaugeSet v l x) vec labels = (v = vec \<and> l = labels)"
| "touches (CounterInc v l) vec labels = (v = vec \<and> l = labels)"
| "touches (HistObserve v l x) vec labels = (v = vec \<and> l = labels)"
| "touches (DeletePartialMatch v pats) vec labels = (v = vec \<and> partial_match vec labels pats)"

section \<open>Lemmas\<close>

lemma emit_Nil [simp]: "emit [] ml = ml"
  by (simp add: emit_def)

lemma emit_Cons [simp]: "emit (x # xs) ml = emit xs (x # ml)"
  by (simp add: emit_def)

lemma emit_append: "emit (xs @ ys) ml = emit ys (emit xs ml)"
  by (simp add: emit_def)

lemma series_value_untouched:
  "\<not> touches x vec labels \<Longrightarrow> series_value (x # ml) vec labels = series_value ml vec labels"
  by (cases x) auto

lemma series_value_emit_untouched [gomap_simps]:
  "\<forall>x \<in> set ops. \<not> touches x vec labels \<Longrightarrow>
   series_value (emit ops ml) vec labels = series_value ml vec labels"
  by (induction ops arbitrary: ml) (simp_all add: series_value_untouched)

lemma series_value_emit_deleted:
  assumes "\<forall>x \<in> set ops. \<exists>v pats. x = DeletePartialMatch v pats"
    and "\<exists>x \<in> set ops. touches x vec labels"
  shows "series_value (emit ops ml) vec labels = None"
  using assms
proof (induction ops arbitrary: ml)
  case (Cons x ops)
  show ?case
  proof (cases "\<exists>y \<in> set ops. touches y vec labels")
    case True
    with Cons show ?thesis by simp
  next
    case False
    with Cons.prems have "touches x vec labels" by auto
    with Cons.prems(1) have "series_value (x # ml) vec labels = None" by auto
    with False show ?thesis by (simp add: series_value_emit_untouched)
  qed
qed simp

lemma ObserveCheckDetails_vecs:
  assumes "x \<in> set (ObserveCheckDetails vip nlri check d)"
  shows "\<not> touches x VIPStateVec l \<and> \<not> touches x VIPPriorityVec l \<and> \<not> touches x CheckTotalVec l \<and>
     \<not> touches x CheckLastResultVec l"
proof (cases d)
  case None
  with assms show ?thesis by (simp add: ObserveCheckDetails_def)
next
  case (Some a)
  with assms show ?thesis by (cases a) (auto simp: ObserveCheckDetails_def split: if_splits)
qed

lemma touches_DeleteVIPSeries:
  assumes "vec \<in> set vipVecs" and "length labels = length (label_names vec)"
  shows "(\<exists>x \<in> set (DeleteVIPSeries vip). touches x vec labels) \<longleftrightarrow> hd labels = vip"
proof -
  obtain ns where "label_names vec = ''vip'' # ns" and "''vip'' \<notin> set ns"
    using assms(1) by (auto simp: vipVecs_def label_names_def)
  moreover obtain l ls where "labels = l # ls"
    using assms(2) calculation by (cases labels) auto
  ultimately show ?thesis
    using assms(1) by (auto simp: DeleteVIPSeries_def partial_match_def dest: set_zip_leftD)
qed

end
