(* ===== verification/Policy_Manager.thy ===== *)
theory Policy_Manager
  imports Checks_Policy Engine Scheduler Metrics
begin

text \<open>
  The policy manager (\<open>internal/policy/manager.go\<close>, \<open>internal/policy/reload.go\<close>): the state of every
  VIP, how check results and health transitions change it, what it tells BGP, and how a config reload
  adds, removes and replaces VIPs.

  Every exported method takes the manager's mutex for its whole body, so each is one step of the
  model. The notifier is an interface in the source: a record of operations over a state \<open>'b\<close> that the
  manager carries along. What the methods read from outside is the record \<open>pol_env\<close>: the clock (one
  reading per call), whether \<open>os.Stat\<close> succeeds on a path, and the compiler of the third-party
  expression language. Logging is not modelled; metrics are the log of \<open>Metrics\<close>.
\<close>

section \<open>State\<close>

record 'b bgp_notifier =
  bn_AnnounceVIP :: "string \<Rightarrow> route_attrs \<Rightarrow> 'b \<Rightarrow> go_error option \<times> 'b"
  bn_WithdrawVIP :: "string \<Rightarrow> 'b \<Rightarrow> go_error option \<times> 'b"
  bn_PessimizeVIP :: "string \<Rightarrow> route_attrs \<Rightarrow> 'b \<Rightarrow> go_error option \<times> 'b"

record pol_env =
  pe_now :: go_time
  pe_stat :: "string \<Rightarrow> bool"
  pe_expr :: expr_compiler

record check_state =
  cks_cfg :: check_config
  cks_health :: HealthStatus
  cks_last_result :: check_result
  cks_last_time :: go_time

record vip_state =
  vs_state :: VIPState
  vs_health :: HealthStatus
  vs_checks :: "(string, check_state) gomap"
  vs_lower_priority_file_on :: bool
  vs_last_transition_at :: go_time
  vs_last_transition_reason :: string
  vs_bgp_pending :: bool

record vip_entry =
  ve_cfg :: vip_config
  ve_eval :: checks_evaluator
  ve_state :: vip_state

record 'b manager =
  m_vips :: "(string, vip_entry) gomap"
  m_order :: "string list"
  m_metrics :: metric_log
  m_notifier :: "'b bgp_notifier option"
  m_bgp :: 'b
  m_on_transition :: bool
  m_transition_calls :: nat

section \<open>Helpers\<close>

definition lowerPriorityFilePresent :: "pol_env \<Rightarrow> string \<Rightarrow> bool" where
  "lowerPriorityFilePresent env path = (path \<noteq> [] \<and> pe_stat env path)"

definition priorityFor :: "policy_config \<Rightarrow> VIPState \<Rightarrow> int" where
  "priorityFor p state =
     (if state = StatePessimized then ra_as_path_prepend (RouteAttrsFor p state)
      else ra_as_path_prepend (BaseRouteAttrs p))"

definition combineHealth :: "checks_evaluator \<Rightarrow> (string, check_state) gomap \<Rightarrow> HealthStatus" where
  "combineHealth eval cs =
     (let anyKnown = list_ex (\<lambda>(name, c). cks_health c \<noteq> HealthUnknown) cs;
          healthy = map (\<lambda>(name, c). (name, cks_health c = HealthHealthy)) cs
      in if \<not> anyKnown then HealthUnknown
         else if Eval eval healthy then HealthHealthy
         else HealthUnhealthy)"

text \<open>
  The check a callback is about: the one it names, or the only check of a VIP that has one.
\<close>

definition resolve_check :: "(string, check_state) gomap \<Rightarrow> string \<Rightarrow> (string \<times> check_state) option" where
  "resolve_check cs name =
     (case map_of cs name of
        Some c \<Rightarrow> Some (name, c)
      | None \<Rightarrow> (case cs of [only] \<Rightarrow> Some only | _ \<Rightarrow> None))"

definition newVIPEntry :: "pol_env \<Rightarrow> vip_config \<Rightarrow> vip_entry" where
  "newVIPEntry env v =
     (let cs = fold (\<lambda>c m. gm_put (check_EffectiveName c)
                             \<lparr>cks_cfg = c, cks_health = HealthUnknown,
                              cks_last_result = zero_result, cks_last_time = 0\<rparr> m)
                 (CheckList v) [];
          names = map check_EffectiveName (CheckList v);
          eval = (case CompileChecksPolicy (pe_expr env) (v_checks_policy v) names of
                    Inr e \<Rightarrow> e
                  | Inl _ \<Rightarrow>
                      \<comment> \<open>the shortcut \<open>all\<close> always compiles: \<open>CompileChecksPolicy_shortcut\<close>\<close>
                      (case CompileChecksPolicy (pe_expr env) ChecksPolicyAll names of
                         Inr e \<Rightarrow> e
                       | Inl _ \<Rightarrow> \<lparr>ev_policy = ChecksPolicyAll, ev_names = names, ev_program = None\<rparr>))
      in \<lparr>ve_cfg = v,
          ve_eval = eval,
          ve_state =
            \<lparr>vs_state = StateWithdrawn,
             vs_health = HealthUnknown,
             vs_checks = cs,
             vs_lower_priority_file_on = lowerPriorityFilePresent env (pc_lower_priority_file (v_policy v)),
             vs_last_transition_at = pe_now env,
             vs_last_transition_reason = ''initial'',
             vs_bgp_pending = False\<rparr>\<rparr>)"

text \<open>The two gauges a fresh VIP starts with.\<close>

definition initial_gauges :: "vip_config \<Rightarrow> metric_op list" where
  "initial_gauges v =
     [GaugeSet VIPStateVec [v_name v, v_prefix v] (of_int (VIPState_int StateWithdrawn)),
      GaugeSet VIPPriorityVec [v_name v, v_prefix v] (of_int (priorityFor (v_policy v) StateWithdrawn))]"

definition NewManager ::
    "pol_env \<Rightarrow> vip_config list \<Rightarrow> metric_log \<Rightarrow> 'b bgp_notifier option \<Rightarrow> 'b \<Rightarrow> 'b manager" where
  "NewManager env vipConfigs ml notifier b =
     fold (\<lambda>v m. m\<lparr>m_order := m_order m @ [v_name v],
                   m_vips := gm_put (v_name v) (newVIPEntry env v) (m_vips m),
                   m_metrics := emit (initial_gauges v) (m_metrics m)\<rparr>)
       vipConfigs
       \<lparr>m_vips = [], m_order = [], m_metrics = ml, m_notifier = notifier, m_bgp = b,
        m_on_transition = False, m_transition_calls = 0\<rparr>"

definition SetTransitionListener :: "bool \<Rightarrow> 'b manager \<Rightarrow> 'b manager" where
  "SetTransitionListener present m = m\<lparr>m_on_transition := present\<rparr>"

section \<open>State transitions\<close>

definition applyBGP :: "'b bgp_notifier \<Rightarrow> vip_config \<Rightarrow> VIPState \<Rightarrow> 'b \<Rightarrow> go_error option \<times> 'b" where
  "applyBGP n cfg state b =
     (case state of
        StateAnnounced \<Rightarrow> bn_AnnounceVIP n (v_prefix cfg) (RouteAttrsFor (v_policy cfg) state) b
      | StateWithdrawn \<Rightarrow> bn_WithdrawVIP n (v_prefix cfg) b
      | StatePessimized \<Rightarrow> bn_PessimizeVIP n (v_prefix cfg) (RouteAttrsFor (v_policy cfg) state) b)"

definition transitionStateLocked ::
    "pol_env \<Rightarrow> vip_config \<Rightarrow> VIPState \<Rightarrow> string \<Rightarrow> 'b manager \<Rightarrow> vip_state \<Rightarrow> 'b manager \<times> vip_state" where
  "transitionStateLocked env cfg newState reason m vs =
     (if newState = vs_state vs then (m, vs)
      else
        let vs1 = vs\<lparr>vs_state := newState, vs_last_transition_at := pe_now env,
                     vs_last_transition_reason := reason\<rparr>;
            m1 = m\<lparr>m_metrics := emit
                     [GaugeSet VIPStateVec [v_name cfg, v_prefix cfg] (of_int (VIPState_int newState)),
                      CounterInc VIPTransitionsVec [v_name cfg, v_prefix cfg, VIPState_String newState],
                      GaugeSet VIPLastTransitionVec [v_name cfg, v_prefix cfg] (unix (pe_now env)),
                      GaugeSet VIPPriorityVec [v_name cfg, v_prefix cfg]
                        (of_int (priorityFor (v_policy cfg) newState))]
                     (m_metrics m)\<rparr>;
            (m2, vs2) =
              (case m_notifier m1 of
                 None \<Rightarrow> (m1, vs1)
               | Some n \<Rightarrow>
                   (let (err, b') = applyBGP n cfg newState (m_bgp m1)
                    in (m1\<lparr>m_bgp := b'\<rparr>, vs1\<lparr>vs_bgp_pending := err \<noteq> None\<rparr>)));
            m3 = (if m_on_transition m2 then m2\<lparr>m_transition_calls := m_transition_calls m2 + 1\<rparr> else m2)
        in (m3, vs2))"

definition put_entry :: "string \<Rightarrow> vip_entry \<Rightarrow> 'b manager \<Rightarrow> 'b manager" where
  "put_entry name e m = m\<lparr>m_vips := gm_put name e (m_vips m)\<rparr>"

definition OnHealthTransition :: "pol_env \<Rightarrow> health_transition \<Rightarrow> 'b manager \<Rightarrow> 'b manager" where
  "OnHealthTransition env t m =
     (case map_of (m_vips m) (ht_vip_name t) of
        None \<Rightarrow> m
      | Some entry \<Rightarrow>
          (let cfg = ve_cfg entry; vs = ve_state entry
           in case resolve_check (vs_checks vs) (ht_check_name t) of
                None \<Rightarrow> m
              | Some (key, cs) \<Rightarrow>
                  (let cs1 = cs\<lparr>cks_health := (if ht_healthy t then HealthHealthy else HealthUnhealthy)\<rparr>;
                       vs1 = vs\<lparr>vs_checks := gm_put key cs1 (vs_checks vs)\<rparr>;
                       combined = combineHealth (ve_eval entry) (vs_checks vs1);
                       reason = (if 1 < length (vs_checks vs1)
                                 then ht_check_name t @ '': '' @ ht_reason t else ht_reason t)
                   in if combined = vs_health vs1 then
                        put_entry (ht_vip_name t) (entry\<lparr>ve_state := vs1\<rparr>) m
                      else
                        let filePresent = lowerPriorityFilePresent env (pc_lower_priority_file (v_policy cfg));
                            vs2 = vs1\<lparr>vs_health := combined, vs_lower_priority_file_on := filePresent\<rparr>;
                            newState = Evaluate (combined = HealthHealthy) filePresent (v_policy cfg);
                            (m1, vs3) = transitionStateLocked env cfg newState reason m vs2
                        in put_entry (ht_vip_name t) (entry\<lparr>ve_state := vs3\<rparr>) m1)))"

text \<open>\<open>CombineChecks\<close>: \<open>None\<close> for an unknown VIP.\<close>

definition CombineChecks :: "string \<Rightarrow> (string, bool) gomap \<Rightarrow> 'b manager \<Rightarrow> bool option" where
  "CombineChecks vipName healthy m =
     (case map_of (m_vips m) vipName of
        None \<Rightarrow> None
      | Some entry \<Rightarrow> Some (Eval (ve_eval entry) healthy))"

text \<open>The metrics of one check result.\<close>

definition check_result_ops :: "string \<Rightarrow> string \<Rightarrow> check_config \<Rightarrow> check_result \<Rightarrow> metric_op list" where
  "check_result_ops vipName prefix c result =
     (let checkName = check_EffectiveName c; checkType = ck_type c in
      (if res_success result
       then [GaugeSet CheckLastResultVec [vipName, prefix, checkName] 1]
       else [GaugeSet CheckLastResultVec [vipName, prefix, checkName] 0]) @
      [CounterInc CheckTotalVec
         [vipName, prefix, checkName, checkType, if res_success result then ''success'' else ''fail''],
       HistObserve CheckDurationVec [vipName, prefix, checkName, checkType] (seconds (res_duration result))] @
      (if res_timed_out result then [CounterInc CheckTimeoutExceededVec [vipName, prefix, checkName]] else []) @
      (if ck_detailed_metrics c then ObserveCheckDetails vipName prefix checkName (res_details result) else []))"

text \<open>
  The two blocks of \<open>OnCheckResult\<close> between recording the result and its metrics: the policy is
  evaluated again once the health is known, and a BGP operation that failed is tried again.
\<close>

definition reevaluate_policy ::
    "pol_env \<Rightarrow> vip_config \<Rightarrow> bool \<Rightarrow> bool \<Rightarrow> 'b manager \<Rightarrow> vip_state \<Rightarrow> 'b manager \<times> vip_state" where
  "reevaluate_policy env cfg filePresent fileChanged m vs =
     (if vs_health vs \<noteq> HealthUnknown then
        (let newState = Evaluate (vs_health vs = HealthHealthy) filePresent (v_policy cfg)
         in if newState \<noteq> vs_state vs then
              (let reason =
                     (if fileChanged \<and> pc_lower_priority_file (v_policy cfg) \<noteq> [] then
                        (if filePresent then ''lower_priority_file created''
                         else ''lower_priority_file removed'')
                      else ''policy reevaluation'')
               in transitionStateLocked env cfg newState reason m vs)
            else (m, vs))
      else (m, vs))"

definition retry_pending :: "vip_config \<Rightarrow> 'b manager \<Rightarrow> vip_state \<Rightarrow> 'b manager \<times> vip_state" where
  "retry_pending cfg m vs =
     (case m_notifier m of
        None \<Rightarrow> (m, vs)
      | Some n \<Rightarrow>
          (if vs_bgp_pending vs then
             (let (err, b') = applyBGP n cfg (vs_state vs) (m_bgp m)
              in (m\<lparr>m_bgp := b'\<rparr>, if err = None then vs\<lparr>vs_bgp_pending := False\<rparr> else vs))
           else (m, vs)))"

definition OnCheckResult :: "pol_env \<Rightarrow> string \<Rightarrow> string \<Rightarrow> check_result \<Rightarrow> 'b manager \<Rightarrow> 'b manager" where
  "OnCheckResult env vipName checkName result m =
     (case map_of (m_vips m) vipName of
        None \<Rightarrow> m
      | Some entry \<Rightarrow>
          (let cfg = ve_cfg entry; vs = ve_state entry
           in case resolve_check (vs_checks vs) checkName of
                None \<Rightarrow> m
              | Some (key, cs) \<Rightarrow>
                  (let cs1 = cs\<lparr>cks_last_result := result, cks_last_time := pe_now env\<rparr>;
                       filePresent = lowerPriorityFilePresent env (pc_lower_priority_file (v_policy cfg));
                       fileChanged = (filePresent \<noteq> vs_lower_priority_file_on vs);
                       vs1 = vs\<lparr>vs_checks := gm_put key cs1 (vs_checks vs),
                                vs_lower_priority_file_on := filePresent\<rparr>;
                       (m1, vs2) = reevaluate_policy env cfg filePresent fileChanged m vs1;
                       (m2, vs3) = retry_pending cfg m1 vs2;
                       m3 = put_entry vipName (entry\<lparr>ve_state := vs3\<rparr>) m2
                   in m3\<lparr>m_metrics :=
                           emit (check_result_ops vipName (v_prefix cfg) (cks_cfg cs) result) (m_metrics m3)\<rparr>)))"

section \<open>Status\<close>

record check_summary =
  sum_checks :: "check_status list"
  sum_check_type :: string
  sum_last_success :: bool
  sum_last_detail :: string
  sum_last_time :: go_time

text \<open>The loop over the checks: statuses, types, last successes, details, latest time.\<close>

fun summarize_loop ::
    "bool \<Rightarrow> (string, check_state) gomap \<Rightarrow> check_config list \<Rightarrow>
     check_status list \<times> string list \<times> (string, bool) gomap \<times> string list \<times> go_time \<Rightarrow>
     check_status list \<times> string list \<times> (string, bool) gomap \<times> string list \<times> go_time" where
  "summarize_loop single cs [] acc = acc"
| "summarize_loop single cs (c # rest) (sts, types, lastOK, details, lastTime) =
     (let name = check_EffectiveName c in
      case map_of cs name of
        None \<Rightarrow> summarize_loop single cs rest (sts, types, lastOK, details, lastTime)
      | Some st \<Rightarrow>
          summarize_loop single cs rest
            (sts @ [\<lparr>cst_name = name, cst_type = ck_type c, cst_health = cks_health st,
                     cst_health_name = HealthStatus_String (cks_health st),
                     cst_consecutive_ok = 0, cst_consecutive_fail = 0,
                     cst_last_success = res_success (cks_last_result st),
                     cst_last_detail = res_detail (cks_last_result st),
                     cst_last_time = cks_last_time st\<rparr>],
             types @ [ck_type c],
             gm_put name (res_success (cks_last_result st)) lastOK,
             (if single then details @ [res_detail (cks_last_result st)]
              else if res_detail (cks_last_result st) \<noteq> []
                   then details @ [name @ '': '' @ res_detail (cks_last_result st)]
                   else details),
             (if lastTime < cks_last_time st then cks_last_time st else lastTime)))"

definition summarizeChecks ::
    "vip_config \<Rightarrow> checks_evaluator \<Rightarrow> (string, check_state) gomap \<Rightarrow> check_summary" where
  "summarizeChecks cfg eval cs =
     (let list = CheckList cfg;
          (sts, types, lastOK, details, lastTime) =
            summarize_loop (length list = 1) cs list ([], [], [], [], 0)
      in \<lparr>sum_checks = sts,
          sum_check_type =
            (if length list = 1 then ck_type (hd list)
             else if ev_policy eval = ChecksPolicyAll \<or> ev_policy eval = ChecksPolicyAny
                  then ev_policy eval @ ''('' @ str_join types '', '' @ '')''
                  else ev_policy eval),
          sum_last_success = Eval eval lastOK,
          sum_last_detail = str_join details ''; '',
          sum_last_time = lastTime\<rparr>)"

definition vip_status_of :: "string \<Rightarrow> vip_entry \<Rightarrow> vip_status" where
  "vip_status_of name entry =
     (let cfg = ve_cfg entry; vs = ve_state entry;
          attrs = RouteAttrsFor (v_policy cfg) (vs_state vs);
          summary = summarizeChecks cfg (ve_eval entry) (vs_checks vs)
      in \<lparr>vst_name = name,
          vst_prefix = v_prefix cfg,
          vst_state = vs_state vs,
          vst_state_name = VIPState_String (vs_state vs),
          vst_health = vs_health vs,
          vst_health_name = HealthStatus_String (vs_health vs),
          vst_consecutive_ok = 0,
          vst_consecutive_fail = 0,
          vst_last_check_success = sum_last_success summary,
          vst_last_check_detail = sum_last_detail summary,
          vst_last_check_time = sum_last_time summary,
          vst_last_transition_time = vs_last_transition_at vs,
          vst_last_transition_reason = vs_last_transition_reason vs,
          vst_check_type = sum_check_type summary,
          vst_checks_policy = EffectiveChecksPolicy cfg,
          vst_checks = sum_checks summary,
          vst_bgp_pending = vs_bgp_pending vs,
          vst_as_path_prepend_base = ra_as_path_prepend (BaseRouteAttrs (v_policy cfg)),
          vst_as_path_prepend = ra_as_path_prepend attrs,
          vst_communities = ra_communities attrs\<rparr>)"

text \<open>A name in \<open>order\<close> without an entry would dereference nil.\<close>

fun statuses_loop :: "(string, vip_entry) gomap \<Rightarrow> string list \<Rightarrow> vip_status list \<Rightarrow> vip_status list outcome" where
  "statuses_loop vips [] out = Ret out"
| "statuses_loop vips (name # names) out =
     (case map_of vips name of
        None \<Rightarrow> Panic ''nil pointer dereference''
      | Some entry \<Rightarrow> statuses_loop vips names (out @ [vip_status_of name entry]))"

definition GetVIPStatuses :: "'b manager \<Rightarrow> vip_status list outcome" where
  "GetVIPStatuses m = statuses_loop (m_vips m) (m_order m) []"

section \<open>Reload\<close>

record check_seed =
  seed_health :: HealthStatus
  seed_last_result :: check_result
  seed_last_time :: go_time

definition AddVIP :: "pol_env \<Rightarrow> vip_config \<Rightarrow> 'b manager \<Rightarrow> 'b manager" where
  "AddVIP env cfg m =
     (if map_of (m_vips m) (v_name cfg) \<noteq> None then m
      else m\<lparr>m_order := m_order m @ [v_name cfg],
             m_vips := gm_put (v_name cfg) (newVIPEntry env cfg) (m_vips m),
             m_metrics := emit (initial_gauges cfg) (m_metrics m)\<rparr>)"

text \<open>\<open>slices.Index\<close> and \<open>slices.Delete\<close> of one element: the first occurrence goes.\<close>

definition forget_vip :: "string \<Rightarrow> 'b manager \<Rightarrow> 'b manager" where
  "forget_vip name m =
     m\<lparr>m_vips := gm_del name (m_vips m),
       m_order := remove1 name (m_order m),
       m_metrics := emit (DeleteVIPSeries name) (m_metrics m)\<rparr>"

definition RemoveVIP :: "string \<Rightarrow> 'b manager \<Rightarrow> go_error option \<times> 'b manager" where
  "RemoveVIP name m =
     (case map_of (m_vips m) name of
        None \<Rightarrow> (None, m)
      | Some entry \<Rightarrow>
          (case m_notifier m of
             Some n \<Rightarrow>
               (if vs_state (ve_state entry) \<noteq> StateWithdrawn then
                  (let (err, b') = bn_WithdrawVIP n (v_prefix (ve_cfg entry)) (m_bgp m);
                       m1 = m\<lparr>m_bgp := b'\<rparr>
                   in case err of
                        Some e \<Rightarrow>
                          (Some (Errorf ''withdrawing %s (%s): %w''
                             [FStr name, FStr (v_prefix (ve_cfg entry))] (Some e)), m1)
                      | None \<Rightarrow> (None, forget_vip name m1))
                else (None, forget_vip name m))
           | None \<Rightarrow> (None, forget_vip name m)))"

text \<open>
  The loop that carries checks over to the new definition. A kept check is the same object in the old
  and in the new map, so its configuration changes in the running map even when a later check makes
  the commit fail.
\<close>

fun commit_checks ::
    "(string, check_seed) gomap \<Rightarrow> check_config list \<Rightarrow>
     (string, check_state) gomap \<times> (string, check_state) gomap \<Rightarrow>
     string option \<times> (string, check_state) gomap \<times> (string, check_state) gomap" where
  "commit_checks seeds [] (running, nxt) = (None, running, nxt)"
| "commit_checks seeds (c # cs) (running, nxt) =
     (let name = check_EffectiveName c in
      case map_of seeds name of
        Some seed \<Rightarrow>
          commit_checks seeds cs
            (running,
             gm_put name \<lparr>cks_cfg = c, cks_health = seed_health seed,
                          cks_last_result = seed_last_result seed, cks_last_time = seed_last_time seed\<rparr> nxt)
      | None \<Rightarrow>
          (case map_of running name of
             Some old \<Rightarrow>
               commit_checks seeds cs
                 (gm_put name (old\<lparr>cks_cfg := c\<rparr>) running, gm_put name (old\<lparr>cks_cfg := c\<rparr>) nxt)
           | None \<Rightarrow> (Some name, running, nxt)))"

text \<open>
  The switch itself, once the checks are carried over and the policy is compiled: the health and the
  state are evaluated once, and a route that keeps its state is originated again when its attributes
  changed or an earlier operation is pending.
\<close>

definition commit_switch ::
    "pol_env \<Rightarrow> vip_config \<Rightarrow> checks_evaluator \<Rightarrow> (string, check_state) gomap \<Rightarrow> vip_config \<Rightarrow>
     'b manager \<Rightarrow> vip_state \<Rightarrow> 'b manager \<times> vip_state" where
  "commit_switch env cfg eval nxt oldCfg m vs =
     (let oldAttrs = RouteAttrsFor (v_policy oldCfg) (vs_state vs);
          m1 = m\<lparr>m_metrics :=
                   emit [GaugeSet VIPPriorityVec [v_name cfg, v_prefix cfg]
                           (of_int (priorityFor (v_policy cfg) (vs_state vs)))]
                     (m_metrics m)\<rparr>;
          vs1 = vs\<lparr>vs_checks := nxt, vs_health := combineHealth eval nxt\<rparr>
      in if vs_health vs1 = HealthUnknown then (m1, vs1)
         else
           let filePresent = lowerPriorityFilePresent env (pc_lower_priority_file (v_policy cfg));
               vs2 = vs1\<lparr>vs_lower_priority_file_on := filePresent\<rparr>;
               newState = Evaluate (vs_health vs2 = HealthHealthy) filePresent (v_policy cfg)
           in if newState \<noteq> vs_state vs2 then
                transitionStateLocked env cfg newState ''config reload'' m1 vs2
              else
                (case m_notifier m1 of
                   None \<Rightarrow> (m1, vs2)
                 | Some n \<Rightarrow>
                     (if vs_state vs2 \<noteq> StateWithdrawn \<and>
                         (vs_bgp_pending vs2 \<or> oldAttrs \<noteq> RouteAttrsFor (v_policy cfg) (vs_state vs2)) then
                        (let (err, b') = applyBGP n cfg (vs_state vs2) (m_bgp m1)
                         in (m1\<lparr>m_bgp := b'\<rparr>, vs2\<lparr>vs_bgp_pending := err \<noteq> None\<rparr>))
                      else (m1, vs2))))"

definition CommitVIP ::
    "pol_env \<Rightarrow> vip_config \<Rightarrow> (string, check_seed) gomap \<Rightarrow> 'b manager \<Rightarrow> go_error option \<times> 'b manager" where
  "CommitVIP env cfg seeds m =
     (case map_of (m_vips m) (v_name cfg) of
        None \<Rightarrow> (Some (Errorf ''CommitVIP: unknown VIP %q'' [FStr (v_name cfg)] None), m)
      | Some entry \<Rightarrow>
          if v_prefix (ve_cfg entry) \<noteq> v_prefix cfg then
            (Some (Errorf ''CommitVIP: prefix of %q changed from %s to %s''
               [FStr (v_name cfg), FStr (v_prefix (ve_cfg entry)), FStr (v_prefix cfg)] None), m)
          else
            (let vs = ve_state entry;
                 (missing, running, nxt) = commit_checks seeds (CheckList cfg) (vs_checks vs, []);
                 vs1 = vs\<lparr>vs_checks := running\<rparr>;
                 m1 = put_entry (v_name cfg) (entry\<lparr>ve_state := vs1\<rparr>) m
             in case missing of
                  Some name \<Rightarrow>
                    (Some (Errorf ''CommitVIP: check %q of %q has neither a running state nor a seed''
                       [FStr name, FStr (v_name cfg)] None), m1)
                | None \<Rightarrow>
                    (let dropped = filter (\<lambda>name. map_of nxt name = None) (gm_keys running);
                         m2 = m1\<lparr>m_metrics :=
                                   emit (concat (map (DeleteCheckSeries (v_name cfg)) dropped)) (m_metrics m1)\<rparr>
                     in case CompileChecksPolicy (pe_expr env) (EffectiveChecksPolicy cfg)
                               (map check_EffectiveName (CheckList cfg)) of
                          Inl err \<Rightarrow>
                            (Some (Errorf ''CommitVIP: checks_policy of %q: %w'' [FStr (v_name cfg)] (Some err)), m2)
                        | Inr eval \<Rightarrow>
                            (let (m3, vs2) = commit_switch env cfg eval nxt (ve_cfg entry) m2 vs1
                             in (None,
                                 put_entry (v_name cfg)
                                   \<lparr>ve_cfg = cfg, ve_eval = eval, ve_state = vs2\<rparr> m3)))))"

definition VIPNames :: "'b manager \<Rightarrow> string list" where
  "VIPNames m = m_order m"

end
