(* ===== verification/Go_Net.thy ===== *)
theory Go_Net
  imports Prelude
begin

text \<open>
  The parts of the Go standard library packages \<open>net/netip\<close> and \<open>net\<close> that the sources use: parsing
  addresses and prefixes, and masking. A parse error keeps the function and its input; the detail
  message is not modelled.

  The two prefix parsers differ: \<open>netip.ParsePrefix\<close> cuts at the last slash and refuses leading zeros
  in the length, \<open>net.ParseCIDR\<close> cuts at the first slash and accepts them.
\<close>

section \<open>Addresses\<close>

datatype ip_addr = IP4 uint32 | IP6 "128 word" string

record ip_prefix =
  px_addr :: ip_addr
  px_bits :: nat

definition Is4 :: "ip_addr \<Rightarrow> bool" where
  "Is4 a = (case a of IP4 _ \<Rightarrow> True | IP6 _ _ \<Rightarrow> False)"

definition Is6 :: "ip_addr \<Rightarrow> bool" where
  "Is6 a = (case a of IP4 _ \<Rightarrow> False | IP6 _ _ \<Rightarrow> True)"

definition addr_zone :: "ip_addr \<Rightarrow> string" where
  "addr_zone a = (case a of IP4 _ \<Rightarrow> [] | IP6 _ z \<Rightarrow> z)"

definition BitLen :: "ip_addr \<Rightarrow> nat" where
  "BitLen a = (case a of IP4 _ \<Rightarrow> 32 | IP6 _ _ \<Rightarrow> 128)"

section \<open>Parsing\<close>

fun split_all :: "char \<Rightarrow> string \<Rightarrow> string list" where
  "split_all sep [] = [[]]"
| "split_all sep (c # cs) =
     (if c = sep then [] # split_all sep cs
      else case split_all sep cs of [] \<Rightarrow> [[c]] | f # fs \<Rightarrow> (c # f) # fs)"

text \<open>One octet: digits, no leading zero unless it is \<open>0\<close>, at most 255.\<close>

definition parse_octet :: "string \<Rightarrow> nat option" where
  "parse_octet f =
     (case f of
        [] \<Rightarrow> None
      | c # cs \<Rightarrow>
          (if c = CHR ''0'' \<and> cs \<noteq> [] then None
           else case digits_from 0 f of None \<Rightarrow> None | Some n \<Rightarrow> if n \<le> 255 then Some n else None))"

definition parse_v4_fields :: "string \<Rightarrow> nat list option" where
  "parse_v4_fields s =
     (let fs = map parse_octet (split_all CHR ''.'' s)
      in if length fs = 4 \<and> list_all (\<lambda>f. f \<noteq> None) fs then Some (map the fs) else None)"

definition of_octets :: "nat list \<Rightarrow> nat" where
  "of_octets bs = fold (\<lambda>b acc. acc * 256 + b) bs 0"

definition hex_val :: "char \<Rightarrow> nat option" where
  "hex_val c =
     (let n = of_char c :: nat
      in if 48 \<le> n \<and> n \<le> 57 then Some (n - 48)
         else if 97 \<le> n \<and> n \<le> 102 then Some (n - 87)
         else if 65 \<le> n \<and> n \<le> 70 then Some (n - 55)
         else None)"

text \<open>A run of hex digits with the rest of the string; more than four are an error.\<close>

fun hex_run :: "nat \<Rightarrow> nat \<Rightarrow> string \<Rightarrow> (nat \<times> nat \<times> string) option" where
  "hex_run acc k [] = Some (acc, k, [])"
| "hex_run acc k (c # cs) =
     (case hex_val c of
        None \<Rightarrow> Some (acc, k, c # cs)
      | Some d \<Rightarrow> if 3 < k then None else hex_run (acc * 16 + d) (k + 1) cs)"

text \<open>
  The loop over the groups. \<open>gs\<close> are the 16-bit groups so far and \<open>ell\<close> the position of the ellipsis;
  the first argument bounds the groups still allowed, 8 in all. The result is the groups, the ellipsis
  and the unread rest.
\<close>

fun v6_groups ::
    "nat \<Rightarrow> nat list \<Rightarrow> nat option \<Rightarrow> string \<Rightarrow> (nat list \<times> nat option \<times> string) option" where
  "v6_groups 0 gs ell s = Some (gs, ell, s)"
| "v6_groups (Suc n) gs ell s =
     (case hex_run 0 0 s of
        None \<Rightarrow> None
      | Some (acc, k, rest) \<Rightarrow>
          if k = 0 then None
          else if rest \<noteq> [] \<and> hd rest = CHR ''.'' then
            (if ell = None \<and> length gs \<noteq> 6 then None
             else if 6 < length gs then None
             else case parse_v4_fields s of
                    Some [a, b, c, d] \<Rightarrow> Some (gs @ [a * 256 + b, c * 256 + d], ell, [])
                  | _ \<Rightarrow> None)
          else
            let gs' = gs @ [acc] in
            (case rest of
               [] \<Rightarrow> Some (gs', ell, [])
             | c # rest1 \<Rightarrow>
                 if c \<noteq> CHR '':'' then None
                 else if rest1 = [] then None
                 else if hd rest1 = CHR '':'' then
                   (if ell \<noteq> None then None
                    else if tl rest1 = [] then Some (gs', Some (length gs'), [])
                    else v6_groups n gs' (Some (length gs')) (tl rest1))
                 else v6_groups n gs' ell rest1))"

definition of_groups :: "nat list \<Rightarrow> nat" where
  "of_groups gs = fold (\<lambda>g acc. acc * 65536 + g) gs 0"

definition parse_v6_body :: "string \<Rightarrow> nat list option" where
  "parse_v6_body s =
     (let leading = has_prefix s ''::'';
          s1 = (if leading then drop 2 s else s)
      in if leading \<and> s1 = [] then Some (replicate 8 0)
         else case v6_groups 8 [] (if leading then Some 0 else None) s1 of
                None \<Rightarrow> None
              | Some (gs, ell, rest) \<Rightarrow>
                  if rest \<noteq> [] then None
                  else if length gs < 8 then
                    (case ell of
                       None \<Rightarrow> None
                     | Some e \<Rightarrow> Some (take e gs @ replicate (8 - length gs) 0 @ drop e gs))
                  else if ell \<noteq> None then None
                  else Some gs)"

text \<open>The zone is split off at the first percent sign and must not be empty.\<close>

definition parseIPv6 :: "string \<Rightarrow> ip_addr option" where
  "parseIPv6 s =
     (case split2 CHR ''%'' s of
        [body, zone] \<Rightarrow>
          if zone = [] then None
          else map_option (\<lambda>gs. IP6 (of_nat (of_groups gs)) zone) (parse_v6_body body)
      | _ \<Rightarrow> map_option (\<lambda>gs. IP6 (of_nat (of_groups gs)) []) (parse_v6_body s))"

definition parseIPv4 :: "string \<Rightarrow> ip_addr option" where
  "parseIPv4 s = map_option (\<lambda>bs. IP4 (of_nat (of_octets bs))) (parse_v4_fields s)"

text \<open>The first of dot, colon and percent sign decides which.\<close>

fun addr_kind :: "string \<Rightarrow> char option" where
  "addr_kind [] = None"
| "addr_kind (c # cs) = (if List.member [CHR ''.'', CHR '':'', CHR ''%''] c then Some c else addr_kind cs)"

definition ParseAddr :: "string \<Rightarrow> go_error + ip_addr" where
  "ParseAddr s =
     (let err = Errorf ''ParseAddr'' [FStr s] None in
      case addr_kind s of
        Some c \<Rightarrow>
          (if c = CHR ''.'' then (case parseIPv4 s of None \<Rightarrow> Inl err | Some a \<Rightarrow> Inr a)
           else if c = CHR '':'' then (case parseIPv6 s of None \<Rightarrow> Inl err | Some a \<Rightarrow> Inr a)
           else Inl err)
      | None \<Rightarrow> Inl err)"

section \<open>Prefixes\<close>

text \<open>The last slash: everything before it and everything after it.\<close>

definition split_last :: "char \<Rightarrow> string \<Rightarrow> (string \<times> string) option" where
  "split_last sep s =
     (case split2 sep (rev s) of [a, b] \<Rightarrow> Some (rev b, rev a) | _ \<Rightarrow> None)"

definition ParsePrefix :: "string \<Rightarrow> go_error + ip_prefix" where
  "ParsePrefix s =
     (let err = Errorf ''netip.ParsePrefix'' [FStr s] None in
      case split_last CHR ''/'' s of
        None \<Rightarrow> Inl err
      | Some (a, bits) \<Rightarrow>
          (case ParseAddr a of
             Inl _ \<Rightarrow> Inl err
           | Inr ip \<Rightarrow>
               if addr_zone ip \<noteq> [] then Inl err
               else if bits = [] \<or> 1 < length bits \<and> hd bits = CHR ''0'' then Inl err
               else (case digits_from 0 bits of
                       None \<Rightarrow> Inl err
                     | Some n \<Rightarrow> if BitLen ip < n then Inl err else Inr \<lparr>px_addr = ip, px_bits = n\<rparr>)))"

definition mask_addr :: "nat \<Rightarrow> ip_addr \<Rightarrow> ip_addr" where
  "mask_addr bits a =
     (case a of
        IP4 w \<Rightarrow> IP4 (push_bit (32 - bits) (drop_bit (32 - bits) w))
      | IP6 w z \<Rightarrow> IP6 (push_bit (128 - bits) (drop_bit (128 - bits) w)) z)"

definition Masked :: "ip_prefix \<Rightarrow> ip_prefix" where
  "Masked p = p\<lparr>px_addr := mask_addr (px_bits p) (px_addr p)\<rparr>"

text \<open>\<open>net.ParseCIDR\<close>: the address itself and the length of the mask. Its \<open>dtoi\<close> reads any decimal.\<close>

definition ParseCIDR :: "string \<Rightarrow> (ip_addr \<times> nat) option" where
  "ParseCIDR s =
     (case split2 CHR ''/'' s of
        [a, len] \<Rightarrow>
          (case ParseAddr a of
             Inl _ \<Rightarrow> None
           | Inr ip \<Rightarrow>
               if addr_zone ip \<noteq> [] \<or> len = [] then None
               else (case digits_from 0 len of
                       None \<Rightarrow> None
                     | Some n \<Rightarrow> if n \<le> BitLen ip then Some (ip, n) else None))
      | _ \<Rightarrow> None)"

section \<open>Printing\<close>

text \<open>\<open>Addr.String\<close>: dotted decimal; hexadecimal groups with the first longest run of zero groups (two or
  more) written as \<open>::\<close>; the dotted form after \<open>::ffff:\<close> for a mapped IPv4 address.\<close>

definition v4_text :: "uint32 \<Rightarrow> string" where
  "v4_text w =
     (let n = unat w
      in str_join (map show_nat [n div 16777216, n div 65536 mod 256, n div 256 mod 256, n mod 256]) ''.'')"

fun show_hex :: "nat \<Rightarrow> string" where
  "show_hex n = (if n < 16 then [hex_digit n] else show_hex (n div 16) @ [hex_digit (n mod 16)])"

declare show_hex.simps [simp del]

definition v6_group_list :: "128 word \<Rightarrow> nat list" where
  "v6_group_list w = map (\<lambda>i. unat w div 65536 ^ (7 - i) mod 65536) [0..<8]"

definition zero_run :: "nat list \<Rightarrow> nat \<Rightarrow> nat" where
  "zero_run gs i = length (takeWhile (\<lambda>g. g = 0) (drop i gs))"

definition longest_zero_run :: "nat list \<Rightarrow> (nat \<times> nat) option" where
  "longest_zero_run gs =
     fold (\<lambda>i best.
             let l = zero_run gs i; len = (case best of None \<Rightarrow> 0 | Some (a, b) \<Rightarrow> b - a)
             in if 2 \<le> l \<and> len < l then Some (i, i + l) else best)
       [0..<8] None"

definition v6_text :: "128 word \<Rightarrow> string" where
  "v6_text w =
     (let gs = v6_group_list w; hex = (\<lambda>xs. str_join (map show_hex xs) '':'')
      in case longest_zero_run gs of
           None \<Rightarrow> hex gs
         | Some (a, b) \<Rightarrow> hex (take a gs) @ ''::'' @ hex (drop b gs))"

definition Is4In6 :: "128 word \<Rightarrow> bool" where
  "Is4In6 w = (unat w div 4294967296 = 65535)"

definition addr_String :: "ip_addr \<Rightarrow> string" where
  "addr_String a =
     (case a of
        IP4 w \<Rightarrow> v4_text w
      | IP6 w z \<Rightarrow>
          (if Is4In6 w then ''::ffff:'' @ v4_text (ucast w) else v6_text w) @
          (if z = [] then [] else ''%'' @ z))"

text \<open>\<open>Addr.Unmap\<close>: a mapped IPv4 address becomes the IPv4 address, and loses its zone.\<close>

definition Unmap :: "ip_addr \<Rightarrow> ip_addr" where
  "Unmap a = (case a of IP4 w \<Rightarrow> IP4 w | IP6 w z \<Rightarrow> if Is4In6 w then IP4 (ucast w) else IP6 w z)"

text \<open>\<open>netip.AddrFromSlice\<close> on the bytes of a \<open>net.IP\<close>.\<close>

definition AddrFromSlice :: "8 word list \<Rightarrow> ip_addr option" where
  "AddrFromSlice bs =
     (let n = of_octets (map unat bs)
      in if length bs = 4 then Some (IP4 (of_nat n))
         else if length bs = 16 then Some (IP6 (of_nat n) [])
         else None)"

section \<open>Lemmas\<close>

text \<open>Evaluation on concrete text: the definitions to unfold, with the loops stepped by numerals.\<close>

lemmas v6_groups_numeral =
  v6_groups.simps(2) [of "pred_numeral k" for k, folded numeral_eq_Suc]
  v6_groups.simps(2) [of 0, folded One_nat_def]

lemma replicate_num: "replicate (numeral k) x = x # replicate (pred_numeral k) x"
  by (simp add: numeral_eq_Suc)

lemmas net_eval = ParsePrefix_def split_last_def split2_def ParseAddr_def parseIPv4_def parse_v4_fields_def
  parse_octet_def digit_val_def of_octets_def addr_zone_def BitLen_def parseIPv6_def parse_v6_body_def
  hex_val_def of_groups_def ParseCIDR_def Masked_def mask_addr_def Let_def v6_groups_numeral replicate_num

lemma Is6_not_Is4: "Is6 a \<longleftrightarrow> \<not> Is4 a"
  by (cases a) (simp_all add: Is4_def Is6_def)

lemma ParsePrefix_bits: "ParsePrefix s = Inr p \<Longrightarrow> px_bits p \<le> BitLen (px_addr p)"
  by (auto simp: ParsePrefix_def Let_def split: option.splits sum.splits prod.splits if_splits)

lemma mask_addr_idem [simp]: "mask_addr n (mask_addr n a) = mask_addr n a"
  by (cases a) (auto simp: mask_addr_def bit_simps intro!: bit_eqI)

lemma Unmap_idem [simp]: "Unmap (Unmap a) = Unmap a"
  by (cases a) (simp_all add: Unmap_def)

end
