(* ===== verification/Bgp_Manager.thy ===== *)
theory Bgp_Manager
  imports Policy_Manager Go_Net
begin

text \<open>
  The BGP manager (\<open>internal/bgp/manager.go\<close>, \<open>internal/bgp/route_state_metrics.go\<close>): peers and
  global configuration, the path a VIP is announced with, originating and withdrawing it, and the
  metric that mirrors the routes advertised to the peers.

  GoBGP is a third-party package. Its server and the constructors of its packet library are the
  fields of the record \<open>gobgp\<close>, a parameter of every definition that calls them; \<open>'srv\<close> is the state
  of the server. The manager's own mutex guards single map accesses; the policy manager serialises the
  route operations, so each is one step. Tracing and logging are not modelled.
\<close>

section \<open>The GoBGP interface\<close>

datatype bgp_family = RF_IPv4_UC | RF_IPv6_UC | RF_Other string

type_synonym as_path = "(nat \<times> uint32 list) list"

datatype path_attr =
    AttrOrigin nat
  | AttrNextHop ip_addr
  | AttrAsPath as_path
  | AttrCommunities "uint32 list"
  | AttrLocalPref uint32
  | AttrMultiExitDisc uint32
  | AttrOther

record bgp_path =
  bp_family :: bgp_family
  bp_nlri :: "ip_prefix option"
  bp_attrs :: "path_attr list"

type_synonym uuid = nat

record add_path_response =
  apr_uuid :: uuid
  apr_error :: "go_error option"

datatype delete_path_request = DeleteUUIDs "uuid list" | DeletePaths "bgp_path list"

record api_global =
  gl_asn :: uint32
  gl_router_id :: string
  gl_listen_port :: "32 word"
  gl_listen_addresses :: "string list"

record peer_conf =
  pcf_neighbor_address :: string
  pcf_peer_asn :: uint32
  pcf_description :: string
  pcf_auth_password :: string

record peer_transport =
  ptr_local_address :: string
  ptr_remote_port :: uint32
  ptr_passive_mode :: bool

record peer_timers =
  ptm_hold_time :: uint64
  ptm_keepalive_interval :: uint64

record api_peer =
  ap_conf :: "peer_conf option"
  ap_state :: "string option"
  ap_transport :: peer_transport
  ap_afi_safis :: "bgp_family list"
  ap_graceful_restart :: bool
  ap_timers :: "peer_timers option"
  ap_ebgp_multihop :: "uint32 option"
  ap_bfd :: "bfd_config option"

record list_path_request =
  lpr_name :: string
  lpr_family :: bgp_family
  lpr_prefix :: string

record 'srv gobgp =
  g_NewIPAddrPrefix :: "ip_prefix \<Rightarrow> go_error option"
  g_NewPathAttributeNextHop :: "ip_addr \<Rightarrow> go_error option"
  g_AsPathString :: "as_path \<Rightarrow> string"
  g_nlri_String :: "ip_prefix \<Rightarrow> string"
  g_StartBgp :: "api_global \<Rightarrow> 'srv \<Rightarrow> go_error option \<times> 'srv"
  g_AddPeer :: "api_peer \<Rightarrow> 'srv \<Rightarrow> go_error option \<times> 'srv"
  g_AddPath :: "bgp_path list \<Rightarrow> 'srv \<Rightarrow> (go_error + add_path_response list) \<times> 'srv"
  g_DeletePath :: "delete_path_request \<Rightarrow> 'srv \<Rightarrow> go_error option \<times> 'srv"
  g_ListPeer :: "'srv \<Rightarrow> go_error option \<times> api_peer list"
  g_ListPath :: "list_path_request \<Rightarrow> 'srv \<Rightarrow> go_error option \<times> (ip_prefix \<times> bgp_path list) list"

section \<open>State\<close>

record route_state_labels =
  rl_nlri :: string
  rl_peer_ip :: string
  rl_peer_asn :: string
  rl_as_path :: string
  rl_communities :: string
  rl_local_preference :: string
  rl_med :: string
  rl_family :: string

record 'srv bgp_manager =
  bm_server :: 'srv
  bm_cfg :: config
  bm_localASN :: uint32
  bm_installed :: "(string, uuid) gomap"
  bm_metrics_on :: bool
  bm_metrics :: metric_log
  bm_route_state :: "(string, (string, route_state_labels) gomap) gomap"

definition bgp_NewManager :: "'srv \<Rightarrow> config \<Rightarrow> bool \<Rightarrow> 'srv bgp_manager" where
  "bgp_NewManager srv cfg metrics =
     \<lparr>bm_server = srv, bm_cfg = cfg, bm_localASN = rt_asn (c_router cfg), bm_installed = [],
      bm_metrics_on = metrics, bm_metrics = [], bm_route_state = []\<rparr>"

text \<open>The gRPC listen option \<open>NewManager\<close> passes to the server, if any.\<close>

definition grpc_listen_option :: "config \<Rightarrow> string option" where
  "grpc_listen_option cfg =
     (if gapi_enabled (bgp_gobgp_api (c_bgp cfg)) then
        Some (if gapi_listen (bgp_gobgp_api (c_bgp cfg)) = [] then DefaultGoBGPAPIListen
              else gapi_listen (bgp_gobgp_api (c_bgp cfg)))
      else None)"

section \<open>Global configuration and peers\<close>

definition effectiveListenAddress :: "'srv bgp_manager \<Rightarrow> string" where
  "effectiveListenAddress m =
     (if bgp_listen_address (c_bgp (bm_cfg m)) \<noteq> [] then bgp_listen_address (c_bgp (bm_cfg m))
      else if rt_local_address (c_router (bm_cfg m)) \<noteq> [] then rt_local_address (c_router (bm_cfg m))
      else ''0.0.0.0'')"

definition buildGlobalConfig :: "'srv bgp_manager \<Rightarrow> api_global" where
  "buildGlobalConfig m =
     (let listenPort = (if bgp_listen_port (c_bgp (bm_cfg m)) = 0 then 179 else bgp_listen_port (c_bgp (bm_cfg m)))
      in \<lparr>gl_asn = rt_asn (c_router (bm_cfg m)),
          gl_router_id = rt_router_id (c_router (bm_cfg m)),
          gl_listen_port = word_of_int listenPort,
          gl_listen_addresses = [effectiveListenAddress m]\<rparr>)"

definition bgp_Start :: "'srv gobgp \<Rightarrow> 'srv bgp_manager \<Rightarrow> go_error option \<times> 'srv bgp_manager" where
  "bgp_Start g m =
     (let (err, srv) = g_StartBgp g (buildGlobalConfig m) (bm_server m); m' = m\<lparr>bm_server := srv\<rparr>
      in case err of
           Some e \<Rightarrow> (Some (Errorf ''starting BGP: %w'' [] (Some e)), m')
         | None \<Rightarrow> (None, m'))"

definition peerLocalAddress :: "'srv bgp_manager \<Rightarrow> neighbor_config \<Rightarrow> string" where
  "peerLocalAddress m n =
     (if nb_local_address n \<noteq> [] then nb_local_address n else rt_local_address (c_router (bm_cfg m)))"

definition prefix_Is6 :: "string \<Rightarrow> bool" where
  "prefix_Is6 p = (case ParsePrefix p of Inr pfx \<Rightarrow> Is6 (px_addr pfx) | Inl _ \<Rightarrow> False)"

definition wantsIPv6 :: "'srv bgp_manager \<Rightarrow> bool" where
  "wantsIPv6 m =
     (if rt_local_address_ipv6 (c_router (bm_cfg m)) \<noteq> [] then True
      else list_ex (\<lambda>v. prefix_Is6 (v_prefix v)) (c_vips (bm_cfg m)))"

definition buildPeerAfiSafis :: "'srv bgp_manager \<Rightarrow> bgp_family list" where
  "buildPeerAfiSafis m = [RF_IPv4_UC] @ (if wantsIPv6 m then [RF_IPv6_UC] else [])"

text \<open>\<open>uint64 (d.Seconds ())\<close> of a non-negative duration: whole seconds.\<close>

definition whole_seconds :: "go_duration \<Rightarrow> uint64" where
  "whole_seconds d = word_of_int (d div 1000000000)"

definition buildPeer :: "'srv bgp_manager \<Rightarrow> neighbor_config \<Rightarrow> go_error + api_peer" where
  "buildPeer m n =
     (let localAddress = peerLocalAddress m n; bgp = c_bgp (bm_cfg m) in
      if \<not> nb_passive n \<and> localAddress \<noteq> [] \<and> localAddress = nb_address n then
        Inl (Errorf ''active peer local_address %q must differ from neighbor address %q to avoid self-dial''
               [FStr localAddress, FStr (nb_address n)] None)
      else
        Inr \<lparr>ap_conf = Some \<lparr>pcf_neighbor_address = nb_address n, pcf_peer_asn = nb_peer_asn n,
                             pcf_description = nb_name n, pcf_auth_password = nb_auth_password n\<rparr>,
             ap_state = None,
             ap_transport = \<lparr>ptr_local_address = localAddress, ptr_remote_port = ucast (nb_port n),
                             ptr_passive_mode = nb_passive n\<rparr>,
             ap_afi_safis = buildPeerAfiSafis m,
             ap_graceful_restart = (bgp_graceful_restart bgp = Some True),
             ap_timers =
               (case bgp_hold_time bgp of
                  None \<Rightarrow> None
                | Some h \<Rightarrow>
                    Some \<lparr>ptm_hold_time = whole_seconds h,
                          ptm_keepalive_interval =
                            (case bgp_keepalive_time bgp of None \<Rightarrow> 0 | Some k \<Rightarrow> whole_seconds k)\<rparr>),
             ap_ebgp_multihop = (if nb_enable_multihop n then Some (nb_multihop_ttl n) else None),
             ap_bfd = (case nb_bfd n of
                         Some b \<Rightarrow> if bfd_enabled b then Some b else None
                       | None \<Rightarrow> None)\<rparr>)"

fun add_peers ::
    "'srv gobgp \<Rightarrow> neighbor_config list \<Rightarrow> 'srv bgp_manager \<Rightarrow> go_error option \<times> 'srv bgp_manager" where
  "add_peers g [] m = (None, m)"
| "add_peers g (n # ns) m =
     (case buildPeer m n of
        Inl err \<Rightarrow> (Some (Errorf ''building peer %s (%s): %w'' [FStr (nb_name n), FStr (nb_address n)] (Some err)), m)
      | Inr peer \<Rightarrow>
          (let (err, srv) = g_AddPeer g peer (bm_server m); m' = m\<lparr>bm_server := srv\<rparr>
           in case err of
                Some e \<Rightarrow>
                  (Some (Errorf ''adding peer %s (%s): %w'' [FStr (nb_name n), FStr (nb_address n)] (Some e)), m')
              | None \<Rightarrow> add_peers g ns m'))"

definition AddPeers :: "'srv gobgp \<Rightarrow> 'srv bgp_manager \<Rightarrow> go_error option \<times> 'srv bgp_manager" where
  "AddPeers g m = add_peers g (bgp_neighbors (c_bgp (bm_cfg m))) m"

section \<open>Peer states\<close>

definition trim_prefix :: "string \<Rightarrow> string \<Rightarrow> string" where
  "trim_prefix s p = (if has_prefix s p then drop (length p) s else s)"

text \<open>The first configured neighbor with the address of the peer: whether it is required, and its name.\<close>

definition peer_status_of :: "neighbor_config list \<Rightarrow> api_peer \<Rightarrow> peer_status" where
  "peer_status_of neighbors p =
     (let state = (case ap_state p of None \<Rightarrow> ''unknown''
                   | Some st \<Rightarrow> to_lower (trim_prefix st ''SESSION_STATE_''));
          (name, addr, asn) =
            (case ap_conf p of None \<Rightarrow> ([], [], 0)
             | Some c \<Rightarrow> (pcf_description c, pcf_neighbor_address c, pcf_peer_asn c));
          (required, name') =
            (case find (\<lambda>n. nb_address n = addr) neighbors of
               None \<Rightarrow> (True, name)
             | Some n \<Rightarrow> (case nb_required n of None \<Rightarrow> True | Some b \<Rightarrow> b,
                          if name = [] then nb_name n else name))
      in \<lparr>ps_name = name', ps_address = addr, ps_peer_asn = asn,
          ps_session_state = state, ps_required = required\<rparr>)"

definition GetPeerStates :: "'srv gobgp \<Rightarrow> 'srv bgp_manager \<Rightarrow> peer_status list" where
  "GetPeerStates g m =
     map (peer_status_of (bgp_neighbors (c_bgp (bm_cfg m)))) (snd (g_ListPeer g (bm_server m)))"

definition peer_part :: "peer_status \<Rightarrow> string" where
  "peer_part p =
     (let name = (if ps_name p = [] then ''unknown'' else ps_name p);
          addr = (if ps_address p = [] then ''unknown'' else ps_address p)
      in name @ ''('' @ addr @ '',asn='' @ show_nat (unat (ps_peer_asn p)) @ '',state='' @
         ps_session_state p @ '')'')"

definition peerContext :: "'srv gobgp \<Rightarrow> 'srv bgp_manager \<Rightarrow> string" where
  "peerContext g m =
     (let peerStates = GetPeerStates g m
      in if peerStates = [] then ''none'' else str_join (sort (map peer_part peerStates)) '', '')"

definition pathOpError :: "'srv gobgp \<Rightarrow> string \<Rightarrow> string \<Rightarrow> go_error \<Rightarrow> 'srv bgp_manager \<Rightarrow> go_error" where
  "pathOpError g operation prefix err m =
     Errorf ''%s prefix %q failed (peers: %s): %w'' [FStr operation, FStr prefix, FStr (peerContext g m)] (Some err)"

section \<open>Paths\<close>

definition hasIBGPPeer :: "'srv bgp_manager \<Rightarrow> bool" where
  "hasIBGPPeer m = list_ex (\<lambda>n. nb_peer_asn n = bm_localASN m) (bgp_neighbors (c_bgp (bm_cfg m)))"

definition buildASPath :: "uint32 \<Rightarrow> int \<Rightarrow> uint32 list" where
  "buildASPath localASN prepend = replicate (nat (max prepend 0)) localASN"

text \<open>\<open>uint32 (high<<16|low)\<close> of two \<open>uint64\<close> values.\<close>

definition community_word :: "nat \<Rightarrow> nat \<Rightarrow> uint32" where
  "community_word high low = ucast (or (push_bit 16 (of_nat high :: uint64)) (of_nat low))"

definition parse_community :: "string \<Rightarrow> go_error + uint32" where
  "parse_community s =
     (case split2 CHR '':'' s of
        [h, l] \<Rightarrow>
          (case parse_uint 16 h of
             None \<Rightarrow> Inl (Errorf ''invalid community %q: %w'' [FStr s] (Some (Errorf ''strconv.ParseUint'' [FStr h] None)))
           | Some high \<Rightarrow>
               (case parse_uint 16 l of
                  None \<Rightarrow> Inl (Errorf ''invalid community %q: %w'' [FStr s] (Some (Errorf ''strconv.ParseUint'' [FStr l] None)))
                | Some low \<Rightarrow> Inr (community_word high low)))
      | _ \<Rightarrow> Inl (Errorf ''invalid community %q'' [FStr s] None))"

fun parseCommunities :: "string list \<Rightarrow> go_error + uint32 list" where
  "parseCommunities [] = Inr []"
| "parseCommunities (s # ss) =
     (case parse_community s of
        Inl e \<Rightarrow> Inl e
      | Inr c \<Rightarrow> (case parseCommunities ss of Inl e \<Rightarrow> Inl e | Inr cs \<Rightarrow> Inr (c # cs)))"

definition nextHopFor :: "'srv bgp_manager \<Rightarrow> bgp_family \<Rightarrow> go_error + ip_addr" where
  "nextHopFor m family =
     (let router = c_router (bm_cfg m) in
      if family = RF_IPv6_UC then
        (if rt_local_address_ipv6 router = [] then
           Inl (Errorf ''IPv6 route requires router.local_address_ipv6 to be set'' [] None)
         else case ParseAddr (rt_local_address_ipv6 router) of
                Inl err \<Rightarrow> Inl (Errorf ''invalid next-hop %q: %w'' [FStr (rt_local_address_ipv6 router)] (Some err))
              | Inr addr \<Rightarrow>
                  (if \<not> Is6 addr then
                     Inl (Errorf ''IPv6 route requires an IPv6 router.local_address_ipv6, got %q''
                            [FStr (rt_local_address_ipv6 router)] None)
                   else Inr addr))
      else
        let nextHop = (case ParseAddr (rt_local_address router) of
                         Inr addr \<Rightarrow> if Is4 addr then rt_local_address router else rt_router_id router
                       | Inl _ \<Rightarrow> rt_router_id router)
        in case ParseAddr nextHop of
             Inl err \<Rightarrow> Inl (Errorf ''invalid next-hop %q: %w'' [FStr nextHop] (Some err))
           | Inr addr \<Rightarrow> Inr addr)"

definition as_path_params :: "'srv bgp_manager \<Rightarrow> route_attrs \<Rightarrow> as_path" where
  "as_path_params m attrs =
     (if 0 < ra_as_path_prepend attrs \<and> \<not> hasIBGPPeer m
      then [(2, buildASPath (bm_localASN m) (ra_as_path_prepend attrs))] else [])"

definition buildPath :: "'srv gobgp \<Rightarrow> string \<Rightarrow> route_attrs \<Rightarrow> 'srv bgp_manager \<Rightarrow> go_error + bgp_path" where
  "buildPath g prefix attrs m =
     (case ParsePrefix prefix of
        Inl err \<Rightarrow> Inl (Errorf ''invalid prefix %q: %w'' [FStr prefix] (Some err))
      | Inr pfx \<Rightarrow>
          (case g_NewIPAddrPrefix g (Masked pfx) of
             Some err \<Rightarrow> Inl (Errorf ''building nlri: %w'' [] (Some err))
           | None \<Rightarrow>
               (let family = (if Is6 (px_addr pfx) then RF_IPv6_UC else RF_IPv4_UC)
                in case nextHopFor m family of
                     Inl err \<Rightarrow> Inl err
                   | Inr nextHopAddr \<Rightarrow>
                       (case g_NewPathAttributeNextHop g nextHopAddr of
                          Some err \<Rightarrow> Inl (Errorf ''building next-hop attribute: %w'' [] (Some err))
                        | None \<Rightarrow>
                            (let pathAttrs = [AttrOrigin 0, AttrNextHop nextHopAddr, AttrAsPath (as_path_params m attrs)]
                             in if ra_communities attrs \<noteq> [] then
                                  (case parseCommunities (ra_communities attrs) of
                                     Inl err \<Rightarrow> Inl err
                                   | Inr comms \<Rightarrow>
                                       Inr \<lparr>bp_family = family, bp_nlri = Some (Masked pfx),
                                            bp_attrs = pathAttrs @ [AttrCommunities comms]\<rparr>)
                                else Inr \<lparr>bp_family = family, bp_nlri = Some (Masked pfx), bp_attrs = pathAttrs\<rparr>)))))"

section \<open>The route state metric\<close>

definition labels_values :: "route_state_labels \<Rightarrow> string list" where
  "labels_values l =
     [rl_nlri l, rl_peer_ip l, rl_peer_asn l, rl_as_path l, rl_communities l, rl_local_preference l,
      rl_med l, rl_family l]"

definition labels_key :: "route_state_labels \<Rightarrow> string" where
  "labels_key l = str_join (labels_values l) [char_of (0 :: nat)]"

definition routeFamily :: "string \<Rightarrow> bgp_family" where
  "routeFamily prefix = (if prefix_Is6 prefix then RF_IPv6_UC else RF_IPv4_UC)"

definition familyName :: "bgp_family \<Rightarrow> string" where
  "familyName f =
     (case f of RF_IPv4_UC \<Rightarrow> ''ipv4-unicast'' | RF_IPv6_UC \<Rightarrow> ''ipv6-unicast'' | RF_Other s \<Rightarrow> to_lower s)"

definition stringify_community :: "uint32 \<Rightarrow> string" where
  "stringify_community c =
     show_nat (unat (drop_bit 16 c)) @ '':'' @ show_nat (unat (and c 0xFFFF))"

definition stringifyCommunities :: "uint32 list \<Rightarrow> string" where
  "stringifyCommunities cs = (if cs = [] then [] else str_join (sort (map stringify_community cs)) '','')"

definition decodeNLRIPrefix :: "'srv gobgp \<Rightarrow> bgp_path \<Rightarrow> string" where
  "decodeNLRIPrefix g p = (case bp_nlri p of None \<Rightarrow> [] | Some n \<Rightarrow> g_nlri_String g n)"

definition label_attr :: "'srv gobgp \<Rightarrow> path_attr \<Rightarrow> route_state_labels \<Rightarrow> route_state_labels" where
  "label_attr g a l =
     (case a of
        AttrAsPath ps \<Rightarrow> l\<lparr>rl_as_path := g_AsPathString g ps\<rparr>
      | AttrCommunities cs \<Rightarrow> l\<lparr>rl_communities := stringifyCommunities cs\<rparr>
      | AttrLocalPref v \<Rightarrow> l\<lparr>rl_local_preference := show_nat (unat v)\<rparr>
      | AttrMultiExitDisc v \<Rightarrow> l\<lparr>rl_med := show_nat (unat v)\<rparr>
      | _ \<Rightarrow> l)"

definition routeStateLabelsFromPath ::
    "'srv gobgp \<Rightarrow> ip_prefix \<Rightarrow> bgp_path \<Rightarrow> string \<Rightarrow> string \<Rightarrow> route_state_labels" where
  "routeStateLabelsFromPath g nlri path peerIP peerASN =
     (let fam = familyName (bp_family path);
          l = \<lparr>rl_nlri = g_nlri_String g nlri, rl_peer_ip = peerIP, rl_peer_asn = peerASN, rl_as_path = [],
               rl_communities = [], rl_local_preference = [], rl_med = [],
               rl_family = (if fam = [] then ''ipv4-unicast'' else fam)\<rparr>;
          l1 = (if rl_nlri l = [] then l\<lparr>rl_nlri := decodeNLRIPrefix g path\<rparr> else l)
      in fold (label_attr g) (bp_attrs path) l1)"

text \<open>The labels of every path advertised to a neighbor; a neighbor whose table cannot be listed gives
  what the callback saw before the error.\<close>

definition current_labels ::
    "'srv gobgp \<Rightarrow> string \<Rightarrow> 'srv bgp_manager \<Rightarrow> (string, route_state_labels) gomap" where
  "current_labels g prefix m =
     fold (\<lambda>peer cur.
       fold (\<lambda>(nlri, paths) cur.
         fold (\<lambda>p cur.
            let labels = routeStateLabelsFromPath g nlri p (nb_address peer) (show_nat (unat (nb_peer_asn peer)))
            in gm_put (labels_key labels) labels cur) paths cur)
         (snd (g_ListPath g \<lparr>lpr_name = nb_address peer, lpr_family = routeFamily prefix, lpr_prefix = prefix\<rparr>
                 (bm_server m))) cur)
       (bgp_neighbors (c_bgp (bm_cfg m))) []"

definition syncRouteStateMetric :: "'srv gobgp \<Rightarrow> string \<Rightarrow> 'srv bgp_manager \<Rightarrow> 'srv bgp_manager" where
  "syncRouteStateMetric g prefix m =
     (if \<not> bm_metrics_on m then m
      else
        let current = current_labels g prefix m;
            previous = (case map_of (bm_route_state m) prefix of None \<Rightarrow> [] | Some p \<Rightarrow> p);
            ops = map (\<lambda>(key, labels). GaugeSet RouteStateVec (labels_values labels) 0)
                    (filter (\<lambda>(key, labels). map_of current key = None) previous) @
                  map (\<lambda>(key, labels). GaugeSet RouteStateVec (labels_values labels) 1) current
        in m\<lparr>bm_metrics := emit ops (bm_metrics m),
             bm_route_state := gm_put prefix current (bm_route_state m)\<rparr>)"

section \<open>Originating and withdrawing\<close>

text \<open>The map of installed routes.\<close>

definition installedUUID :: "string \<Rightarrow> 'srv bgp_manager \<Rightarrow> uuid option" where
  [simp]: "installedUUID prefix m = map_of (bm_installed m) prefix"

definition storeInstalledUUID :: "string \<Rightarrow> uuid \<Rightarrow> 'srv bgp_manager \<Rightarrow> 'srv bgp_manager" where
  [simp]: "storeInstalledUUID prefix uid m = m\<lparr>bm_installed := gm_put prefix uid (bm_installed m)\<rparr>"

definition clearInstalledUUID :: "string \<Rightarrow> 'srv bgp_manager \<Rightarrow> 'srv bgp_manager" where
  [simp]: "clearInstalledUUID prefix m = m\<lparr>bm_installed := gm_del prefix (bm_installed m)\<rparr>"

definition upsertVIP ::
    "'srv gobgp \<Rightarrow> string \<Rightarrow> route_attrs \<Rightarrow> string \<Rightarrow> 'srv bgp_manager \<Rightarrow> go_error option \<times> 'srv bgp_manager" where
  "upsertVIP g prefix attrs operation m =
     (case buildPath g prefix attrs m of
        Inl err \<Rightarrow> (Some err, m)
      | Inr path \<Rightarrow>
          (let (derr, m1) =
             (case installedUUID prefix m of
                None \<Rightarrow> (None, m)
              | Some oldUUID \<Rightarrow>
                  (let (err, srv) = g_DeletePath g (DeleteUUIDs [oldUUID]) (bm_server m); md = m\<lparr>bm_server := srv\<rparr>
                   in case err of
                        Some e \<Rightarrow>
                          (Some (pathOpError g operation prefix (Errorf ''deleting previous path: %w'' [] (Some e)) md), md)
                      | None \<Rightarrow> (None, clearInstalledUUID prefix md)))
           in case derr of
                Some e \<Rightarrow> (Some e, m1)
              | None \<Rightarrow>
                  (let (resp, srv) = g_AddPath g [path] (bm_server m1); m2 = m1\<lparr>bm_server := srv\<rparr>
                   in case resp of
                        Inl err \<Rightarrow> (Some (pathOpError g operation prefix err m2), m2)
                      | Inr [] \<Rightarrow>
                          (Some (pathOpError g operation prefix (Errorf ''empty add-path response'' [] None) m2), m2)
                      | Inr (r # rs) \<Rightarrow>
                          (case apr_error r of
                             Some err \<Rightarrow> (Some (pathOpError g operation prefix err m2), m2)
                           | None \<Rightarrow>
                               (None,
                                syncRouteStateMetric g prefix
                                  (storeInstalledUUID prefix (apr_uuid r) m2))))))"

definition originate ::
    "'srv gobgp \<Rightarrow> string \<Rightarrow> route_attrs \<Rightarrow> string \<Rightarrow> 'srv bgp_manager \<Rightarrow> go_error option \<times> 'srv bgp_manager" where
  [simp]: "originate g prefix attrs operation m = upsertVIP g prefix attrs operation m"

definition AnnounceVIP ::
    "'srv gobgp \<Rightarrow> string \<Rightarrow> route_attrs \<Rightarrow> 'srv bgp_manager \<Rightarrow> go_error option \<times> 'srv bgp_manager" where
  "AnnounceVIP g prefix attrs m = originate g prefix attrs ''announce'' m"

definition PessimizeVIP ::
    "'srv gobgp \<Rightarrow> string \<Rightarrow> route_attrs \<Rightarrow> 'srv bgp_manager \<Rightarrow> go_error option \<times> 'srv bgp_manager" where
  "PessimizeVIP g prefix attrs m = originate g prefix attrs ''pessimize'' m"

definition WithdrawVIP ::
    "'srv gobgp \<Rightarrow> string \<Rightarrow> 'srv bgp_manager \<Rightarrow> go_error option \<times> 'srv bgp_manager" where
  "WithdrawVIP g prefix m =
     (case buildPath g prefix zero_route_attrs m of
        Inl err \<Rightarrow> (Some err, m)
      | Inr path \<Rightarrow>
          (let req = (case installedUUID prefix m of
                        Some oldUUID \<Rightarrow> DeleteUUIDs [oldUUID]
                      | None \<Rightarrow> DeletePaths [path]);
               (err, srv) = g_DeletePath g req (bm_server m);
               m1 = m\<lparr>bm_server := srv\<rparr>
           in case err of
                Some e \<Rightarrow> (Some (pathOpError g ''withdraw'' prefix e m1), m1)
              | None \<Rightarrow>
                  (None, syncRouteStateMetric g prefix (clearInstalledUUID prefix m1))))"

text \<open>The BGP manager as the notifier of the policy manager.\<close>

definition notifier_of :: "'srv gobgp \<Rightarrow> 'srv bgp_manager bgp_notifier" where
  "notifier_of g =
     \<lparr>bn_AnnounceVIP = AnnounceVIP g, bn_WithdrawVIP = WithdrawVIP g, bn_PessimizeVIP = PessimizeVIP g\<rparr>"

end
