(* ===== verification/Policy_Wf.thy ===== *)
theory Policy_Wf
  imports Policy_Manager
begin

text \<open>
  The invariant of the policy manager and its preservation by every operation: the maps and the order
  agree, an entry's checks are those of its configuration, its health is the combination of its
  checks, its state follows from health, drain file and policy, and the gauges show it.
\<close>

section \<open>Data for the concrete instances\<close>

text \<open>An environment without files, and a health transition.\<close>

definition ex_env :: pol_env where
  "ex_env = \<lparr>pe_now = 1000, pe_stat = (\<lambda>_. False), pe_expr = (\<lambda>_ _. Inl (Errorf ''no expressions'' [] None))\<rparr>"

definition ex_health :: "string \<Rightarrow> string \<Rightarrow> bool \<Rightarrow> health_transition" where
  "ex_health v c ok =
     \<lparr>ht_vip_name = v, ht_check_name = c, ht_healthy = ok, ht_reason = ''threshold reached'',
      ht_check_result = ex_result ok\<rparr>"

lemma ex_health_sel [simp]:
  "ht_vip_name (ex_health v c ok) = v" "ht_check_name (ex_health v c ok) = c" "ht_healthy (ex_health v c ok) = ok"
  by (simp_all add: ex_health_def)

section \<open>The invariant\<close>

definition entry_wf :: "string \<Rightarrow> vip_entry \<Rightarrow> bool" where
  "entry_wf name e \<longleftrightarrow>
     v_name (ve_cfg e) = name \<and>
     gm_wf (vs_checks (ve_state e)) \<and>
     set (gm_keys (vs_checks (ve_state e))) = set (ev_names (ve_eval e)) \<and>
     ev_names (ve_eval e) = map check_EffectiveName (CheckList (ve_cfg e)) \<and>
     (\<forall>(k, c) \<in> set (vs_checks (ve_state e)). check_EffectiveName (cks_cfg c) = k)"

definition entry_ok :: "vip_entry \<Rightarrow> bool" where
  "entry_ok e \<longleftrightarrow>
     vs_health (ve_state e) = combineHealth (ve_eval e) (vs_checks (ve_state e)) \<and>
     (vs_health (ve_state e) \<noteq> HealthUnknown \<longrightarrow>
        vs_state (ve_state e) =
          Evaluate (vs_health (ve_state e) = HealthHealthy) (vs_lower_priority_file_on (ve_state e))
            (v_policy (ve_cfg e)))"

definition gauges_ok :: "metric_log \<Rightarrow> vip_entry \<Rightarrow> bool" where
  "gauges_ok ml e \<longleftrightarrow>
     series_value ml VIPStateVec [v_name (ve_cfg e), v_prefix (ve_cfg e)] =
       Some (of_int (VIPState_int (vs_state (ve_state e)))) \<and>
     series_value ml VIPPriorityVec [v_name (ve_cfg e), v_prefix (ve_cfg e)] =
       Some (of_int (priorityFor (v_policy (ve_cfg e)) (vs_state (ve_state e))))"

definition mgr_wf :: "'b manager \<Rightarrow> bool" where
  "mgr_wf m \<longleftrightarrow>
     gm_wf (m_vips m) \<and> distinct (m_order m) \<and> set (m_order m) = set (gm_keys (m_vips m)) \<and>
     (\<forall>name e. map_of (m_vips m) name = Some e \<longrightarrow>
        entry_wf name e \<and> entry_ok e \<and> gauges_ok (m_metrics m) e)"

lemma entry_wf_name: "entry_wf n e \<Longrightarrow> v_name (ve_cfg e) = n"
  by (simp add: entry_wf_def)

lemma mgr_wfD:
  assumes "mgr_wf m"
  shows "gm_wf (m_vips m)" and "distinct (m_order m)" and "set (m_order m) = set (gm_keys (m_vips m))"
    and "map_of (m_vips m) name = Some e \<Longrightarrow> entry_wf name e"
    and "map_of (m_vips m) name = Some e \<Longrightarrow> entry_ok e"
    and "map_of (m_vips m) name = Some e \<Longrightarrow> gauges_ok (m_metrics m) e"
  using assms by (auto simp: mgr_wf_def)

lemma put_entry_sel [simp]:
  "m_vips (put_entry n e m) = gm_put n e (m_vips m)"
  "m_order (put_entry n e m) = m_order m"
  "m_metrics (put_entry n e m) = m_metrics m"
  "m_notifier (put_entry n e m) = m_notifier m"
  "m_bgp (put_entry n e m) = m_bgp m"
  "m_on_transition (put_entry n e m) = m_on_transition m"
  by (simp_all add: put_entry_def)

text \<open>
  The shared step: an operation that replaces the entry of one VIP by a good one and touches, among
  the two VIP gauges, only those of that VIP keeps the invariant.
\<close>

lemma mgr_wf_replace:
  assumes "mgr_wf m" and "map_of (m_vips m) name = Some e0"
    and "m_vips m' = gm_put name e (m_vips m)" and "m_order m' = m_order m"
    and "entry_wf name e" and "entry_ok e" and "gauges_ok (m_metrics m') e"
    and "\<And>n p. n \<noteq> name \<Longrightarrow>
           series_value (m_metrics m') VIPStateVec [n, p] = series_value (m_metrics m) VIPStateVec [n, p]"
    and "\<And>n p. n \<noteq> name \<Longrightarrow>
           series_value (m_metrics m') VIPPriorityVec [n, p] = series_value (m_metrics m) VIPPriorityVec [n, p]"
  shows "mgr_wf m'"
  unfolding mgr_wf_def
proof (intro conjI allI impI)
  show "gm_wf (m_vips m')" using assms(1,3) by (simp add: mgr_wf_def gm_wf_put)
  show "distinct (m_order m')" using assms(1,4) by (simp add: mgr_wf_def)
  show "set (m_order m') = set (gm_keys (m_vips m'))"
    using assms(1-4) by (simp add: mgr_wf_def gm_keys_put_known)
  fix n x assume "map_of (m_vips m') n = Some x"
  then have x: "n = name \<and> x = e \<or> n \<noteq> name \<and> map_of (m_vips m) n = Some x"
    using assms(3) by (auto simp: gomap_simps split: if_splits)
  then have good: "entry_wf n x \<and> entry_ok x \<and> (n \<noteq> name \<longrightarrow> gauges_ok (m_metrics m) x)"
    using assms(1,5,6) mgr_wfD(4-6) [OF assms(1)] by blast
  then show "entry_wf n x" "entry_ok x" by simp_all
  show "gauges_ok (m_metrics m') x"
    using x good assms(7-9) by (auto simp: gauges_ok_def entry_wf_name)
qed

section \<open>Check maps\<close>

lemma resolve_check_Some:
  "resolve_check cs name = Some (k, c) \<Longrightarrow> gm_wf cs \<Longrightarrow> map_of cs k = Some c"
  by (auto simp: resolve_check_def split: option.splits list.splits)

text \<open>Health is combined from the health flags in the order of the map.\<close>

lemma combineHealth_cong:
  assumes "map (\<lambda>(n, c). (n, cks_health c)) cs = map (\<lambda>(n, c). (n, cks_health c)) cs'"
  shows "combineHealth ev cs = combineHealth ev cs'"
proof -
  have ex: "list_ex (\<lambda>(n, c). cks_health c \<noteq> HealthUnknown) xs =
      list_ex (\<lambda>(n, h). h \<noteq> HealthUnknown) (map (\<lambda>(n, c). (n, cks_health c)) xs)" for xs :: "(string \<times> check_state) list"
    by (induction xs) auto
  have mp: "map (\<lambda>(n, c). (n, cks_health c = HealthHealthy)) xs =
      map (\<lambda>(n, h). (n, h = HealthHealthy)) (map (\<lambda>(n, c). (n, cks_health c)) xs)" for xs :: "(string \<times> check_state) list"
    by (induction xs) auto
  show ?thesis
    unfolding combineHealth_def by (simp only: ex [of cs] ex [of cs'] mp [of cs] mp [of cs'] assms)
qed

lemma health_map_put:
  "map_of cs k = Some c \<Longrightarrow> cks_health c' = cks_health c \<Longrightarrow>
   map (\<lambda>(n, c). (n, cks_health c)) (gm_put k c' cs) = map (\<lambda>(n, c). (n, cks_health c)) cs"
  by (induction cs) (auto split: if_splits)

lemma entry_wf_put_check:
  assumes "entry_wf name e" and "map_of (vs_checks (ve_state e)) k = Some c" and "cks_cfg c' = cks_cfg c"
    and "vs_checks vs = gm_put k c' (vs_checks (ve_state e))"
  shows "entry_wf name (e\<lparr>ve_state := vs\<rparr>)"
proof -
  have wf: "gm_wf (vs_checks (ve_state e))" using assms(1) by (simp add: entry_wf_def)
  have mem: "(k, c) \<in> set (vs_checks (ve_state e))" using assms(2) by (rule map_of_SomeD)
  have named: "\<forall>(k', x) \<in> set (vs_checks (ve_state e)). check_EffectiveName (cks_cfg x) = k'"
    using assms(1) by (simp add: entry_wf_def)
  have "check_EffectiveName (cks_cfg x) = k'" if "(k', x) \<in> set (gm_put k c' (vs_checks (ve_state e)))" for k' x
    using that named mem assms(3) by (auto simp: in_set_put_iff [OF wf] split: if_splits)
  then show ?thesis
    using assms gm_keys_put_known [of "vs_checks (ve_state e)" k c']
    by (auto simp: entry_wf_def gm_wf_put simp del: set_map)
qed

section \<open>Transitions\<close>

lemma transitionStateLocked_vs:
  assumes "transitionStateLocked env cfg ns reason m vs = (m', vs')"
  shows "vs_state vs' = ns" and "vs_health vs' = vs_health vs" and "vs_checks vs' = vs_checks vs"
    and "vs_lower_priority_file_on vs' = vs_lower_priority_file_on vs"
  using assms
  by (auto simp: transitionStateLocked_def Let_def split: if_splits option.splits prod.splits)

lemma transitionStateLocked_frame:
  assumes "transitionStateLocked env cfg ns reason m vs = (m', vs')"
  shows "m_vips m' = m_vips m" and "m_order m' = m_order m" and "m_notifier m' = m_notifier m"
    and "m_on_transition m' = m_on_transition m"
  using assms
  by (auto simp: transitionStateLocked_def Let_def split: if_splits option.splits prod.splits)

lemma transitionStateLocked_metrics:
  assumes "transitionStateLocked env cfg ns reason m vs = (m', vs')"
  shows "m_metrics m' =
    (if ns = vs_state vs then m_metrics m
     else emit
       [GaugeSet VIPStateVec [v_name cfg, v_prefix cfg] (of_int (VIPState_int ns)),
        CounterInc VIPTransitionsVec [v_name cfg, v_prefix cfg, VIPState_String ns],
        GaugeSet VIPLastTransitionVec [v_name cfg, v_prefix cfg] (unix (pe_now env)),
        GaugeSet VIPPriorityVec [v_name cfg, v_prefix cfg] (of_int (priorityFor (v_policy cfg) ns))]
       (m_metrics m))"
  using assms
  by (auto simp: transitionStateLocked_def Let_def split: if_splits option.splits prod.splits)

lemma transitionStateLocked_bgp:
  assumes "transitionStateLocked env cfg ns reason m vs = (m', vs')" and "ns \<noteq> vs_state vs"
    and "m_notifier m = Some n" and "applyBGP n cfg ns (m_bgp m) = (err, b')"
  shows "m_bgp m' = b' \<and> vs_bgp_pending vs' = (err \<noteq> None)"
  using assms by (auto simp: transitionStateLocked_def Let_def split: if_splits)

text \<open>After a transition (or none) the two gauges of the VIP show its state.\<close>

lemma transitionStateLocked_gauges:
  assumes "transitionStateLocked env cfg ns reason m vs = (m', vs')"
    and "series_value (m_metrics m) VIPStateVec [v_name cfg, v_prefix cfg] = Some (of_int (VIPState_int (vs_state vs)))"
    and "series_value (m_metrics m) VIPPriorityVec [v_name cfg, v_prefix cfg] =
           Some (of_int (priorityFor (v_policy cfg) (vs_state vs)))"
  shows "series_value (m_metrics m') VIPStateVec [v_name cfg, v_prefix cfg] = Some (of_int (VIPState_int ns))"
    and "series_value (m_metrics m') VIPPriorityVec [v_name cfg, v_prefix cfg] =
           Some (of_int (priorityFor (v_policy cfg) ns))"
  using assms(2,3) transitionStateLocked_metrics [OF assms(1)] by auto

lemma transitionStateLocked_other_gauges:
  assumes "transitionStateLocked env cfg ns reason m vs = (m', vs')" and "n \<noteq> v_name cfg"
  shows "series_value (m_metrics m') VIPStateVec [n, p] = series_value (m_metrics m) VIPStateVec [n, p]"
    and "series_value (m_metrics m') VIPPriorityVec [n, p] = series_value (m_metrics m) VIPPriorityVec [n, p]"
  using assms(2) transitionStateLocked_metrics [OF assms(1)] by auto

section \<open>Health transitions\<close>

text \<open>What a health transition does, by cases: nothing, a check recorded, or a re-evaluation.\<close>

lemma OnHealthTransition_cases:
  obtains (same) "OnHealthTransition env t m = m"
      "map_of (m_vips m) (ht_vip_name t) = None \<or>
       (\<exists>e. map_of (m_vips m) (ht_vip_name t) = Some e \<and>
            resolve_check (vs_checks (ve_state e)) (ht_check_name t) = None)"
  | (recorded) e key cs vs1 where "map_of (m_vips m) (ht_vip_name t) = Some e"
      "resolve_check (vs_checks (ve_state e)) (ht_check_name t) = Some (key, cs)"
      "vs1 = (ve_state e)\<lparr>vs_checks := gm_put key
               (cs\<lparr>cks_health := (if ht_healthy t then HealthHealthy else HealthUnhealthy)\<rparr>)
               (vs_checks (ve_state e))\<rparr>"
      "combineHealth (ve_eval e) (vs_checks vs1) = vs_health (ve_state e)"
      "OnHealthTransition env t m = put_entry (ht_vip_name t) (e\<lparr>ve_state := vs1\<rparr>) m"
  | (evaluated) e key cs vs1 vs2 drain reason m1 vs3 where "map_of (m_vips m) (ht_vip_name t) = Some e"
      "resolve_check (vs_checks (ve_state e)) (ht_check_name t) = Some (key, cs)"
      "vs1 = (ve_state e)\<lparr>vs_checks := gm_put key
               (cs\<lparr>cks_health := (if ht_healthy t then HealthHealthy else HealthUnhealthy)\<rparr>)
               (vs_checks (ve_state e))\<rparr>"
      "combineHealth (ve_eval e) (vs_checks vs1) \<noteq> vs_health (ve_state e)"
      "drain = lowerPriorityFilePresent env (pc_lower_priority_file (v_policy (ve_cfg e)))"
      "vs2 = vs1\<lparr>vs_health := combineHealth (ve_eval e) (vs_checks vs1), vs_lower_priority_file_on := drain\<rparr>"
      "transitionStateLocked env (ve_cfg e)
         (Evaluate (combineHealth (ve_eval e) (vs_checks vs1) = HealthHealthy) drain (v_policy (ve_cfg e)))
         reason m vs2 = (m1, vs3)"
      "OnHealthTransition env t m = put_entry (ht_vip_name t) (e\<lparr>ve_state := vs3\<rparr>) m1"
proof (cases "map_of (m_vips m) (ht_vip_name t)")
  case None
  then show ?thesis by (intro same) (simp_all add: OnHealthTransition_def)
next
  case (Some e)
  show ?thesis
  proof (cases "resolve_check (vs_checks (ve_state e)) (ht_check_name t)")
    case None
    with Some show ?thesis by (intro same) (simp_all add: OnHealthTransition_def)
  next
    case (Some kc)
    obtain key cs where kc: "kc = (key, cs)" by (cases kc)
    note e = \<open>map_of (m_vips m) (ht_vip_name t) = Some e\<close>
    define vs1 where "vs1 = (ve_state e)\<lparr>vs_checks := gm_put key
        (cs\<lparr>cks_health := (if ht_healthy t then HealthHealthy else HealthUnhealthy)\<rparr>) (vs_checks (ve_state e))\<rparr>"
    have vh: "vs_health vs1 = vs_health (ve_state e)" by (simp add: vs1_def)
    show ?thesis
    proof (cases "combineHealth (ve_eval e) (vs_checks vs1) = vs_health (ve_state e)")
      case True
      with e Some kc show ?thesis
        by (intro recorded [OF e, of key cs vs1]) (simp_all add: OnHealthTransition_def Let_def vs1_def)
    next
      case False
      define drain where "drain = lowerPriorityFilePresent env (pc_lower_priority_file (v_policy (ve_cfg e)))"
      define reason where "reason = (if 1 < length (vs_checks vs1)
          then ht_check_name t @ '': '' @ ht_reason t else ht_reason t)"
      define vs2 where "vs2 = vs1\<lparr>vs_health := combineHealth (ve_eval e) (vs_checks vs1), vs_lower_priority_file_on := drain\<rparr>"
      obtain m1 vs3 where tr: "transitionStateLocked env (ve_cfg e)
          (Evaluate (combineHealth (ve_eval e) (vs_checks vs1) = HealthHealthy) drain (v_policy (ve_cfg e)))
          reason m vs2 = (m1, vs3)" by force
      have "OnHealthTransition env t m = put_entry (ht_vip_name t) (e\<lparr>ve_state := vs3\<rparr>) m1"
        using e Some kc False tr unfolding vs2_def reason_def drain_def vs1_def
        by (simp add: OnHealthTransition_def Let_def split del: if_split)
      then show ?thesis
        using e Some kc False tr vs1_def drain_def vs2_def by (intro evaluated) auto
    qed
  qed
qed

lemma OnHealthTransition_wf [wf_intros]:
  assumes wf: "mgr_wf m"
  shows "mgr_wf (OnHealthTransition env t m)"
proof (cases rule: OnHealthTransition_cases [of env t m])
  case same
  with wf show ?thesis by simp
next
  case (recorded e key cs vs1)
  have e: "entry_wf (ht_vip_name t) e" "entry_ok e" "gauges_ok (m_metrics m) e"
    using mgr_wfD [OF wf] recorded(1) by auto
  have k: "map_of (vs_checks (ve_state e)) key = Some cs"
    using resolve_check_Some [OF recorded(2)] e(1) by (simp add: entry_wf_def)
  have "entry_wf (ht_vip_name t) (e\<lparr>ve_state := vs1\<rparr>)"
    using recorded(3) by (intro entry_wf_put_check [OF e(1) k]) auto
  moreover have "entry_ok (e\<lparr>ve_state := vs1\<rparr>)"
    using e(2) recorded(3,4) by (auto simp: entry_ok_def)
  moreover have "gauges_ok (m_metrics m) (e\<lparr>ve_state := vs1\<rparr>)"
    using e(3) recorded(3) by (simp add: gauges_ok_def)
  ultimately show ?thesis
    using recorded(5) by (intro mgr_wf_replace [OF wf recorded(1)]) auto
next
  case (evaluated e key cs vs1 vs2 drain reason m1 vs3)
  have e: "entry_wf (ht_vip_name t) e" "entry_ok e" "gauges_ok (m_metrics m) e"
    using mgr_wfD [OF wf] evaluated(1) by auto
  have nm: "v_name (ve_cfg e) = ht_vip_name t" using e(1) by (rule entry_wf_name)
  have k: "map_of (vs_checks (ve_state e)) key = Some cs"
    using resolve_check_Some [OF evaluated(2)] e(1) by (simp add: entry_wf_def)
  note vs = transitionStateLocked_vs [OF evaluated(7)]
  note fr = transitionStateLocked_frame [OF evaluated(7)]
  have chk: "vs_checks vs3 = vs_checks vs1" "vs_checks vs2 = vs_checks vs1" "vs_state vs2 = vs_state (ve_state e)"
    using vs evaluated(3,6) by auto
  have "entry_wf (ht_vip_name t) (e\<lparr>ve_state := vs3\<rparr>)"
    using chk evaluated(3) by (intro entry_wf_put_check [OF e(1) k]) auto
  moreover have "entry_ok (e\<lparr>ve_state := vs3\<rparr>)"
    using vs evaluated(6) by (simp add: entry_ok_def)
  moreover have "gauges_ok (m_metrics m1) (e\<lparr>ve_state := vs3\<rparr>)"
    using transitionStateLocked_gauges [OF evaluated(7)] e(3) chk vs by (simp add: gauges_ok_def)
  ultimately show ?thesis
    using evaluated(8) fr transitionStateLocked_other_gauges [OF evaluated(7)] nm
    by (intro mgr_wf_replace [OF wf evaluated(1)]) auto
qed

text \<open>A transition that changes the combined health and the state; a BGP operation that fails is pending.\<close>

lemma OnHealthTransition_moves:
  assumes "map_of (m_vips m) (ht_vip_name t) = Some e"
    and "resolve_check (vs_checks (ve_state e)) (ht_check_name t) = Some (key, cs)"
    and "cs' = gm_put key (cs\<lparr>cks_health := (if ht_healthy t then HealthHealthy else HealthUnhealthy)\<rparr>) (vs_checks (ve_state e))"
    and "combineHealth (ve_eval e) cs' = h" and "h \<noteq> vs_health (ve_state e)"
    and "ns = Evaluate (h = HealthHealthy)
           (lowerPriorityFilePresent env (pc_lower_priority_file (v_policy (ve_cfg e)))) (v_policy (ve_cfg e))"
    and "ns \<noteq> vs_state (ve_state e)"
    and "m_notifier m = Some n" and "applyBGP n (ve_cfg e) ns (m_bgp m) = (err, b')"
  shows "\<exists>e'. map_of (m_vips (OnHealthTransition env t m)) (ht_vip_name t) = Some e' \<and>
    vs_state (ve_state e') = ns \<and> vs_health (ve_state e') = h \<and> vs_bgp_pending (ve_state e') = (err \<noteq> None) \<and>
    ve_cfg e' = ve_cfg e \<and> ve_eval e' = ve_eval e \<and> vs_checks (ve_state e') = cs' \<and>
    m_bgp (OnHealthTransition env t m) = b' \<and> m_notifier (OnHealthTransition env t m) = m_notifier m"
proof (cases rule: OnHealthTransition_cases [of env t m])
  case (evaluated e0 key0 cs0 vs1 vs2 drain reason m1 vs3)
  have same: "e0 = e" "key0 = key" "cs0 = cs" using evaluated(1,2) assms(1,2) by auto
  then have vs1: "vs_checks vs1 = cs'" using evaluated(3) assms(3) by simp
  then have st: "vs_state vs2 = vs_state (ve_state e)" "vs_health vs2 = h" "vs_checks vs2 = cs'"
    using evaluated(3,6) same assms(4) by simp_all
  have tr: "transitionStateLocked env (ve_cfg e) ns reason m vs2 = (m1, vs3)"
    using evaluated(5,7) vs1 same assms(4,6) by simp
  have "m_bgp m1 = b' \<and> vs_bgp_pending vs3 = (err \<noteq> None)"
    using transitionStateLocked_bgp [OF tr _ assms(8,9)] assms(7) st by simp
  then show ?thesis
    using evaluated(8) same st transitionStateLocked_vs [OF tr] transitionStateLocked_frame [OF tr]
    by (auto simp: gomap_simps)
qed (use assms in auto)

section \<open>Check results\<close>

lemma reevaluate_policy_cases:
  assumes "reevaluate_policy env cfg drain changed m vs = (m', vs')"
  obtains (unknown) "vs_health vs = HealthUnknown" "m' = m" "vs' = vs"
  | (known) reason where "vs_health vs \<noteq> HealthUnknown"
      "transitionStateLocked env cfg (Evaluate (vs_health vs = HealthHealthy) drain (v_policy cfg)) reason m vs = (m', vs')"
  using assms
  by (cases "Evaluate (vs_health vs = HealthHealthy) drain (v_policy cfg) = vs_state vs")
    (auto simp: reevaluate_policy_def transitionStateLocked_def Let_def split: if_splits)

lemma reevaluate_policy_vs:
  assumes "reevaluate_policy env cfg drain changed m vs = (m', vs')"
  shows "vs_state vs' = (if vs_health vs = HealthUnknown then vs_state vs
           else Evaluate (vs_health vs = HealthHealthy) drain (v_policy cfg))"
    and "vs_health vs' = vs_health vs" and "vs_checks vs' = vs_checks vs"
    and "vs_lower_priority_file_on vs' = vs_lower_priority_file_on vs"
    and "m_vips m' = m_vips m" and "m_order m' = m_order m" and "m_notifier m' = m_notifier m"
  using assms
  by (cases rule: reevaluate_policy_cases;
      simp add: transitionStateLocked_vs transitionStateLocked_frame)+

lemma reevaluate_policy_other_gauges:
  assumes "reevaluate_policy env cfg drain changed m vs = (m', vs')" and "n \<noteq> v_name cfg"
  shows "series_value (m_metrics m') VIPStateVec [n, p] = series_value (m_metrics m) VIPStateVec [n, p]"
    and "series_value (m_metrics m') VIPPriorityVec [n, p] = series_value (m_metrics m) VIPPriorityVec [n, p]"
  using assms
  by (cases rule: reevaluate_policy_cases; simp add: transitionStateLocked_other_gauges)+

lemma reevaluate_policy_gauges:
  assumes "reevaluate_policy env cfg drain changed m vs = (m', vs')"
    and "series_value (m_metrics m) VIPStateVec [v_name cfg, v_prefix cfg] = Some (of_int (VIPState_int (vs_state vs)))"
    and "series_value (m_metrics m) VIPPriorityVec [v_name cfg, v_prefix cfg] =
           Some (of_int (priorityFor (v_policy cfg) (vs_state vs)))"
  shows "series_value (m_metrics m') VIPStateVec [v_name cfg, v_prefix cfg] =
           Some (of_int (VIPState_int (vs_state vs')))"
    and "series_value (m_metrics m') VIPPriorityVec [v_name cfg, v_prefix cfg] =
           Some (of_int (priorityFor (v_policy cfg) (vs_state vs')))"
  using assms
  by (cases rule: reevaluate_policy_cases;
      simp add: transitionStateLocked_gauges transitionStateLocked_vs)+

lemma retry_pending_frame:
  assumes "retry_pending cfg m vs = (m', vs')"
  shows "vs_state vs' = vs_state vs" and "vs_health vs' = vs_health vs" and "vs_checks vs' = vs_checks vs"
    and "vs_lower_priority_file_on vs' = vs_lower_priority_file_on vs"
    and "m_vips m' = m_vips m" and "m_order m' = m_order m" and "m_notifier m' = m_notifier m"
    and "m_metrics m' = m_metrics m"
  using assms by (auto simp: retry_pending_def split: option.splits if_splits prod.splits)

lemma check_result_ops_gauges:
  "series_value (emit (check_result_ops v p c r) ml) VIPStateVec l = series_value ml VIPStateVec l"
  "series_value (emit (check_result_ops v p c r) ml) VIPPriorityVec l = series_value ml VIPPriorityVec l"
  by (rule series_value_emit_untouched;
      auto simp: check_result_ops_def Let_def dest: ObserveCheckDetails_vecs split: if_splits)+

text \<open>What a check result does: nothing, or it is recorded, the policy re-evaluated, BGP retried.\<close>

lemma OnCheckResult_cases:
  obtains (same) "OnCheckResult env v ck result m = m"
      "map_of (m_vips m) v = None \<or>
       (\<exists>e. map_of (m_vips m) v = Some e \<and> resolve_check (vs_checks (ve_state e)) ck = None)"
  | (recorded) e key cs drain vs1 m1 vs2 m2 vs3 where "map_of (m_vips m) v = Some e"
      "resolve_check (vs_checks (ve_state e)) ck = Some (key, cs)"
      "drain = lowerPriorityFilePresent env (pc_lower_priority_file (v_policy (ve_cfg e)))"
      "vs1 = (ve_state e)\<lparr>vs_checks := gm_put key (cs\<lparr>cks_last_result := result, cks_last_time := pe_now env\<rparr>)
               (vs_checks (ve_state e)), vs_lower_priority_file_on := drain\<rparr>"
      "reevaluate_policy env (ve_cfg e) drain (drain \<noteq> vs_lower_priority_file_on (ve_state e)) m vs1 = (m1, vs2)"
      "retry_pending (ve_cfg e) m1 vs2 = (m2, vs3)"
      "OnCheckResult env v ck result m =
         (put_entry v (e\<lparr>ve_state := vs3\<rparr>) m2)\<lparr>m_metrics :=
            emit (check_result_ops v (v_prefix (ve_cfg e)) (cks_cfg cs) result) (m_metrics m2)\<rparr>"
proof (cases "map_of (m_vips m) v")
  case None
  then show ?thesis by (intro same) (simp_all add: OnCheckResult_def)
next
  case e: (Some e)
  show ?thesis
  proof (cases "resolve_check (vs_checks (ve_state e)) ck")
    case None
    with e show ?thesis by (intro same) (simp_all add: OnCheckResult_def)
  next
    case (Some kc)
    obtain key cs where kc: "kc = (key, cs)" by (cases kc)
    define drain where "drain = lowerPriorityFilePresent env (pc_lower_priority_file (v_policy (ve_cfg e)))"
    define vs1 where "vs1 = (ve_state e)\<lparr>vs_checks := gm_put key (cs\<lparr>cks_last_result := result, cks_last_time := pe_now env\<rparr>)
        (vs_checks (ve_state e)), vs_lower_priority_file_on := drain\<rparr>"
    obtain m1 vs2 where r: "reevaluate_policy env (ve_cfg e) drain
        (drain \<noteq> vs_lower_priority_file_on (ve_state e)) m vs1 = (m1, vs2)" by force
    obtain m2 vs3 where q: "retry_pending (ve_cfg e) m1 vs2 = (m2, vs3)" by force
    have "OnCheckResult env v ck result m =
        (put_entry v (e\<lparr>ve_state := vs3\<rparr>) m2)\<lparr>m_metrics :=
            emit (check_result_ops v (v_prefix (ve_cfg e)) (cks_cfg cs) result) (m_metrics m2)\<rparr>"
      using e Some kc r q unfolding vs1_def drain_def by (simp add: OnCheckResult_def Let_def)
    then show ?thesis using e Some kc r q drain_def vs1_def by (intro recorded) auto
  qed
qed

lemma OnCheckResult_wf [wf_intros]:
  assumes wf: "mgr_wf m"
  shows "mgr_wf (OnCheckResult env v ck result m)"
proof (cases rule: OnCheckResult_cases [of env v ck result m])
  case same
  with wf show ?thesis by simp
next
  case (recorded e key cs drain vs1 m1 vs2 m2 vs3)
  have e: "entry_wf v e" "entry_ok e" "gauges_ok (m_metrics m) e"
    using mgr_wfD [OF wf] recorded(1) by auto
  have nm: "v_name (ve_cfg e) = v" using e(1) by (rule entry_wf_name)
  have k: "map_of (vs_checks (ve_state e)) key = Some cs"
    using resolve_check_Some [OF recorded(2)] e(1) by (simp add: entry_wf_def)
  note re = reevaluate_policy_vs [OF recorded(5)] and rt = retry_pending_frame [OF recorded(6)]
  have chk: "vs_checks vs3 = vs_checks vs1" "vs_state vs1 = vs_state (ve_state e)"
      "vs_health vs1 = vs_health (ve_state e)" "vs_lower_priority_file_on vs1 = drain"
    using re rt recorded(4) by auto
  have "combineHealth (ve_eval e) (vs_checks vs1) = combineHealth (ve_eval e) (vs_checks (ve_state e))"
    using recorded(4) by (intro combineHealth_cong) (simp add: health_map_put [OF k])
  then have "entry_ok (e\<lparr>ve_state := vs3\<rparr>)"
    using e(2) re rt chk by (auto simp: entry_ok_def)
  moreover have "entry_wf v (e\<lparr>ve_state := vs3\<rparr>)"
    using chk recorded(4) by (intro entry_wf_put_check [OF e(1) k]) auto
  moreover have "gauges_ok (m_metrics m2) (e\<lparr>ve_state := vs3\<rparr>)"
    using reevaluate_policy_gauges [OF recorded(5)] e(3) chk rt by (simp add: gauges_ok_def)
  ultimately show ?thesis
    using recorded(7) re rt reevaluate_policy_other_gauges [OF recorded(5)] nm
    by (intro mgr_wf_replace [OF wf recorded(1)]) (auto simp: gauges_ok_def check_result_ops_gauges)
qed

section \<open>Adding and removing VIPs\<close>

lemma newVIPEntry_names:
  "ev_names (ve_eval (newVIPEntry env v)) = map check_EffectiveName (CheckList v)"
  by (auto simp: newVIPEntry_def Let_def dest: CompileChecksPolicy_Inr(1) split: sum.splits)

lemma newVIPEntry_fields:
  "ve_cfg (newVIPEntry env v) = v" "vs_state (ve_state (newVIPEntry env v)) = StateWithdrawn"
  "vs_health (ve_state (newVIPEntry env v)) = HealthUnknown"
  "vs_bgp_pending (ve_state (newVIPEntry env v)) = False"
  "vs_checks (ve_state (newVIPEntry env v)) =
     fold (\<lambda>c m. gm_put (check_EffectiveName c)
        \<lparr>cks_cfg = c, cks_health = HealthUnknown, cks_last_result = zero_result, cks_last_time = 0\<rparr> m)
       (CheckList v) []"
  by (simp_all add: newVIPEntry_def Let_def)

lemma newVIPEntry_checks:
  assumes "(k, c) \<in> set (vs_checks (ve_state (newVIPEntry env v)))"
  shows "check_EffectiveName (cks_cfg c) = k" and "cks_health c = HealthUnknown"
  using assms by (auto simp: newVIPEntry_fields dest!: fold_put_mem [OF gm_wf_Nil])

lemma newVIPEntry_wf: "entry_wf (v_name v) (newVIPEntry env v)" "entry_ok (newVIPEntry env v)"
proof -
  have "gm_wf (vs_checks (ve_state (newVIPEntry env v)))"
    by (simp add: newVIPEntry_fields fold_put_wf)
  moreover have "set (gm_keys (vs_checks (ve_state (newVIPEntry env v)))) =
      set (map check_EffectiveName (CheckList v))"
    unfolding newVIPEntry_fields fold_put_keys by simp
  ultimately show "entry_wf (v_name v) (newVIPEntry env v)"
    unfolding entry_wf_def newVIPEntry_names by (auto simp: newVIPEntry_fields(1) newVIPEntry_checks simp del: set_map)
  have "list_ex (\<lambda>(n, c). cks_health c \<noteq> HealthUnknown) (vs_checks (ve_state (newVIPEntry env v))) = False"
    using newVIPEntry_checks(2) by (fastforce simp: list_ex_iff)
  then have "combineHealth (ve_eval (newVIPEntry env v)) (vs_checks (ve_state (newVIPEntry env v))) = HealthUnknown"
    by (simp only: combineHealth_def Let_def) simp
  then show "entry_ok (newVIPEntry env v)"
    by (simp add: entry_ok_def newVIPEntry_fields(3))
qed

lemma initial_gauges_ok:
  "series_value (emit (initial_gauges v) ml) VIPStateVec [n, p] =
     (if n = v_name v \<and> p = v_prefix v then Some (of_int (VIPState_int StateWithdrawn))
      else series_value ml VIPStateVec [n, p])"
  "series_value (emit (initial_gauges v) ml) VIPPriorityVec [n, p] =
     (if n = v_name v \<and> p = v_prefix v then Some (of_int (priorityFor (v_policy v) StateWithdrawn))
      else series_value ml VIPPriorityVec [n, p])"
  by (auto simp: initial_gauges_def)

lemma AddVIP_wf [wf_intros]:
  assumes wf: "mgr_wf m"
  shows "mgr_wf (AddVIP env v m)"
proof (cases "map_of (m_vips m) (v_name v) = None")
  case True
  have new: "v_name v \<notin> set (m_order m)"
    using True mgr_wfD(3) [OF wf] by (simp add: map_of_eq_None_iff)
  have "entry_wf n x \<and> entry_ok x \<and> gauges_ok (m_metrics (AddVIP env v m)) x"
    if "map_of (m_vips (AddVIP env v m)) n = Some x" for n x
  proof (cases "n = v_name v")
    case True
    then have "x = newVIPEntry env v" using that \<open>map_of (m_vips m) (v_name v) = None\<close>
      by (simp add: AddVIP_def gomap_simps)
    then show ?thesis
      using \<open>map_of (m_vips m) (v_name v) = None\<close> True newVIPEntry_wf
      by (simp add: AddVIP_def gauges_ok_def newVIPEntry_fields initial_gauges_ok)
  next
    case False
    then have x: "map_of (m_vips m) n = Some x" using that \<open>map_of (m_vips m) (v_name v) = None\<close>
      by (simp add: AddVIP_def gomap_simps)
    then show ?thesis
      using False \<open>map_of (m_vips m) (v_name v) = None\<close> mgr_wfD(4-6) [OF wf x] entry_wf_name
      by (auto simp: AddVIP_def gauges_ok_def initial_gauges_ok)
  qed
  then show ?thesis
    using True new mgr_wfD(1-3) [OF wf]
    by (auto simp: mgr_wf_def AddVIP_def gm_wf_put gm_keys_put simp del: set_map)
qed (use wf in \<open>simp add: AddVIP_def\<close>)

text \<open>With distinct names, starting is adding the VIPs one by one to an empty manager.\<close>

lemma NewManager_fold:
  fixes b :: 'b
  assumes "distinct (map v_name vs)"
  shows "NewManager env vs ml n b =
    fold (AddVIP env) vs \<lparr>m_vips = [], m_order = [], m_metrics = ml, m_notifier = n, m_bgp = b,
      m_on_transition = False, m_transition_calls = 0\<rparr>"
proof -
  have "fold (\<lambda>v m. m\<lparr>m_order := m_order m @ [v_name v], m_vips := gm_put (v_name v) (newVIPEntry env v) (m_vips m),
              m_metrics := emit (initial_gauges v) (m_metrics m)\<rparr>) vs m = fold (AddVIP env) vs m"
    if "distinct (map v_name vs)" "\<forall>v \<in> set vs. map_of (m_vips m) (v_name v) = None" for m :: "'b manager"
    using that
  proof (induction vs arbitrary: m)
    case (Cons v vs)
    have "AddVIP env v m = m\<lparr>m_order := m_order m @ [v_name v],
        m_vips := gm_put (v_name v) (newVIPEntry env v) (m_vips m),
        m_metrics := emit (initial_gauges v) (m_metrics m)\<rparr>"
      using Cons.prems by (simp add: AddVIP_def)
    moreover have "\<forall>w \<in> set vs. map_of (gm_put (v_name v) x (m_vips m)) (v_name w) = None" for x
      using Cons.prems by (auto simp: gomap_simps image_iff)
    ultimately show ?case using Cons.prems Cons.IH by simp
  qed simp
  from this [OF assms] show ?thesis by (simp add: NewManager_def)
qed

lemma NewManager_wf:
  fixes b :: 'b
  assumes "distinct (map v_name vs)"
  shows "mgr_wf (NewManager env vs ml n b)"
proof -
  have "mgr_wf (fold (AddVIP env) vs m)" if "mgr_wf m" for m :: "'b manager"
    using that by (induction vs arbitrary: m) (simp_all add: AddVIP_wf)
  moreover have "mgr_wf \<lparr>m_vips = [], m_order = [], m_metrics = ml, m_notifier = n, m_bgp = b,
      m_on_transition = False, m_transition_calls = 0\<rparr>"
    by (simp add: mgr_wf_def)
  ultimately show ?thesis by (simp add: NewManager_fold [OF assms])
qed

lemma forget_vip_wf:
  assumes wf: "mgr_wf m"
  shows "mgr_wf (forget_vip name m)"
proof -
  have "gauges_ok (emit (DeleteVIPSeries name) (m_metrics m)) x"
    if "map_of (m_vips m) n = Some x" "n \<noteq> name" for n x
  proof -
    have nm: "v_name (ve_cfg x) \<noteq> name" using mgr_wfD(4) [OF wf that(1)] entry_wf_name that(2) by blast
    then have "\<forall>op \<in> set (DeleteVIPSeries name). \<not> touches op VIPStateVec [v_name (ve_cfg x), v_prefix (ve_cfg x)]"
      "\<forall>op \<in> set (DeleteVIPSeries name). \<not> touches op VIPPriorityVec [v_name (ve_cfg x), v_prefix (ve_cfg x)]"
      by (auto simp: DeleteVIPSeries_def partial_match_def label_names_def)
    then show ?thesis using mgr_wfD(6) [OF wf that(1)] by (simp add: gauges_ok_def series_value_emit_untouched)
  qed
  then show ?thesis
    using mgr_wfD [OF wf]
    by (auto simp: mgr_wf_def forget_vip_def gm_wf_del gm_keys_del gomap_simps simp del: set_map split: if_splits)
qed

lemma mgr_wf_bgp [simp]: "mgr_wf (m\<lparr>m_bgp := b\<rparr>) = mgr_wf m"
  by (simp add: mgr_wf_def)

lemma RemoveVIP_wf [wf_intros]: "mgr_wf m \<Longrightarrow> mgr_wf (snd (RemoveVIP name m))"
  by (simp add: RemoveVIP_def Let_def forget_vip_wf split: option.split prod.split)

section \<open>Committing a new definition\<close>

definition checks_named :: "(string, check_state) gomap \<Rightarrow> bool" where
  "checks_named cs \<longleftrightarrow> gm_wf cs \<and> (\<forall>(k, c) \<in> set cs. check_EffectiveName (cks_cfg c) = k)"

lemma checks_named_put:
  "checks_named cs \<Longrightarrow> check_EffectiveName (cks_cfg c) = k \<Longrightarrow> checks_named (gm_put k c cs)"
  by (auto simp: checks_named_def gm_wf_put in_set_put_iff split: if_splits)

lemma commit_checks_running:
  assumes "commit_checks seeds cs (running, nxt) = (missing, running', nxt')" and "checks_named running"
  shows "checks_named running'" and "gm_keys running' = gm_keys running"
    and "map (\<lambda>(n, c). (n, cks_health c)) running' = map (\<lambda>(n, c). (n, cks_health c)) running"
  using assms
  by (induction seeds cs "(running, nxt)" arbitrary: running nxt rule: commit_checks.induct)
    (auto simp: Let_def checks_named_put health_map_put gm_keys_put_known split: option.splits)

lemma commit_checks_next:
  assumes "commit_checks seeds cs (running, nxt) = (missing, running', nxt')" and "checks_named nxt"
  shows "checks_named nxt'"
    and "missing = None \<Longrightarrow> set (gm_keys nxt') = set (gm_keys nxt) \<union> check_EffectiveName ` set cs"
  using assms
  by (induction seeds cs "(running, nxt)" arbitrary: running nxt rule: commit_checks.induct)
    (auto simp: Let_def checks_named_put gm_keys_put simp del: set_map split: option.splits)

lemma commit_switch_vs:
  assumes "commit_switch env cfg eval nxt old m vs = (m', vs')"
  shows "vs_checks vs' = nxt" and "vs_health vs' = combineHealth eval nxt"
    and "vs_health vs' \<noteq> HealthUnknown \<Longrightarrow>
           vs_state vs' = Evaluate (vs_health vs' = HealthHealthy) (vs_lower_priority_file_on vs') (v_policy cfg)"
    and "vs_health vs' = HealthUnknown \<Longrightarrow> vs_state vs' = vs_state vs"
    and "m_vips m' = m_vips m" and "m_order m' = m_order m" and "m_notifier m' = m_notifier m"
  using assms
  by (auto simp: commit_switch_def Let_def transitionStateLocked_vs transitionStateLocked_frame
      split: if_splits option.splits prod.splits)

lemma commit_switch_gauges:
  assumes "commit_switch env cfg eval nxt old m vs = (m', vs')"
    and "series_value (m_metrics m) VIPStateVec [v_name cfg, v_prefix cfg] = Some (of_int (VIPState_int (vs_state vs)))"
  shows "series_value (m_metrics m') VIPStateVec [v_name cfg, v_prefix cfg] =
           Some (of_int (VIPState_int (vs_state vs')))"
    and "series_value (m_metrics m') VIPPriorityVec [v_name cfg, v_prefix cfg] =
           Some (of_int (priorityFor (v_policy cfg) (vs_state vs')))"
  using assms
  by (auto simp: commit_switch_def Let_def transitionStateLocked_vs transitionStateLocked_gauges
      split: if_splits option.splits prod.splits)

lemma commit_switch_other_gauges:
  assumes "commit_switch env cfg eval nxt old m vs = (m', vs')" and "n \<noteq> v_name cfg"
  shows "series_value (m_metrics m') VIPStateVec [n, p] = series_value (m_metrics m) VIPStateVec [n, p]"
    and "series_value (m_metrics m') VIPPriorityVec [n, p] = series_value (m_metrics m) VIPPriorityVec [n, p]"
  using assms
  by (auto simp: commit_switch_def Let_def transitionStateLocked_other_gauges
      split: if_splits option.splits prod.splits)

lemma DeleteCheckSeries_gauges:
  "series_value (emit (concat (map (DeleteCheckSeries v) names)) ml) VIPStateVec l = series_value ml VIPStateVec l"
  "series_value (emit (concat (map (DeleteCheckSeries v) names)) ml) VIPPriorityVec l = series_value ml VIPPriorityVec l"
  by (rule series_value_emit_untouched;
      auto simp: DeleteCheckSeries_def partial_match_def label_names_def dest: set_zip_leftD)+

text \<open>
  What a commit does: it refuses and changes nothing, it refuses after the loop over the checks, or
  it switches to the new definition.
\<close>

lemma CommitVIP_cases:
  obtains (refused) err where "CommitVIP env cfg seeds m = (Some err, m)"
      "map_of (m_vips m) (v_name cfg) = None \<or>
       (\<exists>e. map_of (m_vips m) (v_name cfg) = Some e \<and> v_prefix (ve_cfg e) \<noteq> v_prefix cfg)"
  | (failed) e missing running nxt err ops where "map_of (m_vips m) (v_name cfg) = Some e"
      "v_prefix (ve_cfg e) = v_prefix cfg"
      "commit_checks seeds (CheckList cfg) (vs_checks (ve_state e), []) = (missing, running, nxt)"
      "missing \<noteq> None \<or> (\<exists>ce. CompileChecksPolicy (pe_expr env) (EffectiveChecksPolicy cfg)
         (map check_EffectiveName (CheckList cfg)) = Inl ce)"
      "ops = (if missing = None then concat (map (DeleteCheckSeries (v_name cfg))
         (filter (\<lambda>name. map_of nxt name = None) (gm_keys running))) else [])"
      "CommitVIP env cfg seeds m =
         (Some err, (put_entry (v_name cfg) (e\<lparr>ve_state := (ve_state e)\<lparr>vs_checks := running\<rparr>\<rparr>) m)
            \<lparr>m_metrics := emit ops (m_metrics m)\<rparr>)"
  | (switched) e running nxt eval vs1 m2 m3 vs2 where "map_of (m_vips m) (v_name cfg) = Some e"
      "v_prefix (ve_cfg e) = v_prefix cfg"
      "commit_checks seeds (CheckList cfg) (vs_checks (ve_state e), []) = (None, running, nxt)"
      "CompileChecksPolicy (pe_expr env) (EffectiveChecksPolicy cfg)
         (map check_EffectiveName (CheckList cfg)) = Inr eval"
      "vs1 = (ve_state e)\<lparr>vs_checks := running\<rparr>"
      "m2 = (put_entry (v_name cfg) (e\<lparr>ve_state := vs1\<rparr>) m)
         \<lparr>m_metrics := emit (concat (map (DeleteCheckSeries (v_name cfg))
            (filter (\<lambda>name. map_of nxt name = None) (gm_keys running)))) (m_metrics m)\<rparr>"
      "commit_switch env cfg eval nxt (ve_cfg e) m2 vs1 = (m3, vs2)"
      "CommitVIP env cfg seeds m =
         (None, put_entry (v_name cfg) \<lparr>ve_cfg = cfg, ve_eval = eval, ve_state = vs2\<rparr> m3)"
proof (cases "map_of (m_vips m) (v_name cfg)")
  case None
  then show ?thesis by (intro refused) (auto simp: CommitVIP_def)
next
  case e: (Some e)
  show ?thesis
  proof (cases "v_prefix (ve_cfg e) = v_prefix cfg")
    case False
    with e show ?thesis by (intro refused) (auto simp: CommitVIP_def)
  next
    case p: True
    obtain missing running nxt where c: "commit_checks seeds (CheckList cfg) (vs_checks (ve_state e), []) =
        (missing, running, nxt)" by (metis prod_cases3)
    show ?thesis
    proof (cases missing)
      case (Some name)
      with e p c show ?thesis
        by (intro failed [OF e p c, of "[]"]) (auto simp: CommitVIP_def Let_def put_entry_def)
    next
      case miss: None
      show ?thesis
      proof (cases "CompileChecksPolicy (pe_expr env) (EffectiveChecksPolicy cfg)
          (map check_EffectiveName (CheckList cfg))")
        case (Inl ce)
        with e p c miss show ?thesis
          by (intro failed [OF e p c]) (auto simp: CommitVIP_def Let_def put_entry_def)
      next
        case (Inr eval)
        define vs1 where "vs1 = (ve_state e)\<lparr>vs_checks := running\<rparr>"
        define m2 where "m2 = (put_entry (v_name cfg) (e\<lparr>ve_state := vs1\<rparr>) m)
         \<lparr>m_metrics := emit (concat (map (DeleteCheckSeries (v_name cfg))
            (filter (\<lambda>name. map_of nxt name = None) (gm_keys running)))) (m_metrics m)\<rparr>"
        obtain m3 vs2 where sw: "commit_switch env cfg eval nxt (ve_cfg e) m2 vs1 = (m3, vs2)" by force
        with e p c miss Inr show ?thesis unfolding vs1_def m2_def
          by (intro switched [OF e p _ Inr vs1_def m2_def sw])
            (auto simp: CommitVIP_def Let_def vs1_def m2_def put_entry_def)
      qed
    qed
  qed
qed

lemma CommitVIP_wf [wf_intros]:
  assumes wf: "mgr_wf m"
  shows "mgr_wf (snd (CommitVIP env cfg seeds m))"
proof (cases rule: CommitVIP_cases [of env cfg seeds m])
  case (refused err)
  with wf show ?thesis by simp
next
  case (failed e missing running nxt err ops)
  have e: "entry_wf (v_name cfg) e" "entry_ok e" "gauges_ok (m_metrics m) e"
    using mgr_wfD [OF wf] failed(1) by auto
  have named: "checks_named (vs_checks (ve_state e))"
    using e(1) by (simp add: entry_wf_def checks_named_def)
  note run = commit_checks_running [OF failed(3) named]
  have "entry_wf (v_name cfg) (e\<lparr>ve_state := (ve_state e)\<lparr>vs_checks := running\<rparr>\<rparr>)"
    using e(1) run by (simp add: entry_wf_def checks_named_def del: set_map)
  moreover have "entry_ok (e\<lparr>ve_state := (ve_state e)\<lparr>vs_checks := running\<rparr>\<rparr>)"
    using e(2) combineHealth_cong [OF run(3)] by (simp add: entry_ok_def)
  ultimately show ?thesis
    using e(3) failed(5,6)
    by (intro mgr_wf_replace [OF wf failed(1)]) (auto simp: gauges_ok_def DeleteCheckSeries_gauges)
next
  case (switched e running nxt eval vs1 m2 m3 vs2)
  have e: "entry_wf (v_name cfg) e" "gauges_ok (m_metrics m) e"
    using mgr_wfD [OF wf] switched(1) by auto
  note nx = commit_checks_next [OF switched(3), unfolded checks_named_def, simplified]
  note sw = commit_switch_vs [OF switched(7)]
  define new where "new = \<lparr>ve_cfg = cfg, ve_eval = eval, ve_state = vs2\<rparr>"
  have wf': "entry_wf (v_name cfg) new"
    using nx sw CompileChecksPolicy_Inr(1) [OF switched(4)] by (auto simp: entry_wf_def new_def)
  have ok': "entry_ok new" using sw by (auto simp: entry_ok_def new_def)
  have st: "series_value (m_metrics m2) VIPStateVec [v_name cfg, v_prefix cfg] =
      Some (of_int (VIPState_int (vs_state vs1)))"
    using e(2) switched(2,5,6) entry_wf_name [OF e(1)] by (simp add: gauges_ok_def DeleteCheckSeries_gauges)
  have g': "gauges_ok (m_metrics m3) new"
    using commit_switch_gauges [OF switched(7) st] by (simp add: gauges_ok_def new_def)
  have vips: "m_vips m3 = gm_put (v_name cfg) (e\<lparr>ve_state := vs1\<rparr>) (m_vips m)" "m_order m3 = m_order m"
    using sw switched(6) by auto
  show ?thesis
    using wf' ok' g' switched(6,8) vips commit_switch_other_gauges [OF switched(7)]
    by (intro mgr_wf_replace [OF wf switched(1), of _ new])
      (auto simp: new_def DeleteCheckSeries_gauges AList.update_triv)
qed

section \<open>Status\<close>

lemma statuses_loop_known:
  assumes "\<forall>n \<in> set names. map_of vips n \<noteq> None"
  shows "statuses_loop vips names out =
    Ret (out @ map (\<lambda>n. vip_status_of n (the (map_of vips n))) names)"
  using assms by (induction names arbitrary: out) auto

lemma GetVIPStatuses_known:
  assumes "mgr_wf m"
  shows "GetVIPStatuses m = Ret (map (\<lambda>n. vip_status_of n (the (map_of (m_vips m) n))) (m_order m))"
proof -
  have "\<forall>n \<in> set (m_order m). map_of (m_vips m) n \<noteq> None"
    using mgr_wfD(3) [OF assms] by (simp add: map_of_eq_None_iff)
  then show ?thesis by (simp add: GetVIPStatuses_def statuses_loop_known)
qed

end
