(* ===== verification/Policy_Routes.thy ===== *)
theory Policy_Routes
  imports Policy_Wf
begin

text \<open>
  What the policy manager guarantees about the routes its notifier has installed.

  The locale \<open>bgp_contract\<close> states what the manager relies on: an operation that reports success has
  installed (or removed) the route of its prefix, and no operation touches the route of another
  prefix. Inside it the operations of the manager are shown to keep \<open>routes_ok\<close>: unless an operation
  is marked pending, the route installed for a VIP is the one its state calls for, and no route is
  left that no VIP owns. The BGP manager provides the contract in \<open>Bgp_Contract\<close>.
\<close>

section \<open>Steps of the manager\<close>

text \<open>
  The exported methods that change the manager, in any order and with any arguments: the schedulers
  call the first two, a reload the other three.
\<close>

inductive mgr_step :: "'b manager \<Rightarrow> 'b manager \<Rightarrow> bool" where
  health: "mgr_step m (OnHealthTransition env t m)"
| result: "mgr_step m (OnCheckResult env v ck res m)"
| add: "mgr_step m (AddVIP env cfg m)"
| remove: "mgr_step m (snd (RemoveVIP name m))"
| commit: "mgr_step m (snd (CommitVIP env cfg seeds m))"

lemma mgr_step_wf: "mgr_step m m' \<Longrightarrow> mgr_wf m \<Longrightarrow> mgr_wf m'"
  by (induction rule: mgr_step.induct) (simp_all add: wf_intros)

lemma mgr_steps_wf: "mgr_step\<^sup>*\<^sup>* m m' \<Longrightarrow> mgr_wf m \<Longrightarrow> mgr_wf m'"
  by (induction rule: rtranclp_induct) (simp_all add: mgr_step_wf)

text \<open>
  The steps after which the routes are right. The guards are what a reload must respect: an added
  VIP does not share its prefix with another; a VIP is not removed while a withdraw of it is pending;
  a commit ends with a known health, or of a withdrawn VIP, or with unchanged attributes.
\<close>

definition add_safe :: "(string \<Rightarrow> string \<Rightarrow> bool) \<Rightarrow> vip_config \<Rightarrow> 'b manager \<Rightarrow> bool" where
  "add_safe same cfg m \<longleftrightarrow>
     (\<forall>(name, e) \<in> set (m_vips m).
        \<not> same (v_prefix (ve_cfg e)) (v_prefix cfg) \<and> \<not> same (v_prefix cfg) (v_prefix (ve_cfg e)))"

definition remove_safe :: "string \<Rightarrow> 'b manager \<Rightarrow> bool" where
  "remove_safe name m \<longleftrightarrow>
     (case map_of (m_vips m) name of None \<Rightarrow> True
      | Some e \<Rightarrow> vs_state (ve_state e) = StateWithdrawn \<longrightarrow> \<not> vs_bgp_pending (ve_state e))"

definition commit_safe :: "vip_config \<Rightarrow> 'b manager \<Rightarrow> go_error option \<times> 'b manager \<Rightarrow> bool" where
  "commit_safe cfg m out \<longleftrightarrow>
     (case (map_of (m_vips m) (v_name cfg), out) of
        (Some e, (None, m')) \<Rightarrow>
          (case map_of (m_vips m') (v_name cfg) of None \<Rightarrow> True
           | Some e' \<Rightarrow> vs_health (ve_state e') \<noteq> HealthUnknown \<or> vs_state (ve_state e) = StateWithdrawn \<or>
               RouteAttrsFor (v_policy (ve_cfg e)) (vs_state (ve_state e)) =
                 RouteAttrsFor (v_policy cfg) (vs_state (ve_state e)))
      | _ \<Rightarrow> True)"

inductive safe_step :: "(string \<Rightarrow> string \<Rightarrow> bool) \<Rightarrow> 'b manager \<Rightarrow> 'b manager \<Rightarrow> bool"
  for same :: "string \<Rightarrow> string \<Rightarrow> bool" where
  health: "safe_step same m (OnHealthTransition env t m)"
| result: "safe_step same m (OnCheckResult env v ck res m)"
| add: "add_safe same cfg m \<Longrightarrow> safe_step same m (AddVIP env cfg m)"
| remove: "remove_safe name m \<Longrightarrow> RemoveVIP name m = (err, m') \<Longrightarrow> safe_step same m m'"
| commit: "CommitVIP env cfg seeds m = (err, m') \<Longrightarrow> commit_safe cfg m (err, m') \<Longrightarrow> safe_step same m m'"

section \<open>The notifier contract\<close>

locale bgp_contract =
  fixes n :: "'b bgp_notifier"
    and route :: "'b \<Rightarrow> string \<Rightarrow> 'r option"
    and mk :: "string \<Rightarrow> route_attrs \<Rightarrow> 'r option"
    and binv :: "'b \<Rightarrow> bool"
    and same :: "string \<Rightarrow> string \<Rightarrow> bool"
  assumes announce_ok:
      "binv b \<Longrightarrow> bn_AnnounceVIP n p a b = (None, b') \<Longrightarrow> mk p a \<noteq> None \<and> route b' p = mk p a"
    and pessimize_ok:
      "binv b \<Longrightarrow> bn_PessimizeVIP n p a b = (None, b') \<Longrightarrow> mk p a \<noteq> None \<and> route b' p = mk p a"
    and withdraw_ok: "binv b \<Longrightarrow> bn_WithdrawVIP n p b = (None, b') \<Longrightarrow> route b' p = None"
    and withdraw_err: "binv b \<Longrightarrow> bn_WithdrawVIP n p b = (Some e, b') \<Longrightarrow> route b' p = route b p"
    and announce_frame: "binv b \<Longrightarrow> bn_AnnounceVIP n p a b = (err, b') \<Longrightarrow>
      binv b' \<and> (\<forall>q. \<not> same p q \<longrightarrow> route b' q = route b q)"
    and pessimize_frame: "binv b \<Longrightarrow> bn_PessimizeVIP n p a b = (err, b') \<Longrightarrow>
      binv b' \<and> (\<forall>q. \<not> same p q \<longrightarrow> route b' q = route b q)"
    and withdraw_frame: "binv b \<Longrightarrow> bn_WithdrawVIP n p b = (err, b') \<Longrightarrow>
      binv b' \<and> (\<forall>q. \<not> same p q \<longrightarrow> route b' q = route b q)"
    and same_route: "same p q \<Longrightarrow> route b q = route b p"
begin

text \<open>The route a state calls for.\<close>

definition want :: "vip_config \<Rightarrow> VIPState \<Rightarrow> 'r option" where
  "want cfg st = (if st = StateWithdrawn then None else mk (v_prefix cfg) (RouteAttrsFor (v_policy cfg) st))"

definition settled :: "'b \<Rightarrow> vip_config \<Rightarrow> vip_state \<Rightarrow> bool" where
  "settled b cfg vs \<longleftrightarrow> vs_bgp_pending vs \<or>
     route b (v_prefix cfg) = want cfg (vs_state vs) \<and>
     (vs_state vs \<noteq> StateWithdrawn \<longrightarrow> want cfg (vs_state vs) \<noteq> None)"

definition frame :: "string \<Rightarrow> 'b \<Rightarrow> 'b \<Rightarrow> bool" where
  "frame p b b' \<longleftrightarrow> binv b' \<and> (\<forall>q. \<not> same p q \<longrightarrow> route b' q = route b q)"

definition routes_ok :: "'b manager \<Rightarrow> bool" where
  "routes_ok m \<longleftrightarrow> m_notifier m = Some n \<and> binv (m_bgp m) \<and>
     (\<forall>name e. map_of (m_vips m) name = Some e \<longrightarrow> settled (m_bgp m) (ve_cfg e) (ve_state e)) \<and>
     (\<forall>n1 n2 e1 e2. map_of (m_vips m) n1 = Some e1 \<longrightarrow> map_of (m_vips m) n2 = Some e2 \<longrightarrow> n1 \<noteq> n2 \<longrightarrow>
        \<not> same (v_prefix (ve_cfg e1)) (v_prefix (ve_cfg e2))) \<and>
     (\<forall>q. (\<forall>name e. map_of (m_vips m) name = Some e \<longrightarrow> \<not> same (v_prefix (ve_cfg e)) q) \<longrightarrow>
        route (m_bgp m) q = None)"

lemma routes_okD:
  assumes "routes_ok m"
  shows "m_notifier m = Some n" and "binv (m_bgp m)"
    and "map_of (m_vips m) name = Some e \<Longrightarrow> settled (m_bgp m) (ve_cfg e) (ve_state e)"
    and "map_of (m_vips m) n1 = Some e1 \<Longrightarrow> map_of (m_vips m) n2 = Some e2 \<Longrightarrow> n1 \<noteq> n2 \<Longrightarrow>
           \<not> same (v_prefix (ve_cfg e1)) (v_prefix (ve_cfg e2))"
    and "(\<And>name e. map_of (m_vips m) name = Some e \<Longrightarrow> \<not> same (v_prefix (ve_cfg e)) q) \<Longrightarrow>
           route (m_bgp m) q = None"
  using assms unfolding routes_ok_def by blast+

lemma frame_refl: "binv b \<Longrightarrow> frame p b b"
  by (simp add: frame_def)

lemma frame_trans: "frame p b b' \<Longrightarrow> frame p b' b'' \<Longrightarrow> frame p b b''"
  by (simp add: frame_def)

text \<open>The three operations behind \<open>applyBGP\<close>.\<close>

lemma applyBGP_frame:
  "binv b \<Longrightarrow> applyBGP n cfg st b = (err, b') \<Longrightarrow> frame (v_prefix cfg) b b'"
  by (auto simp: applyBGP_def frame_def split: VIPState.splits
      dest: announce_frame pessimize_frame withdraw_frame)

lemma applyBGP_settled:
  assumes "binv b" and "applyBGP n cfg (vs_state vs) b = (None, b')"
  shows "settled b' cfg vs"
  using assms(2) announce_ok [OF assms(1)] pessimize_ok [OF assms(1)] withdraw_ok [OF assms(1)]
  by (auto simp: applyBGP_def settled_def want_def split: VIPState.splits)

lemma transition_settled:
  assumes "m_notifier m = Some n" and "binv (m_bgp m)"
    and tr: "transitionStateLocked env cfg ns reason m vs = (m', vs')"
    and "ns = vs_state vs \<longrightarrow> settled (m_bgp m) cfg vs"
  shows "frame (v_prefix cfg) (m_bgp m) (m_bgp m')" and "settled (m_bgp m') cfg vs'"
proof -
  obtain err b' where ab: "applyBGP n cfg ns (m_bgp m) = (err, b')" by force
  have "frame (v_prefix cfg) (m_bgp m) (m_bgp m') \<and> settled (m_bgp m') cfg vs'"
  proof (cases "ns = vs_state vs")
    case True
    then have "m' = m" "vs' = vs" using tr by (simp_all add: transitionStateLocked_def)
    then show ?thesis using True assms(2,4) by (simp add: frame_refl)
  next
    case False
    have out: "m_bgp m' = b'" "vs_bgp_pending vs' = (err \<noteq> None)"
      using transitionStateLocked_bgp [OF tr False assms(1) ab] by auto
    moreover have "applyBGP n cfg (vs_state vs') (m_bgp m) = (err, b')"
      using ab transitionStateLocked_vs(1) [OF tr] by simp
    ultimately have "settled (m_bgp m') cfg vs'"
      using applyBGP_settled [OF assms(2)] by (cases err) (auto simp: settled_def)
    then show ?thesis using applyBGP_frame [OF assms(2) ab] out by simp
  qed
  then show "frame (v_prefix cfg) (m_bgp m) (m_bgp m')" "settled (m_bgp m') cfg vs'" by auto
qed

text \<open>The shared step: one VIP changes, its prefix stays, the routes of the others are untouched.\<close>

lemma routes_ok_replace:
  assumes ok: "routes_ok m" and "map_of (m_vips m) name = Some e0"
    and "m_vips m' = gm_put name e (m_vips m)" and "m_notifier m' = m_notifier m"
    and "v_prefix (ve_cfg e) = v_prefix (ve_cfg e0)"
    and fr: "frame (v_prefix (ve_cfg e0)) (m_bgp m) (m_bgp m')"
    and "settled (m_bgp m') (ve_cfg e) (ve_state e)"
  shows "routes_ok m'"
proof -
  have look: "map_of (m_vips m') k = (if k = name then Some e else map_of (m_vips m) k)" for k
    using assms(3) by (simp add: gomap_simps)
  have pre: "\<exists>e'. map_of (m_vips m) k = Some e' \<and> v_prefix (ve_cfg e') = v_prefix (ve_cfg x)"
    if "map_of (m_vips m') k = Some x" for k x
    using that assms(2,5) by (auto simp: look split: if_splits)
  have keep: "settled (m_bgp m') (ve_cfg x) (ve_state x)" if "map_of (m_vips m') k = Some x" for k x
  proof (cases "k = name")
    case False
    then have "map_of (m_vips m) k = Some x" using that by (simp add: look)
    then show ?thesis
      using False fr routes_okD(3) [OF ok] routes_okD(4) [OF ok assms(2), of k x]
      by (auto simp: frame_def settled_def)
  qed (use that assms(7) in \<open>simp add: look\<close>)
  have dis: "\<not> same (v_prefix (ve_cfg e1)) (v_prefix (ve_cfg e2))"
    if "map_of (m_vips m') n1 = Some e1" "map_of (m_vips m') n2 = Some e2" "n1 \<noteq> n2" for n1 n2 e1 e2
    using pre [OF that(1)] pre [OF that(2)] routes_okD(4) [OF ok] that(3) by metis
  have orph: "route (m_bgp m') q = None"
    if q: "\<forall>k x. map_of (m_vips m') k = Some x \<longrightarrow> \<not> same (v_prefix (ve_cfg x)) q" for q
  proof -
    have "\<not> same (v_prefix (ve_cfg x)) q" if "map_of (m_vips m) k = Some x" for k x
      using that q [rule_format, of k] q [rule_format, of name e] assms(2,5)
      by (cases "k = name") (auto simp: look)
    then show ?thesis using routes_okD(5) [OF ok] assms(2) fr by (auto simp: frame_def)
  qed
  have "binv (m_bgp m')" "m_notifier m' = Some n"
    using fr assms(4) routes_okD(1) [OF ok] by (simp_all add: frame_def)
  then show ?thesis unfolding routes_ok_def using keep dis orph by blast
qed

lemma OnHealthTransition_routes:
  assumes ok: "routes_ok m"
  shows "routes_ok (OnHealthTransition env t m)"
proof (cases rule: OnHealthTransition_cases [of env t m])
  case same
  with ok show ?thesis by simp
next
  case (recorded e key cs vs1)
  have "settled (m_bgp m) (ve_cfg e) vs1"
    using routes_okD(3) [OF ok recorded(1)] recorded(3) by (simp add: settled_def)
  then show ?thesis
    using recorded(5) routes_okD(2) [OF ok]
    by (intro routes_ok_replace [OF ok recorded(1), of _ "e\<lparr>ve_state := vs1\<rparr>"]) (auto simp: frame_refl)
next
  case (evaluated e key cs vs1 vs2 drain reason m1 vs3)
  have "settled (m_bgp m) (ve_cfg e) vs2"
    using routes_okD(3) [OF ok evaluated(1)] evaluated(3,6) by (simp add: settled_def)
  note tr = transition_settled [OF routes_okD(1,2) [OF ok] evaluated(7)] and fr = transitionStateLocked_frame [OF evaluated(7)]
  show ?thesis
    using evaluated(8) tr fr \<open>settled (m_bgp m) (ve_cfg e) vs2\<close>
    by (intro routes_ok_replace [OF ok evaluated(1), of _ "e\<lparr>ve_state := vs3\<rparr>"]) auto
qed

lemma retry_settled:
  assumes "m_notifier m = Some n" and "binv (m_bgp m)" and "settled (m_bgp m) cfg vs"
    and "retry_pending cfg m vs = (m', vs')"
  shows "frame (v_prefix cfg) (m_bgp m) (m_bgp m') \<and> settled (m_bgp m') cfg vs'"
proof -
  obtain err b' where ab: "applyBGP n cfg (vs_state vs) (m_bgp m) = (err, b')" by force
  show ?thesis
  proof (cases "vs_bgp_pending vs")
    case True
    have s: "err = None \<Longrightarrow> settled b' cfg (vs\<lparr>vs_bgp_pending := False\<rparr>)"
      using ab assms(2) by (intro applyBGP_settled) auto
    show ?thesis
      using assms(1,4) True ab s applyBGP_frame [OF assms(2) ab]
      by (cases err) (auto simp: retry_pending_def settled_def)
  qed (use assms in \<open>auto simp: retry_pending_def frame_refl\<close>)
qed

lemma OnCheckResult_routes:
  assumes ok: "routes_ok m"
  shows "routes_ok (OnCheckResult env v ck result m)"
proof (cases rule: OnCheckResult_cases [of env v ck result m])
  case same
  with ok show ?thesis by simp
next
  case (recorded e key cs drain vs1 m1 vs2 m2 vs3)
  have s1: "settled (m_bgp m) (ve_cfg e) vs1"
    using routes_okD(3) [OF ok recorded(1)] recorded(4) by (simp add: settled_def)
  have re: "frame (v_prefix (ve_cfg e)) (m_bgp m) (m_bgp m1) \<and> settled (m_bgp m1) (ve_cfg e) vs2"
    using recorded(5)
  proof (cases rule: reevaluate_policy_cases)
    case unknown
    then show ?thesis using s1 routes_okD(2) [OF ok] by (simp add: frame_refl)
  next
    case (known reason)
    then show ?thesis using transition_settled [OF routes_okD(1,2) [OF ok] known(2)] s1 by simp
  qed
  have m1: "m_notifier m1 = Some n" "m_vips m1 = m_vips m"
    using reevaluate_policy_vs [OF recorded(5)] routes_okD(1) [OF ok] by auto
  have rt: "frame (v_prefix (ve_cfg e)) (m_bgp m1) (m_bgp m2) \<and> settled (m_bgp m2) (ve_cfg e) vs3"
    using re m1 by (intro retry_settled [OF _ _ _ recorded(6)]) (auto simp: frame_def)
  show ?thesis
    using recorded(7) re rt m1 retry_pending_frame [OF recorded(6)] routes_okD(1) [OF ok] frame_trans
    by (intro routes_ok_replace [OF ok recorded(1), of _ "e\<lparr>ve_state := vs3\<rparr>"]) auto
qed

lemma AddVIP_routes:
  assumes ok: "routes_ok m"
    and "\<And>name e. map_of (m_vips m) name = Some e \<Longrightarrow>
           \<not> same (v_prefix (ve_cfg e)) (v_prefix cfg) \<and> \<not> same (v_prefix cfg) (v_prefix (ve_cfg e))"
  shows "routes_ok (AddVIP env cfg m)"
proof (cases "map_of (m_vips m) (v_name cfg) = None")
  case True
  have new: "route (m_bgp m) (v_prefix cfg) = None" using routes_okD(5) [OF ok] assms(2) by blast
  have look: "map_of (m_vips (AddVIP env cfg m)) k =
      (if k = v_name cfg then Some (newVIPEntry env cfg) else map_of (m_vips m) k)" for k
    using True by (simp add: AddVIP_def gomap_simps)
  have keep: "settled (m_bgp m) (ve_cfg x) (ve_state x)"
    if "map_of (m_vips (AddVIP env cfg m)) k = Some x" for k x
  proof (cases "k = v_name cfg")
    case True
    then show ?thesis using that new by (auto simp: look settled_def want_def newVIPEntry_fields)
  next
    case False
    then show ?thesis using that routes_okD(3) [OF ok] by (simp add: look)
  qed
  have dis: "\<not> same (v_prefix (ve_cfg e1)) (v_prefix (ve_cfg e2))"
    if "map_of (m_vips (AddVIP env cfg m)) n1 = Some e1" "map_of (m_vips (AddVIP env cfg m)) n2 = Some e2" "n1 \<noteq> n2"
    for n1 n2 e1 e2
    using that assms(2) routes_okD(4) [OF ok] by (auto simp: look newVIPEntry_fields split: if_splits)
  have orph: "route (m_bgp m) q = None"
    if q: "\<forall>k x. map_of (m_vips (AddVIP env cfg m)) k = Some x \<longrightarrow> \<not> same (v_prefix (ve_cfg x)) q" for q
  proof (rule routes_okD(5) [OF ok])
    fix k x assume "map_of (m_vips m) k = Some x"
    then show "\<not> same (v_prefix (ve_cfg x)) q" using q [rule_format, of k x] True by (cases "k = v_name cfg") (auto simp: look)
  qed
  have "m_bgp (AddVIP env cfg m) = m_bgp m" "m_notifier (AddVIP env cfg m) = Some n"
    using routes_okD(1) [OF ok] by (simp_all add: AddVIP_def)
  then show ?thesis
    unfolding routes_ok_def using keep dis orph routes_okD(2) [OF ok] by (simp only:) blast
qed (use ok in \<open>simp add: AddVIP_def\<close>)

lemma forget_routes:
  assumes ok: "routes_ok m" and e: "map_of (m_vips m) name = Some e"
    and fr: "frame (v_prefix (ve_cfg e)) (m_bgp m) b'" and gone: "route b' (v_prefix (ve_cfg e)) = None"
  shows "routes_ok (forget_vip name (m\<lparr>m_bgp := b'\<rparr>))"
proof -
  let ?m = "forget_vip name (m\<lparr>m_bgp := b'\<rparr>)"
  have look: "map_of (m_vips ?m) k = (if k = name then None else map_of (m_vips m) k)" for k
    by (simp add: forget_vip_def gomap_simps)
  have keep: "settled b' (ve_cfg x) (ve_state x)" if "map_of (m_vips ?m) k = Some x" for k x
  proof -
    have "k \<noteq> name" "map_of (m_vips m) k = Some x" using that by (simp_all add: look split: if_splits)
    then show ?thesis
      using fr routes_okD(3) [OF ok] routes_okD(4) [OF ok e, of k x] by (auto simp: frame_def settled_def)
  qed
  have orph: "route b' q = None"
    if q: "\<forall>k x. map_of (m_vips ?m) k = Some x \<longrightarrow> \<not> same (v_prefix (ve_cfg x)) q" for q
  proof (cases "same (v_prefix (ve_cfg e)) q")
    case True
    then show ?thesis using same_route gone by metis
  next
    case False
    then have "\<not> same (v_prefix (ve_cfg x)) q" if "map_of (m_vips m) k = Some x" for k x
      using that q [rule_format, of k x] e by (cases "k = name") (auto simp: look)
    then have "route (m_bgp m) q = None" by (rule routes_okD(5) [OF ok])
    then show ?thesis using False fr by (simp add: frame_def)
  qed
  have "m_bgp ?m = b'" "m_notifier ?m = Some n" "binv b'"
    using routes_okD(1) [OF ok] fr by (simp_all add: forget_vip_def frame_def)
  moreover have "\<not> same (v_prefix (ve_cfg e1)) (v_prefix (ve_cfg e2))"
    if "map_of (m_vips ?m) n1 = Some e1" "map_of (m_vips ?m) n2 = Some e2" "n1 \<noteq> n2" for n1 n2 e1 e2
    using that routes_okD(4) [OF ok] by (auto simp: look split: if_splits)
  ultimately show ?thesis unfolding routes_ok_def using keep orph by (simp only:) blast
qed

text \<open>
  Removing a VIP leaves no route behind, unless a withdraw of it had failed and was still pending:
  the code does not withdraw a VIP whose state is withdrawn.
\<close>

lemma withdraw_failed_routes:
  assumes ok: "routes_ok m" and w: "bn_WithdrawVIP n p (m_bgp m) = (Some e, b')"
  shows "routes_ok (m\<lparr>m_bgp := b'\<rparr>)"
proof -
  note fr = withdraw_frame [OF routes_okD(2) [OF ok] w] and er = withdraw_err [OF routes_okD(2) [OF ok] w]
  have "route b' q = route (m_bgp m) q" for q
  proof (cases "same p q")
    case True
    then show ?thesis using same_route [of p q] er by simp
  qed (use fr in simp)
  moreover have "binv b'" using fr by simp
  ultimately show ?thesis using ok by (simp add: routes_ok_def settled_def)
qed

lemma RemoveVIP_routes:
  assumes ok: "routes_ok m" and safe: "remove_safe name m" and out: "RemoveVIP name m = (err, m')"
  shows "routes_ok m'"
proof (cases "map_of (m_vips m) name")
  case None
  then show ?thesis using out ok by (simp add: RemoveVIP_def)
next
  case (Some e)
  note nt = routes_okD(1) [OF ok] and bi = routes_okD(2) [OF ok]
  show ?thesis
  proof (cases "vs_state (ve_state e) = StateWithdrawn")
    case True
    then have "route (m_bgp m) (v_prefix (ve_cfg e)) = None"
      using routes_okD(3) [OF ok Some] safe Some by (simp add: settled_def want_def remove_safe_def)
    then show ?thesis
      using forget_routes [OF ok Some frame_refl [OF bi]] True Some out nt by (simp add: RemoveVIP_def)
  next
    case False
    obtain err' b' where w: "bn_WithdrawVIP n (v_prefix (ve_cfg e)) (m_bgp m) = (err', b')" by force
    show ?thesis
    proof (cases err')
      case None
      with False Some out nt w have "m' = forget_vip name (m\<lparr>m_bgp := b'\<rparr>)" by (simp add: RemoveVIP_def)
      moreover have "frame (v_prefix (ve_cfg e)) (m_bgp m) b'" "route b' (v_prefix (ve_cfg e)) = None"
        using withdraw_frame [OF bi w] withdraw_ok [OF bi] w None by (auto simp: frame_def)
      ultimately show ?thesis using forget_routes [OF ok Some] by simp
    next
      case (Some e')
      with False \<open>map_of (m_vips m) name = Some e\<close> out nt w have "m' = m\<lparr>m_bgp := b'\<rparr>"
        by (simp add: RemoveVIP_def)
      then show ?thesis using withdraw_failed_routes [OF ok] w Some by simp
    qed
  qed
qed

text \<open>A commit that knows the health, or that does not change the attributes, keeps the routes right.\<close>

lemma commit_switch_settled:
  assumes nt: "m_notifier m = Some n" and "binv (m_bgp m)" and "settled (m_bgp m) old vs"
    and "v_prefix old = v_prefix cfg"
    and sw: "commit_switch env cfg eval nxt old m vs = (m', vs')"
    and keep: "vs_health vs' \<noteq> HealthUnknown \<or> vs_state vs = StateWithdrawn \<or>
      RouteAttrsFor (v_policy old) (vs_state vs) = RouteAttrsFor (v_policy cfg) (vs_state vs)"
  shows "frame (v_prefix cfg) (m_bgp m) (m_bgp m') \<and> settled (m_bgp m') cfg vs'"
proof -
  have stay: "settled (m_bgp m) cfg vs1"
    if "vs_state vs = StateWithdrawn \<or> vs_bgp_pending vs \<or>
        RouteAttrsFor (v_policy old) (vs_state vs) = RouteAttrsFor (v_policy cfg) (vs_state vs)"
      "vs_state vs1 = vs_state vs" "vs_bgp_pending vs1 = vs_bgp_pending vs" for vs1
    using that assms(3,4) by (auto simp: settled_def want_def)
  define m1 where "m1 = m\<lparr>m_metrics := emit [GaugeSet VIPPriorityVec [v_name cfg, v_prefix cfg]
      (of_int (priorityFor (v_policy cfg) (vs_state vs)))] (m_metrics m)\<rparr>"
  define vs2 where "vs2 = vs\<lparr>vs_checks := nxt, vs_health := combineHealth eval nxt, vs_lower_priority_file_on :=
      lowerPriorityFilePresent env (pc_lower_priority_file (v_policy cfg))\<rparr>"
  define ns where "ns = Evaluate (combineHealth eval nxt = HealthHealthy)
      (lowerPriorityFilePresent env (pc_lower_priority_file (v_policy cfg))) (v_policy cfg)"
  have m1: "m_notifier m1 = Some n" "m_bgp m1 = m_bgp m" using nt by (simp_all add: m1_def)
  have eq: "commit_switch env cfg eval nxt old m vs =
      (if combineHealth eval nxt = HealthUnknown
       then (m1, vs\<lparr>vs_checks := nxt, vs_health := combineHealth eval nxt\<rparr>)
       else if ns \<noteq> vs_state vs then transitionStateLocked env cfg ns ''config reload'' m1 vs2
       else if vs_state vs \<noteq> StateWithdrawn \<and> (vs_bgp_pending vs \<or>
              RouteAttrsFor (v_policy old) (vs_state vs) \<noteq> RouteAttrsFor (v_policy cfg) (vs_state vs))
       then (let (err, b') = applyBGP n cfg (vs_state vs) (m_bgp m)
             in (m1\<lparr>m_bgp := b'\<rparr>, vs2\<lparr>vs_bgp_pending := err \<noteq> None\<rparr>))
       else (m1, vs2))"
    using nt unfolding commit_switch_def m1_def vs2_def ns_def by (simp add: Let_def)
  have hv: "vs_health vs' = combineHealth eval nxt" by (rule commit_switch_vs(2) [OF sw])
  consider (unknown) "combineHealth eval nxt = HealthUnknown"
    | (moved) "combineHealth eval nxt \<noteq> HealthUnknown" "ns \<noteq> vs_state vs"
    | (again) "combineHealth eval nxt \<noteq> HealthUnknown" "ns = vs_state vs" "vs_state vs \<noteq> StateWithdrawn"
        "vs_bgp_pending vs \<or> RouteAttrsFor (v_policy old) (vs_state vs) \<noteq> RouteAttrsFor (v_policy cfg) (vs_state vs)"
    | (still) "combineHealth eval nxt \<noteq> HealthUnknown" "ns = vs_state vs" "vs_state vs = StateWithdrawn \<or>
        RouteAttrsFor (v_policy old) (vs_state vs) = RouteAttrsFor (v_policy cfg) (vs_state vs) \<and> \<not> vs_bgp_pending vs"
    by blast
  then show ?thesis
  proof cases
    case unknown
    then have "m' = m1" "vs_state vs' = vs_state vs" "vs_bgp_pending vs' = vs_bgp_pending vs"
      using sw eq by auto
    then show ?thesis using stay [of vs'] keep hv unknown m1 assms(2) by (auto simp: frame_refl)
  next
    case moved
    then have "transitionStateLocked env cfg ns ''config reload'' m1 vs2 = (m', vs')" using sw eq by simp
    then show ?thesis using transition_settled [OF m1(1)] m1(2) moved(2) assms(2) by (simp add: vs2_def)
  next
    case again
    obtain err b' where ab: "applyBGP n cfg (vs_state vs) (m_bgp m) = (err, b')" by force
    then have out: "m_bgp m' = b'" "vs_state vs' = vs_state vs" "vs_bgp_pending vs' = (err \<noteq> None)"
      using sw eq again m1 by (auto simp: vs2_def)
    then have "settled b' cfg vs'"
      using ab applyBGP_settled [OF assms(2), of cfg vs'] by (cases err) (auto simp: settled_def)
    then show ?thesis using applyBGP_frame [OF assms(2) ab] out by simp
  next
    case still
    then have "m' = m1" "vs' = vs2" using sw eq by auto
    then show ?thesis using stay [of vs2] still m1 assms(2) by (auto simp: frame_refl vs2_def)
  qed
qed

lemma CommitVIP_routes:
  assumes ok: "routes_ok m" and out: "CommitVIP env cfg seeds m = (err, m')"
    and safe: "commit_safe cfg m (err, m')"
  shows "routes_ok m'"
proof (cases rule: CommitVIP_cases [of env cfg seeds m])
  case (refused err)
  with ok out show ?thesis by simp
next
  case (failed e missing running nxt err ops)
  have "settled (m_bgp m) (ve_cfg e) ((ve_state e)\<lparr>vs_checks := running\<rparr>)"
    using routes_okD(3) [OF ok failed(1)] by (simp add: settled_def)
  then show ?thesis
    using failed(6) out routes_okD(2) [OF ok]
    by (intro routes_ok_replace [OF ok failed(1), of _ "e\<lparr>ve_state := (ve_state e)\<lparr>vs_checks := running\<rparr>\<rparr>"])
      (auto simp: frame_refl)
next
  case (switched e running nxt eval vs1 m2 m3 vs2)
  have m2: "m_notifier m2 = Some n" "m_bgp m2 = m_bgp m" "binv (m_bgp m2)"
    using switched(6) routes_okD(1,2) [OF ok] by simp_all
  have s1: "settled (m_bgp m2) (ve_cfg e) vs1"
    using routes_okD(3) [OF ok switched(1)] switched(5) m2 by (simp add: settled_def)
  define new where "new = \<lparr>ve_cfg = cfg, ve_eval = eval, ve_state = vs2\<rparr>"
  have m': "err = None" "m' = put_entry (v_name cfg) new m3" using switched(8) out by (simp_all add: new_def)
  have "vs_health vs2 \<noteq> HealthUnknown \<or> vs_state vs1 = StateWithdrawn \<or>
      RouteAttrsFor (v_policy (ve_cfg e)) (vs_state vs1) = RouteAttrsFor (v_policy cfg) (vs_state vs1)"
    using safe switched(1,5) m' by (simp add: commit_safe_def new_def gomap_simps)
  note sw = commit_switch_settled [OF m2(1,3) s1 switched(2) switched(7) this]
  have "m_vips m3 = gm_put (v_name cfg) (e\<lparr>ve_state := vs1\<rparr>) (m_vips m)" "m_notifier m3 = Some n"
    using commit_switch_vs [OF switched(7)] switched(6) m2 by auto
  then show ?thesis
    using sw m2 m' switched(2) routes_okD(1) [OF ok]
    by (intro routes_ok_replace [OF ok switched(1), of _ new]) (auto simp: new_def)
qed

lemma safe_step_routes: "safe_step same m m' \<Longrightarrow> routes_ok m \<Longrightarrow> routes_ok m'"
proof (induction rule: safe_step.induct)
  case (add cfg m env)
  then show ?case by (intro AddVIP_routes) (auto simp: add_safe_def dest!: map_of_SomeD)
qed (auto intro: OnHealthTransition_routes OnCheckResult_routes CommitVIP_routes RemoveVIP_routes)

lemma safe_steps_routes: "(safe_step same)\<^sup>*\<^sup>* m m' \<Longrightarrow> routes_ok m \<Longrightarrow> routes_ok m'"
  by (induction rule: rtranclp_induct) (simp_all add: safe_step_routes)

text \<open>A manager that starts with no route installed starts with the routes right.\<close>

lemma NewManager_routes:
  assumes "distinct (map v_name vs)" and "binv b" and "\<And>q. route b q = None"
    and "\<And>v w. v \<in> set vs \<Longrightarrow> w \<in> set vs \<Longrightarrow> v_name v \<noteq> v_name w \<Longrightarrow> \<not> same (v_prefix v) (v_prefix w)"
  shows "routes_ok (NewManager env vs ml (Some n) b)"
proof -
  define m0 where "m0 = \<lparr>m_vips = [], m_order = [], m_metrics = ml, m_notifier = Some n, m_bgp = b,
      m_on_transition = False, m_transition_calls = 0\<rparr>"
  have "routes_ok m0" using assms(2,3) by (simp add: routes_ok_def m0_def)
  moreover have "routes_ok (fold (AddVIP env) ws m)"
    if "routes_ok m" "set ws \<subseteq> set vs" "distinct (map v_name ws)"
      "\<forall>name e. map_of (m_vips m) name = Some e \<longrightarrow> ve_cfg e \<in> set vs \<and> v_name (ve_cfg e) = name \<and> name \<notin> v_name ` set ws"
    for m ws
    using that
  proof (induction ws arbitrary: m)
    case (Cons w ws)
    have "routes_ok (AddVIP env w m)"
      using Cons.prems assms(4) by (intro AddVIP_routes) (simp_all, metis)
    moreover have "\<forall>name e. map_of (m_vips (AddVIP env w m)) name = Some e \<longrightarrow>
        ve_cfg e \<in> set vs \<and> v_name (ve_cfg e) = name \<and> name \<notin> v_name ` set ws"
      using Cons.prems by (auto simp: AddVIP_def gomap_simps newVIPEntry_fields)
    ultimately show ?case using Cons.prems by (simp add: Cons.IH)
  qed simp
  ultimately show ?thesis using assms(1) by (simp add: NewManager_fold m0_def)
qed

end

section \<open>Properties of the manager alone\<close>

text \<open>C9: Every method of the policy manager, in any order and with any arguments, keeps its invariant:
  the registered names, their order and the entries agree; the checks of an entry are those of its
  configuration and of its evaluator; the health of a VIP is the combination of the health of its
  checks; once it is known, the state is what the policy makes of health and drain file; and the state
  and priority gauges of every VIP show its state. It holds at startup when the names are distinct.\<close>

theorem manager_invariant:
  assumes "distinct (map v_name vips)" and "mgr_step\<^sup>*\<^sup>* (NewManager env vips ml nt b) m"
  shows "mgr_wf m"
  by (rule mgr_steps_wf [OF assms(2) NewManager_wf [OF assms(1)]])

theorem manager_invariant_witness:
  "mgr_wf (OnHealthTransition ex_env (ex_health ''web'' ''a'' True)
     (NewManager ex_env [ex_vip ''web'' ''192.0.2.1/32'' [''a'', ''b'']] [] None ()))"
  by (rule manager_invariant [where env = ex_env and ml = "[]" and nt = None and b = "()"
        and vips = "[ex_vip ''web'' ''192.0.2.1/32'' [''a'', ''b'']]"])
    (auto intro: mgr_step.health)

text \<open>A VIP whose health is unknown, because none of its checks has reported a verdict, is not
  announced before the first verdict: at startup every VIP is withdrawn, and check results alone, in
  any number, leave it withdrawn and leave the BGP side untouched.\<close>

theorem no_announce_before_verdict:
  assumes "map_of (m_vips m) v = Some e" and "vs_health (ve_state e) = HealthUnknown"
    and "vs_state (ve_state e) = StateWithdrawn" and "\<not> vs_bgp_pending (ve_state e)"
  shows "m_bgp (OnCheckResult env v ck res m) = m_bgp m \<and>
    (\<exists>e'. map_of (m_vips (OnCheckResult env v ck res m)) v = Some e' \<and>
       vs_state (ve_state e') = StateWithdrawn \<and> vs_health (ve_state e') = HealthUnknown \<and>
       \<not> vs_bgp_pending (ve_state e'))"
proof (cases rule: OnCheckResult_cases [of env v ck res m])
  case same
  then show ?thesis using assms by auto
next
  case (recorded e' key cs drain vs1 m1 vs2 m2 vs3)
  have "m1 = m" "vs2 = vs1" "vs_state vs1 = StateWithdrawn" "vs_health vs1 = HealthUnknown" "\<not> vs_bgp_pending vs1"
    using recorded assms by (auto simp: reevaluate_policy_def)
  moreover have "m2 = m1" "vs3 = vs2"
    using recorded(6) calculation by (auto simp: retry_pending_def split: option.splits)
  ultimately show ?thesis using recorded(7) by (simp add: gomap_simps)
qed

theorem no_announce_before_verdict_witness:
  "m_bgp (OnCheckResult ex_env ''web'' ''a'' (ex_result True)
     (NewManager ex_env [ex_vip ''web'' ''192.0.2.1/32'' [''a'', ''b'']] [] None ())) = ()"
  using no_announce_before_verdict [of "NewManager ex_env [ex_vip ''web'' ''192.0.2.1/32'' [''a'', ''b'']] [] None ()"
      "''web''" "newVIPEntry ex_env (ex_vip ''web'' ''192.0.2.1/32'' [''a'', ''b''])" ex_env "''a''" "ex_result True"]
  by (simp add: newVIPEntry_fields NewManager_def ex_vip_def)

text \<open>C10: The status of all VIPs can always be built: with the invariant it never dereferences a missing
  entry, lists the VIPs in their order, and reports their state and health.\<close>

theorem status_total:
  assumes "distinct (map v_name vips)" and "mgr_step\<^sup>*\<^sup>* (NewManager env vips ml nt b) m"
  shows "\<exists>sts. GetVIPStatuses m = Ret sts \<and> map vst_name sts = VIPNames m \<and>
    (\<forall>st \<in> set sts. \<exists>e. map_of (m_vips m) (vst_name st) = Some e \<and>
       vst_state st = vs_state (ve_state e) \<and> vst_health st = vs_health (ve_state e) \<and>
       vst_prefix st = v_prefix (ve_cfg e))"
proof -
  have wf: "mgr_wf m" by (rule mgr_steps_wf [OF assms(2) NewManager_wf [OF assms(1)]])
  have known: "\<exists>e. map_of (m_vips m) n = Some e" if "n \<in> set (m_order m)" for n
    using that mgr_wfD(3) [OF wf] by (metis map_of_eq_None_iff not_None_eq set_map)
  show ?thesis
    by (auto simp: GetVIPStatuses_known [OF wf] VIPNames_def vip_status_of_def Let_def o_def image_iff
        dest!: known)
qed

theorem status_total_witness:
  "\<exists>sts. GetVIPStatuses (NewManager ex_env [ex_vip ''web'' ''192.0.2.1/32'' [''a'']] [] None ()) = Ret sts \<and>
     map vst_name sts = [''web'']"
  using status_total [of "[ex_vip ''web'' ''192.0.2.1/32'' [''a'']]" ex_env "[]" None "()"
      "NewManager ex_env [ex_vip ''web'' ''192.0.2.1/32'' [''a'']] [] None ()"]
  by (auto simp: VIPNames_def NewManager_def ex_vip_def)

end
