(* ===== verification/Bgp_Contract.thy ===== *)
theory Bgp_Contract
  imports Bgp_Manager Policy_Routes
begin

text \<open>
  The BGP manager keeps its bookkeeping in step with the table of the embedded server, and so
  provides the contract the policy manager relies on.

  The locale \<open>gobgp_rib\<close> states what is relied on of GoBGP, as its API documents it: the table holds at
  most one locally originated path per prefix, an accepted path replaces it and gets a fresh UUID,
  deleting by UUID succeeds only for a path that is there and removes it, deleting by path removes the
  path of that prefix, and a call that reports an error has changed nothing. A reference server
  satisfies these laws.
\<close>

section \<open>What GoBGP provides\<close>

locale gobgp_rib =
  fixes g :: "'srv gobgp"
    and rib :: "'srv \<Rightarrow> ip_prefix \<Rightarrow> (uuid \<times> bgp_path) option"
    and used :: "'srv \<Rightarrow> uuid set"
  assumes add_ok: "g_AddPath g [p] s = (Inr (r # rs), s') \<Longrightarrow> apr_error r = None \<Longrightarrow> bp_nlri p = Some k \<Longrightarrow>
      rib s' = (rib s)(k \<mapsto> (apr_uuid r, p)) \<and> apr_uuid r \<notin> used s \<and> used s' = insert (apr_uuid r) (used s)"
    and add_err: "g_AddPath g [p] s = (res, s') \<Longrightarrow>
      (\<forall>r rs. res = Inr (r # rs) \<longrightarrow> apr_error r \<noteq> None) \<Longrightarrow> rib s' = rib s \<and> used s' = used s"
    and delete_uuid_ok: "g_DeletePath g (DeleteUUIDs [u]) s = (None, s') \<Longrightarrow>
      (\<exists>k p. rib s k = Some (u, p)) \<and> used s' = used s \<and>
      (\<forall>k. rib s' k = (if map_option fst (rib s k) = Some u then None else rib s k))"
    and delete_path_ok: "g_DeletePath g (DeletePaths [p]) s = (None, s') \<Longrightarrow> bp_nlri p = Some k \<Longrightarrow>
      rib s' = (rib s)(k := None) \<and> used s' = used s"
    and delete_err: "g_DeletePath g req s = (Some e, s') \<Longrightarrow> rib s' = rib s \<and> used s' = used s"

section \<open>Facts about the operations\<close>

definition nlri_of :: "string \<Rightarrow> ip_prefix option" where
  "nlri_of p = (case ParsePrefix p of Inr pfx \<Rightarrow> Some (Masked pfx) | Inl _ \<Rightarrow> None)"

definition same_nlri :: "string \<Rightarrow> string \<Rightarrow> bool" where
  "same_nlri p q \<longleftrightarrow> nlri_of p \<noteq> None \<and> nlri_of p = nlri_of q"

lemma buildPath_cong:
  assumes "bm_cfg m = bm_cfg m'" and "bm_localASN m = bm_localASN m'"
  shows "buildPath g p a m = buildPath g p a m'"
proof -
  have nh: "nextHopFor m = nextHopFor m'" using assms by (intro ext) (simp add: nextHopFor_def)
  have ap: "as_path_params m = as_path_params m'"
    using assms by (intro ext) (simp add: as_path_params_def hasIBGPPeer_def)
  show ?thesis unfolding buildPath_def nh ap by (rule refl)
qed

lemma buildPath_nlri: "buildPath g p a m = Inr path \<Longrightarrow> bp_nlri path = nlri_of p \<and> nlri_of p \<noteq> None"
  by (auto simp: buildPath_def nlri_of_def Let_def split: sum.splits option.splits if_splits)

lemma syncRouteStateMetric_frame [simp]:
  "bm_server (syncRouteStateMetric g p m) = bm_server m"
  "bm_cfg (syncRouteStateMetric g p m) = bm_cfg m"
  "bm_localASN (syncRouteStateMetric g p m) = bm_localASN m"
  "bm_installed (syncRouteStateMetric g p m) = bm_installed m"
  by (simp_all add: syncRouteStateMetric_def Let_def)

text \<open>The manager after its previous path, if any, is deleted.\<close>

definition previous_deleted :: "'srv gobgp \<Rightarrow> string \<Rightarrow> 'srv bgp_manager \<Rightarrow> 'srv bgp_manager \<Rightarrow> bool" where
  "previous_deleted g p m m1 \<longleftrightarrow>
     (case map_of (bm_installed m) p of
        None \<Rightarrow> m1 = m
      | Some u \<Rightarrow> (\<exists>srv. g_DeletePath g (DeleteUUIDs [u]) (bm_server m) = (None, srv) \<and>
          m1 = m\<lparr>bm_server := srv, bm_installed := gm_del p (bm_installed m)\<rparr>))"

lemma upsertVIP_cases:
  obtains (invalid) err where "buildPath g p a m = Inl err" "upsertVIP g p a op m = (Some err, m)"
  | (delete_failed) u e srv err where "map_of (bm_installed m) p = Some u"
      "g_DeletePath g (DeleteUUIDs [u]) (bm_server m) = (Some e, srv)"
      "upsertVIP g p a op m = (Some err, m\<lparr>bm_server := srv\<rparr>)"
  | (add_failed) path m1 res srv err where "buildPath g p a m = Inr path" "previous_deleted g p m m1"
      "g_AddPath g [path] (bm_server m1) = (res, srv)" "\<forall>r rs. res = Inr (r # rs) \<longrightarrow> apr_error r \<noteq> None"
      "upsertVIP g p a op m = (Some err, m1\<lparr>bm_server := srv\<rparr>)"
  | (installed) path m1 r rs srv where "buildPath g p a m = Inr path" "previous_deleted g p m m1"
      "g_AddPath g [path] (bm_server m1) = (Inr (r # rs), srv)" "apr_error r = None"
      "upsertVIP g p a op m = (None, syncRouteStateMetric g p
         (m1\<lparr>bm_server := srv, bm_installed := gm_put p (apr_uuid r) (bm_installed m1)\<rparr>))"
proof (cases "buildPath g p a m")
  case (Inl err)
  then show ?thesis by (intro invalid) (simp_all add: upsertVIP_def)
next
  case (Inr path)
  have add: thesis if m1: "previous_deleted g p m m1"
    and up: "upsertVIP g p a op m = (let (resp, srv) = g_AddPath g [path] (bm_server m1); m2 = m1\<lparr>bm_server := srv\<rparr>
       in case resp of
            Inl err \<Rightarrow> (Some (pathOpError g op p err m2), m2)
          | Inr [] \<Rightarrow> (Some (pathOpError g op p (Errorf ''empty add-path response'' [] None) m2), m2)
          | Inr (r # rs) \<Rightarrow>
              (case apr_error r of
                 Some err \<Rightarrow> (Some (pathOpError g op p err m2), m2)
               | None \<Rightarrow> (None, syncRouteStateMetric g p
                   (storeInstalledUUID p (apr_uuid r) m2))))" for m1
  proof -
    obtain resp srv where rs: "g_AddPath g [path] (bm_server m1) = (resp, srv)" by force
    show thesis
    proof (cases "\<exists>r rs. resp = Inr (r # rs) \<and> apr_error r = None")
      case True
      then show thesis using installed [OF Inr m1] rs up by auto
    next
      case False
      then obtain err where "upsertVIP g p a op m = (Some err, m1\<lparr>bm_server := srv\<rparr>)"
        using up rs by (auto simp: Let_def split: sum.splits list.splits option.splits)
      then show thesis using False by (intro add_failed [OF Inr m1 rs]) auto
    qed
  qed
  show ?thesis
  proof (cases "map_of (bm_installed m) p")
    case None
    then show ?thesis
      using Inr by (intro add [of m]) (simp_all add: previous_deleted_def upsertVIP_def)
  next
    case (Some u)
    obtain err srv where d: "g_DeletePath g (DeleteUUIDs [u]) (bm_server m) = (err, srv)" by force
    show ?thesis
    proof (cases err)
      case None
      then show ?thesis using Inr Some d
        by (intro add [of "m\<lparr>bm_server := srv, bm_installed := gm_del p (bm_installed m)\<rparr>"])
          (simp_all add: previous_deleted_def upsertVIP_def)
    next
      case (Some e)
      then show ?thesis using Inr \<open>map_of (bm_installed m) p = Some u\<close> d
        by (intro delete_failed [of u e srv]) (simp_all add: upsertVIP_def Let_def)
    qed
  qed
qed

lemma WithdrawVIP_cases:
  obtains (invalid) err where "buildPath g p zero_route_attrs m = Inl err" "WithdrawVIP g p m = (Some err, m)"
  | (failed) req e srv err where "g_DeletePath g req (bm_server m) = (Some e, srv)"
      "WithdrawVIP g p m = (Some err, m\<lparr>bm_server := srv\<rparr>)"
  | (recorded) u srv where "map_of (bm_installed m) p = Some u"
      "g_DeletePath g (DeleteUUIDs [u]) (bm_server m) = (None, srv)"
      "WithdrawVIP g p m =
         (None, syncRouteStateMetric g p (m\<lparr>bm_server := srv, bm_installed := gm_del p (bm_installed m)\<rparr>))"
  | (by_path) path srv where "map_of (bm_installed m) p = None" "buildPath g p zero_route_attrs m = Inr path"
      "g_DeletePath g (DeletePaths [path]) (bm_server m) = (None, srv)"
      "WithdrawVIP g p m =
         (None, syncRouteStateMetric g p (m\<lparr>bm_server := srv, bm_installed := gm_del p (bm_installed m)\<rparr>))"
proof (cases "buildPath g p zero_route_attrs m")
  case (Inl err)
  then show ?thesis by (intro invalid) (simp_all add: WithdrawVIP_def)
next
  case (Inr path)
  define req where "req = (case map_of (bm_installed m) p of Some u \<Rightarrow> DeleteUUIDs [u] | None \<Rightarrow> DeletePaths [path])"
  obtain err srv where d: "g_DeletePath g req (bm_server m) = (err, srv)" by force
  show ?thesis
  proof (cases err)
    case (Some e)
    then show ?thesis using Inr d
      by (intro failed [of req e srv]) (simp_all add: WithdrawVIP_def Let_def flip: req_def)
  next
    case None
    then have "WithdrawVIP g p m =
        (None, syncRouteStateMetric g p (m\<lparr>bm_server := srv, bm_installed := gm_del p (bm_installed m)\<rparr>))"
      using Inr d by (simp add: WithdrawVIP_def flip: req_def)
    then show ?thesis using Inr d None recorded by_path
      by (cases "map_of (bm_installed m) p") (auto simp: req_def)
  qed
qed

section \<open>The bookkeeping invariant\<close>

context gobgp_rib
begin

text \<open>
  Every UUID the manager has recorded for a prefix was handed out by the server, and if the server
  still knows it, it belongs to the path of that prefix.
\<close>

definition tracked :: "'srv bgp_manager \<Rightarrow> bool" where
  "tracked m \<longleftrightarrow>
     (\<forall>p u. map_of (bm_installed m) p = Some u \<longrightarrow> u \<in> used (bm_server m) \<and>
        (\<forall>k path. rib (bm_server m) k = Some (u, path) \<longrightarrow> nlri_of p = Some k)) \<and>
     (\<forall>k u path. rib (bm_server m) k = Some (u, path) \<longrightarrow> u \<in> used (bm_server m))"

definition installed_route :: "'srv bgp_manager \<Rightarrow> string \<Rightarrow> bgp_path option" where
  "installed_route m p =
     (case nlri_of p of None \<Rightarrow> None | Some k \<Rightarrow> map_option snd (rib (bm_server m) k))"

lemma trackedD:
  assumes "tracked m"
  shows "map_of (bm_installed m) p = Some u \<Longrightarrow> rib (bm_server m) k = Some (u, path) \<Longrightarrow> nlri_of p = Some k"
    and "map_of (bm_installed m) p = Some u \<Longrightarrow> u \<in> used (bm_server m)"
    and "rib (bm_server m) k = Some (u, path) \<Longrightarrow> u \<in> used (bm_server m)"
  using assms unfolding tracked_def by blast+

lemma tracked_same_table:
  "rib s = rib (bm_server m) \<Longrightarrow> used s = used (bm_server m) \<Longrightarrow> tracked m \<Longrightarrow> tracked (m\<lparr>bm_server := s\<rparr>)"
  by (simp add: tracked_def)

lemma route_same_table:
  "rib s = rib (bm_server m) \<Longrightarrow> installed_route (m\<lparr>bm_server := s\<rparr>) q = installed_route m q"
  by (simp add: installed_route_def split: option.split)

lemma sync_tracked [simp]:
  "tracked (syncRouteStateMetric g p m) = tracked m"
  "installed_route (syncRouteStateMetric g p m) q = installed_route m q"
  by (simp_all add: tracked_def installed_route_def split: option.split)

text \<open>Deleting the recorded path of a prefix removes the route of that prefix and no other.\<close>

lemma delete_recorded:
  assumes t: "tracked m" and u: "map_of (bm_installed m) p = Some u"
    and d: "g_DeletePath g (DeleteUUIDs [u]) (bm_server m) = (None, srv)"
  defines "m1 \<equiv> m\<lparr>bm_server := srv, bm_installed := gm_del p (bm_installed m)\<rparr>"
  shows "tracked m1" and "installed_route m1 p = None"
    and "\<not> same_nlri p q \<Longrightarrow> installed_route m1 q = installed_route m q"
proof -
  note del = delete_uuid_ok [OF d]
  obtain k path where k: "rib (bm_server m) k = Some (u, path)" using del by blast
  have pk: "nlri_of p = Some k" by (rule trackedD(1) [OF t u k])
  have only: "k' = k" if "rib (bm_server m) k' = Some (u, path')" for k' path'
    using trackedD(1) [OF t u that] pk by simp
  show "tracked m1" using t del by (auto simp: tracked_def m1_def gomap_simps split: if_splits)
  show "installed_route m1 p = None" using del pk k by (simp add: installed_route_def m1_def)
  have other: "rib srv k' = rib (bm_server m) k'" if "k' \<noteq> k" for k'
    using that del only by (cases "rib (bm_server m) k'") auto
  show "installed_route m1 q = installed_route m q" if "\<not> same_nlri p q"
    using that pk other by (cases "nlri_of q") (auto simp: installed_route_def m1_def same_nlri_def)
qed

lemma previous_deleted_facts:
  assumes t: "tracked m" and d: "previous_deleted g p m m1"
  shows "tracked m1 \<and> map_of (bm_installed m1) p = None \<and> bm_cfg m1 = bm_cfg m \<and> bm_localASN m1 = bm_localASN m"
    and "\<not> same_nlri p q \<Longrightarrow> installed_route m1 q = installed_route m q"
proof (atomize (full), cases "map_of (bm_installed m) p")
  case None
  then show "(tracked m1 \<and> map_of (bm_installed m1) p = None \<and> bm_cfg m1 = bm_cfg m \<and> bm_localASN m1 = bm_localASN m) \<and>
      (\<not> same_nlri p q \<longrightarrow> installed_route m1 q = installed_route m q)"
    using t d by (simp add: previous_deleted_def)
next
  case (Some u)
  then obtain srv where del: "g_DeletePath g (DeleteUUIDs [u]) (bm_server m) = (None, srv)"
    and m1: "m1 = m\<lparr>bm_server := srv, bm_installed := gm_del p (bm_installed m)\<rparr>"
    using d by (auto simp: previous_deleted_def)
  show "(tracked m1 \<and> map_of (bm_installed m1) p = None \<and> bm_cfg m1 = bm_cfg m \<and> bm_localASN m1 = bm_localASN m) \<and>
      (\<not> same_nlri p q \<longrightarrow> installed_route m1 q = installed_route m q)"
    using delete_recorded [OF t Some del, folded m1] by (simp add: m1 gomap_simps)
qed

text \<open>Installing a path for a prefix without a recorded one sets its route and no other.\<close>

lemma add_recorded:
  assumes t: "tracked m" and no: "map_of (bm_installed m) p = None" and path: "bp_nlri path = nlri_of p" "nlri_of p \<noteq> None"
    and a: "g_AddPath g [path] (bm_server m) = (Inr (r # rs), srv)" "apr_error r = None"
  defines "m2 \<equiv> m\<lparr>bm_server := srv, bm_installed := gm_put p (apr_uuid r) (bm_installed m)\<rparr>"
  shows "tracked m2 \<and> installed_route m2 p = Some path"
    and "\<not> same_nlri p q \<Longrightarrow> installed_route m2 q = installed_route m q"
proof -
  obtain k where k: "nlri_of p = Some k" using path(2) by auto
  have add: "rib srv = (rib (bm_server m))(k \<mapsto> (apr_uuid r, path))" "apr_uuid r \<notin> used (bm_server m)"
      "used srv = insert (apr_uuid r) (used (bm_server m))"
    using add_ok [OF a] path(1) k by auto
  have "u \<in> used srv \<and> (\<forall>k' path'. rib srv k' = Some (u, path') \<longrightarrow> nlri_of p' = Some k')"
    if "map_of (bm_installed m2) p' = Some u" for p' u
  proof (cases "p' = p")
    case True
    then have u: "u = apr_uuid r" using that by (simp add: m2_def gomap_simps)
    have "k' = k" if "rib srv k' = Some (u, path')" for k' path'
    proof (rule ccontr)
      assume "k' \<noteq> k"
      then have "u \<in> used (bm_server m)" using that add(1) trackedD(3) [OF t] by simp
      then show False using u add(2) by simp
    qed
    then show ?thesis using True u add(3) k by auto
  next
    case False
    then have "map_of (bm_installed m) p' = Some u" using that by (simp add: m2_def gomap_simps)
    then have used: "u \<in> used (bm_server m)" and nl: "rib (bm_server m) k' = Some (u, path') \<Longrightarrow> nlri_of p' = Some k'" for k' path'
      using trackedD(1,2) [OF t] by auto
    have "nlri_of p' = Some k'" if "rib srv k' = Some (u, path')" for k' path'
      using that add(1,2) used nl by (cases "k' = k") auto
    then show ?thesis using used add(3) by simp
  qed
  moreover have "u \<in> used srv" if "rib srv k' = Some (u, path')" for k' u path'
    using that add(1,3) trackedD(3) [OF t] by (cases "k' = k") auto
  ultimately show "tracked m2 \<and> installed_route m2 p = Some path"
    using add k by (simp add: tracked_def installed_route_def m2_def)
  show "installed_route m2 q = installed_route m q" if "\<not> same_nlri p q"
    using that add(1) k by (cases "nlri_of q") (auto simp: installed_route_def m2_def same_nlri_def)
qed

text \<open>The two operations, with what they promise on every branch.\<close>

lemma upsertVIP_contract:
  assumes t: "tracked m" and out: "upsertVIP g p a op m = (err, m')"
  shows "(tracked m' \<and> bm_cfg m' = bm_cfg m \<and> bm_localASN m' = bm_localASN m) \<and>
    (err = None \<longrightarrow> (\<exists>path. buildPath g p a m = Inr path \<and> installed_route m' p = Some path)) \<and>
    (\<not> same_nlri p q \<longrightarrow> installed_route m' q = installed_route m q)"
proof (cases rule: upsertVIP_cases [of g p a m op])
  case (invalid e)
  then show ?thesis using t out by simp
next
  case (delete_failed u e srv err')
  then show ?thesis using t out delete_err [OF delete_failed(2)] by (auto simp: tracked_same_table route_same_table)
next
  case (add_failed path m1 res srv err')
  note f = previous_deleted_facts [OF t add_failed(2)] and same = add_err [OF add_failed(3,4)]
  then show ?thesis using out add_failed(5) by (auto simp: tracked_same_table route_same_table)
next
  case (installed path m1 r rs srv)
  note f = previous_deleted_facts [OF t installed(2)]
  note ad = add_recorded [OF _ _ _ _ installed(3,4), of p]
  show ?thesis using out installed(1,5) f ad buildPath_nlri [OF installed(1)] by auto
qed

lemma WithdrawVIP_contract:
  assumes t: "tracked m" and out: "WithdrawVIP g p m = (err, m')"
  shows "(tracked m' \<and> bm_cfg m' = bm_cfg m \<and> bm_localASN m' = bm_localASN m) \<and>
    (err = None \<longrightarrow> installed_route m' p = None) \<and>
    (err \<noteq> None \<longrightarrow> installed_route m' p = installed_route m p) \<and>
    (\<not> same_nlri p q \<longrightarrow> installed_route m' q = installed_route m q)"
proof (cases rule: WithdrawVIP_cases [of g p m])
  case (invalid e)
  then show ?thesis using t out by simp
next
  case (failed req e srv err')
  then show ?thesis using t out delete_err [OF failed(1)] by (auto simp: tracked_same_table route_same_table)
next
  case (recorded u srv)
  then show ?thesis using out delete_recorded [OF t recorded(1,2)] by auto
next
  case (by_path path srv)
  obtain k where k: "nlri_of p = Some k" "bp_nlri path = Some k" using buildPath_nlri [OF by_path(2)] by auto
  note del = delete_path_ok [OF by_path(3) k(2)]
  have "tracked (m\<lparr>bm_server := srv, bm_installed := gm_del p (bm_installed m)\<rparr>)"
    using t del unfolding tracked_def by (auto simp: gomap_simps split: if_splits)
  then show ?thesis using out by_path(4) del k
    by (auto simp: installed_route_def same_nlri_def split: option.splits)
qed

end

section \<open>The contract of the policy manager\<close>

text \<open>A BGP manager that started as \<open>b0\<close>: its configuration does not change.\<close>

locale bgp_instance = gobgp_rib g rib used
  for g :: "'srv gobgp" and rib used +
  fixes b0 :: "'srv bgp_manager"
begin

definition built :: "string \<Rightarrow> route_attrs \<Rightarrow> bgp_path option" where
  "built p a = (case buildPath g p a b0 of Inr path \<Rightarrow> Some path | Inl _ \<Rightarrow> None)"

definition started :: "'srv bgp_manager \<Rightarrow> bool" where
  "started b \<longleftrightarrow> tracked b \<and> bm_cfg b = bm_cfg b0 \<and> bm_localASN b = bm_localASN b0"

lemma upsert_law:
  assumes "started b" and "upsertVIP g p a op b = (err, b')"
  shows "started b' \<and> (\<forall>q. \<not> same_nlri p q \<longrightarrow> installed_route b' q = installed_route b q)"
    and "err = None \<Longrightarrow> built p a \<noteq> None \<and> installed_route b' p = built p a"
proof -
  have t: "tracked b" and cfg: "bm_cfg b = bm_cfg b0" "bm_localASN b = bm_localASN b0"
    using assms(1) by (simp_all add: started_def)
  note c = upsertVIP_contract [OF t assms(2)]
  show "started b' \<and> (\<forall>q. \<not> same_nlri p q \<longrightarrow> installed_route b' q = installed_route b q)"
    using c cfg by (auto simp: started_def)
  show "built p a \<noteq> None \<and> installed_route b' p = built p a" if "err = None"
    using c [of p] that buildPath_cong [OF cfg, of g p a] by (auto simp: built_def)
qed

lemma withdraw_law:
  assumes "started b" and "WithdrawVIP g p b = (err, b')"
  shows "started b' \<and> (\<forall>q. \<not> same_nlri p q \<longrightarrow> installed_route b' q = installed_route b q)"
    and "err = None \<Longrightarrow> installed_route b' p = None"
    and "err \<noteq> None \<Longrightarrow> installed_route b' p = installed_route b p"
proof -
  have t: "tracked b" using assms(1) by (simp add: started_def)
  note c = WithdrawVIP_contract [OF t assms(2)]
  show "started b' \<and> (\<forall>q. \<not> same_nlri p q \<longrightarrow> installed_route b' q = installed_route b q)"
    using c assms(1) by (auto simp: started_def)
  show "err = None \<Longrightarrow> installed_route b' p = None"
    and "err \<noteq> None \<Longrightarrow> installed_route b' p = installed_route b p" using c by auto
qed

end

sublocale bgp_instance < pol: bgp_contract "notifier_of g" installed_route built started same_nlri
proof (unfold_locales, goal_cases)
  case (1 b p a b')
  then show ?case using upsert_law(2) by (simp add: notifier_of_def AnnounceVIP_def)
next
  case (2 b p a b')
  then show ?case using upsert_law(2) by (simp add: notifier_of_def PessimizeVIP_def)
next
  case (3 b p b')
  then show ?case using withdraw_law(2) by (simp add: notifier_of_def)
next
  case (4 b p e b')
  then show ?case using withdraw_law(3) by (simp add: notifier_of_def)
next
  case (5 b p a err b')
  then show ?case using upsert_law(1) by (simp add: notifier_of_def AnnounceVIP_def)
next
  case (6 b p a err b')
  then show ?case using upsert_law(1) by (simp add: notifier_of_def PessimizeVIP_def)
next
  case (7 b p err b')
  then show ?case using withdraw_law(1) by (simp add: notifier_of_def)
next
  case (8 p q b)
  then show ?case by (simp add: same_nlri_def installed_route_def)
qed

context bgp_instance
begin

text \<open>Everything together, over the table of the server.\<close>

lemma routes_from_start:
  assumes "\<And>k. rib (bm_server b0) k = None" and "bm_installed b0 = []" and "distinct (map v_name vips)"
    and "\<And>v w. v \<in> set vips \<Longrightarrow> w \<in> set vips \<Longrightarrow> v_name v \<noteq> v_name w \<Longrightarrow> \<not> same_nlri (v_prefix v) (v_prefix w)"
    and "(safe_step same_nlri)\<^sup>*\<^sup>* (NewManager env vips ml (Some (notifier_of g)) b0) m"
  shows "map_of (m_vips m) name = Some e \<Longrightarrow> \<not> vs_bgp_pending (ve_state e) \<Longrightarrow>
      nlri_of (v_prefix (ve_cfg e)) = Some k \<Longrightarrow>
      (if vs_state (ve_state e) = StateWithdrawn then rib (bm_server (m_bgp m)) k = None
       else \<exists>path u. buildPath g (v_prefix (ve_cfg e)) (RouteAttrsFor (v_policy (ve_cfg e)) (vs_state (ve_state e))) b0 = Inr path \<and>
              rib (bm_server (m_bgp m)) k = Some (u, path))"
    and "nlri_of q = Some k \<Longrightarrow> rib (bm_server (m_bgp m)) k \<noteq> None \<Longrightarrow>
      \<exists>name e. map_of (m_vips m) name = Some e \<and> nlri_of (v_prefix (ve_cfg e)) = Some k"
proof -
  have none: "installed_route b0 p = None" for p using assms(1) by (simp add: installed_route_def split: option.split)
  have st: "started b0" using assms(1,2) by (simp add: started_def tracked_def)
  have ok: "pol.routes_ok m"
    by (rule pol.safe_steps_routes [OF assms(5)]) (rule pol.NewManager_routes [OF assms(3) st none assms(4)])
  show "if vs_state (ve_state e) = StateWithdrawn then rib (bm_server (m_bgp m)) k = None
       else \<exists>path u. buildPath g (v_prefix (ve_cfg e)) (RouteAttrsFor (v_policy (ve_cfg e)) (vs_state (ve_state e))) b0 = Inr path \<and>
              rib (bm_server (m_bgp m)) k = Some (u, path)"
    if "map_of (m_vips m) name = Some e" "\<not> vs_bgp_pending (ve_state e)" "nlri_of (v_prefix (ve_cfg e)) = Some k"
    using pol.routes_okD(3) [OF ok that(1)] that(2,3)
    by (auto simp: pol.settled_def pol.want_def installed_route_def built_def split: sum.splits)
  show "\<exists>name e. map_of (m_vips m) name = Some e \<and> nlri_of (v_prefix (ve_cfg e)) = Some k"
    if "nlri_of q = Some k" "rib (bm_server (m_bgp m)) k \<noteq> None"
  proof (rule ccontr)
    assume "\<not> ?thesis"
    then have "installed_route (m_bgp m) q = None"
      using that(1) by (intro pol.routes_okD(5) [OF ok]) (auto simp: same_nlri_def)
    then show False using that by (simp add: installed_route_def)
  qed
qed

end

section \<open>A reference server\<close>

text \<open>
  A server that keeps its table as an association list and numbers its paths. It accepts every path
  and every peer, refuses to delete an unknown UUID, and advertises to every peer what is in the table.
\<close>

record ref_server =
  ref_next :: nat
  ref_table :: "(ip_prefix, uuid \<times> bgp_path) gomap"

definition ref_delete :: "delete_path_request \<Rightarrow> ref_server \<Rightarrow> go_error option \<times> ref_server" where
  "ref_delete req s =
     (case req of
        DeleteUUIDs us \<Rightarrow>
          (if list_all (\<lambda>u. list_ex (\<lambda>(k, e). map_option fst (map_of (ref_table s) k) = Some u) (ref_table s)) us
           then (None, s\<lparr>ref_table := filter (\<lambda>(k, e). \<not> list_ex (\<lambda>u. map_option fst (map_of (ref_table s) k) = Some u) us) (ref_table s)\<rparr>)
           else (Some (Errorf ''can't find a specified path'' [] None), s))
      | DeletePaths ps \<Rightarrow>
          (None, s\<lparr>ref_table := fold (\<lambda>p t. case bp_nlri p of None \<Rightarrow> t | Some k \<Rightarrow> gm_del k t) ps (ref_table s)\<rparr>))"

fun ref_add :: "bgp_path list \<Rightarrow> ref_server \<Rightarrow> add_path_response list \<times> ref_server" where
  "ref_add [] s = ([], s)"
| "ref_add (p # ps) s =
     (case bp_nlri p of
        None \<Rightarrow> (let (rs, s') = ref_add ps s in (\<lparr>apr_uuid = 0, apr_error = Some (Errorf ''nlri is nil'' [] None)\<rparr> # rs, s'))
      | Some k \<Rightarrow>
          (let (rs, s') = ref_add ps (s\<lparr>ref_next := Suc (ref_next s), ref_table := gm_put k (ref_next s, p) (ref_table s)\<rparr>)
           in (\<lparr>apr_uuid = ref_next s, apr_error = None\<rparr> # rs, s')))"

definition ref_gobgp :: "ref_server gobgp" where
  "ref_gobgp =
     \<lparr>g_NewIPAddrPrefix = (\<lambda>_. None), g_NewPathAttributeNextHop = (\<lambda>_. None),
      g_AsPathString = (\<lambda>_. []), g_nlri_String = (\<lambda>_. []),
      g_StartBgp = (\<lambda>_ s. (None, s)), g_AddPeer = (\<lambda>_ s. (None, s)),
      g_AddPath = (\<lambda>ps s. map_prod Inr id (ref_add ps s)), g_DeletePath = ref_delete,
      g_ListPeer = (\<lambda>s. (None, [])),
      g_ListPath = (\<lambda>req s. (None, case nlri_of (lpr_prefix req) of None \<Rightarrow> []
         | Some k \<Rightarrow> (case map_of (ref_table s) k of None \<Rightarrow> [] | Some (u, p) \<Rightarrow> [(k, [p])])))\<rparr>"

lemma map_of_filter_key: "map_of (filter (\<lambda>(k, v). P k) xs) k = (if P k then map_of xs k else None)"
  by (induction xs) auto

interpretation ref: gobgp_rib ref_gobgp "\<lambda>s. map_of (ref_table s)" "\<lambda>s. {..<ref_next s}"
proof (unfold_locales, goal_cases)
  case (1 p s r rs s' k)
  then show ?case by (auto simp: ref_gobgp_def update_conv')
next
  case (2 p s res s')
  then show ?case by (auto simp: ref_gobgp_def split: option.splits)
next
  case (3 u s s')
  have ex: "\<exists>k p. map_of (ref_table s) k = Some (u, p)"
    using 3 by (auto simp: ref_gobgp_def ref_delete_def list_ex_iff split: if_splits)
  have "s' = s\<lparr>ref_table := filter (\<lambda>(k, e). map_option fst (map_of (ref_table s) k) \<noteq> Some u) (ref_table s)\<rparr>"
    using 3 by (auto simp: ref_gobgp_def ref_delete_def split: if_splits)
  then show ?case using ex by (simp add: map_of_filter_key)
next
  case (4 p s s' k)
  then show ?case by (auto simp: ref_gobgp_def ref_delete_def delete_conv')
next
  case (5 req s e s')
  then show ?case by (auto simp: ref_gobgp_def ref_delete_def split: delete_path_request.splits if_splits)
qed

end
