(* ===== verification/Route_Properties.thy ===== *)
theory Route_Properties
  imports Bgp_Contract
begin

text \<open>
  Properties of the policy manager and the BGP manager together: the table of the BGP server follows
  the states of the VIPs. They rest on the contract proved in \<open>Bgp_Contract\<close>; the concrete instances
  run the model on the reference server.
\<close>

section \<open>Data for the concrete instances\<close>

definition ex_bgp :: "ref_server bgp_manager" where
  "ex_bgp = bgp_NewManager \<lparr>ref_next = 0, ref_table = []\<rparr> ex_config False"

definition ex_web :: vip_config where
  "ex_web = ex_vip ''web'' ''192.0.2.1/32'' [''a'']"

definition ex_start :: "ref_server bgp_manager manager" where
  "ex_start = NewManager ex_env [ex_web] [] (Some (notifier_of ref_gobgp)) ex_bgp"


definition ex_nlri :: ip_prefix where
  "ex_nlri = \<lparr>px_addr = IP4 3221225985, px_bits = 32\<rparr>"

definition ex_path :: bgp_path where
  "ex_path =
     \<lparr>bp_family = RF_IPv4_UC, bp_nlri = Some ex_nlri,
      bp_attrs = [AttrOrigin 0, AttrNextHop (IP4 167772161), AttrAsPath [(2, [65001])], AttrCommunities [4259905537]]\<rparr>"

text \<open>The VIP announced after its check became healthy.\<close>

definition ex_announced :: "ref_server bgp_manager manager" where
  "ex_announced = OnHealthTransition ex_env (ex_health ''web'' ''a'' True) ex_start"

lemma nlri_of_web: "nlri_of ''192.0.2.1/32'' = Some ex_nlri"
  by (simp add: nlri_of_def net_eval ex_nlri_def)

lemma buildPath_web:
  "buildPath ref_gobgp ''192.0.2.1/32'' \<lparr>ra_as_path_prepend = 1, ra_communities = [''65001:1'']\<rparr> ex_bgp = Inr ex_path"
  by (simp add: buildPath_def net_eval ref_gobgp_def nextHopFor_def ex_bgp_def bgp_NewManager_def ex_config_def
      Is6_def Is4_def as_path_params_def buildASPath_def hasIBGPPeer_def parse_community_def parse_uint_def
      community_word_def ex_path_def ex_nlri_def)

lemma upsertVIP_web:
  "upsertVIP ref_gobgp ''192.0.2.1/32'' \<lparr>ra_as_path_prepend = 1, ra_communities = [''65001:1'']\<rparr> op ex_bgp =
   (None, ex_bgp\<lparr>bm_server := \<lparr>ref_next = 1, ref_table = [(ex_nlri, (0, ex_path))]\<rparr>,
                 bm_installed := [(''192.0.2.1/32'', 0)]\<rparr>)"
  unfolding upsertVIP_def buildPath_web
  by (simp add: ref_gobgp_def Let_def ex_bgp_def bgp_NewManager_def syncRouteStateMetric_def ex_path_def)

lemmas policy_eval = NewManager_def newVIPEntry_def OnHealthTransition_def Let_def CheckList_def
  check_EffectiveName_def CompileChecksPolicy_def ChecksPolicyAny_def ChecksPolicyAll_def resolve_check_def
  combineHealth_def Eval_def gm_get0_def transitionStateLocked_def lowerPriorityFilePresent_def Evaluate_def
  applyBGP_def BaseRouteAttrs_def put_entry_def ex_vip_def ex_check_def ex_health_def ex_policy_def

lemma ex_announced_entry:
  "map_option (\<lambda>e. (vs_state (ve_state e), vs_bgp_pending (ve_state e), ve_cfg e))
     (map_of (m_vips ex_announced) ''web'') = Some (StateAnnounced, False, ex_web)"
  by (simp add: ex_announced_def ex_start_def ex_web_def policy_eval notifier_of_def AnnounceVIP_def upsertVIP_web)

interpretation ref_mgr: bgp_instance ref_gobgp "\<lambda>s. map_of (ref_table s)" "\<lambda>s. {..<ref_next s}" ex_bgp
  by unfold_locales

text \<open>A VIP with two checks, announced because one of them is healthy; the other never reported.\<close>

definition ex_two_checks :: "ref_server bgp_manager manager" where
  "ex_two_checks = OnHealthTransition ex_env (ex_health ''web'' ''a'' True)
     (NewManager ex_env [ex_vip ''web'' ''192.0.2.1/32'' [''a'', ''b'']] [] (Some (notifier_of ref_gobgp)) ex_bgp)"

definition ex_fresh_check :: "string \<Rightarrow> check_state" where
  "ex_fresh_check name =
     \<lparr>cks_cfg = ex_check name, cks_health = HealthUnknown, cks_last_result = zero_result, cks_last_time = 0\<rparr>"

lemma newVIPEntry_two_checks:
  "newVIPEntry ex_env (ex_vip ''web'' ''192.0.2.1/32'' [''a'', ''b'']) =
     \<lparr>ve_cfg = ex_vip ''web'' ''192.0.2.1/32'' [''a'', ''b''],
      ve_eval = \<lparr>ev_policy = ChecksPolicyAny, ev_names = [''a'', ''b''], ev_program = None\<rparr>,
      ve_state = \<lparr>vs_state = StateWithdrawn, vs_health = HealthUnknown,
                  vs_checks = [(''a'', ex_fresh_check ''a''), (''b'', ex_fresh_check ''b'')],
                  vs_lower_priority_file_on = False, vs_last_transition_at = 1000,
                  vs_last_transition_reason = ''initial'', vs_bgp_pending = False\<rparr>\<rparr>"
  by (simp add: newVIPEntry_def ex_fresh_check_def Let_def ex_vip_def CheckList_def check_EffectiveName_def ex_check_def
      CompileChecksPolicy_def ChecksPolicyAny_def lowerPriorityFilePresent_def ex_env_def ex_policy_def)

lemma applyBGP_web:
  "applyBGP (notifier_of ref_gobgp) (ex_vip ''web'' ''192.0.2.1/32'' cs) StateAnnounced ex_bgp =
   (None, ex_bgp\<lparr>bm_server := \<lparr>ref_next = 1, ref_table = [(ex_nlri, (0, ex_path))]\<rparr>,
                 bm_installed := [(''192.0.2.1/32'', 0)]\<rparr>)"
  by (simp add: applyBGP_def notifier_of_def AnnounceVIP_def BaseRouteAttrs_def ex_vip_def ex_policy_def upsertVIP_web)

lemma ex_two_checks_entry:
  "\<exists>e. map_of (m_vips ex_two_checks) ''web'' = Some e \<and> vs_state (ve_state e) = StateAnnounced \<and>
     ve_cfg e = ex_vip ''web'' ''192.0.2.1/32'' [''a'', ''b''] \<and>
     vs_checks (ve_state e) =
       [(''a'', (ex_fresh_check ''a'')\<lparr>cks_health := HealthHealthy\<rparr>), (''b'', ex_fresh_check ''b'')]"
proof -
  let ?v = "ex_vip ''web'' ''192.0.2.1/32'' [''a'', ''b'']" and ?t = "ex_health ''web'' ''a'' True"
  define m where "m = NewManager ex_env [?v] [] (Some (notifier_of ref_gobgp)) ex_bgp"
  have m: "map_of (m_vips m) (ht_vip_name ?t) = Some (newVIPEntry ex_env ?v)" "m_notifier m = Some (notifier_of ref_gobgp)" "m_bgp m = ex_bgp"
    by (simp_all add: m_def NewManager_def)
  have rc: "resolve_check (vs_checks (ve_state (newVIPEntry ex_env ?v))) (ht_check_name ?t) = Some (''a'', ex_fresh_check ''a'')"
    by (simp add: newVIPEntry_two_checks resolve_check_def)
  have h: "combineHealth (ve_eval (newVIPEntry ex_env ?v))
      [(''a'', (ex_fresh_check ''a'')\<lparr>cks_health := HealthHealthy\<rparr>), (''b'', ex_fresh_check ''b'')] = HealthHealthy"
    by (simp add: newVIPEntry_two_checks combineHealth_def Eval_any gm_get0_def ex_fresh_check_def)
  show ?thesis
    using OnHealthTransition_moves [OF m(1) rc _ h _ _ _ m(2), where ns = StateAnnounced and env = ex_env]
    by (simp add: newVIPEntry_two_checks m(3) applyBGP_web lowerPriorityFilePresent_def Evaluate_def ex_two_checks_def flip: m_def) blast
qed

text \<open>A notifier whose withdraws always fail; its state is the list of announced prefixes.\<close>

definition ex_stuck_notifier :: "string list bgp_notifier" where
  "ex_stuck_notifier =
     \<lparr>bn_AnnounceVIP = (\<lambda>p a b. (None, p # b)),
      bn_WithdrawVIP = (\<lambda>p b. (Some (Errorf ''withdraw failed'' [] None), b)),
      bn_PessimizeVIP = (\<lambda>p a b. (None, p # b))\<rparr>"

definition ex_stuck :: "string list manager" where
  "ex_stuck = OnHealthTransition ex_env (ex_health ''web'' ''a'' False)
     (OnHealthTransition ex_env (ex_health ''web'' ''a'' True)
       (NewManager ex_env [ex_web] [] (Some ex_stuck_notifier) []))"

lemma newVIPEntry_web:
  "newVIPEntry ex_env ex_web =
     \<lparr>ve_cfg = ex_web, ve_eval = \<lparr>ev_policy = ChecksPolicyAny, ev_names = [''a''], ev_program = None\<rparr>,
      ve_state = \<lparr>vs_state = StateWithdrawn, vs_health = HealthUnknown, vs_checks = [(''a'', ex_fresh_check ''a'')],
                  vs_lower_priority_file_on = False, vs_last_transition_at = 1000,
                  vs_last_transition_reason = ''initial'', vs_bgp_pending = False\<rparr>\<rparr>"
  by (simp add: newVIPEntry_def ex_web_def ex_fresh_check_def Let_def ex_vip_def CheckList_def check_EffectiveName_def
      ex_check_def CompileChecksPolicy_def ChecksPolicyAny_def lowerPriorityFilePresent_def ex_env_def ex_policy_def)

lemma ex_web_sel [simp]:
  "v_name ex_web = ''web''" "v_prefix ex_web = ''192.0.2.1/32''"
  "v_policy ex_web = ex_policy\<lparr>pc_fail_action := ''withdraw''\<rparr>"
  by (simp_all add: ex_web_def)

lemma applyBGP_stuck:
  "applyBGP ex_stuck_notifier v StateAnnounced b = (None, v_prefix v # b)"
  "applyBGP ex_stuck_notifier v StateWithdrawn b = (Some (Errorf ''withdraw failed'' [] None), b)"
  by (simp_all add: applyBGP_def ex_stuck_notifier_def)

text \<open>The check becomes healthy and then unhealthy; the withdraw fails and stays pending.\<close>

lemma ex_stuck_entry:
  "\<exists>e. map_of (m_vips ex_stuck) ''web'' = Some e \<and> vs_state (ve_state e) = StateWithdrawn \<and>
     vs_bgp_pending (ve_state e) \<and> m_bgp ex_stuck = [''192.0.2.1/32'']"
proof -
  let ?up = "ex_health ''web'' ''a'' True" and ?down = "ex_health ''web'' ''a'' False"
  define m where "m = NewManager ex_env [ex_web] [] (Some ex_stuck_notifier) []"
  define m1 where "m1 = OnHealthTransition ex_env ?up m"
  have m: "map_of (m_vips m) (ht_vip_name ?up) = Some (newVIPEntry ex_env ex_web)" "m_notifier m = Some ex_stuck_notifier" "m_bgp m = []"
    by (simp_all add: m_def NewManager_def)
  have rc: "resolve_check (vs_checks (ve_state (newVIPEntry ex_env ex_web))) (ht_check_name ?up) = Some (''a'', ex_fresh_check ''a'')"
    by (simp add: newVIPEntry_web resolve_check_def)
  have h: "combineHealth \<lparr>ev_policy = ChecksPolicyAny, ev_names = [''a''], ev_program = None\<rparr>
      [(''a'', (ex_fresh_check ''a'')\<lparr>cks_health := hs\<rparr>)] = hs" if "hs \<noteq> HealthUnknown" for hs
    using that by (cases hs) (simp_all add: combineHealth_def Eval_any gm_get0_def)
  obtain e1 where e1: "map_of (m_vips m1) ''web'' = Some e1" "vs_state (ve_state e1) = StateAnnounced"
      "vs_health (ve_state e1) = HealthHealthy" "ve_cfg e1 = ex_web"
      "ve_eval e1 = \<lparr>ev_policy = ChecksPolicyAny, ev_names = [''a''], ev_program = None\<rparr>"
      "vs_checks (ve_state e1) = [(''a'', (ex_fresh_check ''a'')\<lparr>cks_health := HealthHealthy\<rparr>)]"
      "m_bgp m1 = [''192.0.2.1/32'']" "m_notifier m1 = Some ex_stuck_notifier"
    using OnHealthTransition_moves [OF m(1) rc _ _ _ _ _ m(2), where h = HealthHealthy and ns = StateAnnounced and env = ex_env
        and err = None and b' = "[''192.0.2.1/32'']"] h [of HealthHealthy]
    by (auto simp: newVIPEntry_web m(2,3) lowerPriorityFilePresent_def Evaluate_def applyBGP_stuck simp flip: m1_def)
  have rc1: "resolve_check (vs_checks (ve_state e1)) (ht_check_name ?down) =
      Some (''a'', (ex_fresh_check ''a'')\<lparr>cks_health := HealthHealthy\<rparr>)"
    by (simp add: e1 resolve_check_def)
  have "OnHealthTransition ex_env ?down m1 = ex_stuck" by (simp add: ex_stuck_def m1_def m_def)
  then show ?thesis
    using OnHealthTransition_moves [OF _ rc1 _ _ _ _ _ e1(8), where h = HealthUnhealthy and ns = StateWithdrawn and env = ex_env
        and b' = "[''192.0.2.1/32'']" and err = "Some (Errorf ''withdraw failed'' [] None)"] h [of HealthUnhealthy] e1
    by (auto simp: lowerPriorityFilePresent_def Evaluate_def applyBGP_stuck)
qed

section \<open>Properties\<close>





text \<open>C13: A reload that leaves no check with a known health freezes the VIP: whatever the new
  definition says, its state stays as it was and the BGP side is not touched. A VIP that was announced
  thanks to a check the reload drops stays announced although none of its remaining checks ever
  passed.\<close>

theorem commit_unknown_freezes:
  assumes "CommitVIP env cfg seeds m = (None, m')" and "map_of (m_vips m) (v_name cfg) = Some e"
    and "map_of (m_vips m') (v_name cfg) = Some e'" and "vs_health (ve_state e') = HealthUnknown"
  shows "vs_state (ve_state e') = vs_state (ve_state e) \<and> m_bgp m' = m_bgp m \<and> ve_cfg e' = cfg"
proof (cases rule: CommitVIP_cases [of env cfg seeds m])
  case (switched e0 running nxt eval vs1 m2 m3 vs2)
  have e': "e' = \<lparr>ve_cfg = cfg, ve_eval = eval, ve_state = vs2\<rparr>" "m_bgp m' = m_bgp m3"
    using switched(8) assms(1,3) by (auto simp: gomap_simps)
  have "combineHealth eval nxt = HealthUnknown" using commit_switch_vs(2) [OF switched(7)] e' assms(4) by simp
  then have "m_bgp m3 = m_bgp m2" using switched(7) by (auto simp: commit_switch_def Let_def)
  then show ?thesis
    using commit_switch_vs(4) [OF switched(7)] e' assms(2,4) switched(1,5,6) by simp
qed (use assms in simp_all)

theorem commit_unknown_freezes_witness:
  "\<exists>e'. map_of (m_vips (snd (CommitVIP ex_env (ex_vip ''web'' ''192.0.2.1/32'' [''b'']) [] ex_two_checks))) ''web'' = Some e' \<and>
     vs_health (ve_state e') = HealthUnknown \<and> vs_state (ve_state e') = StateAnnounced"
proof -
  define cfg where "cfg = ex_vip ''web'' ''192.0.2.1/32'' [''b'']"
  have cfg: "v_name cfg = ''web''" "v_prefix cfg = ''192.0.2.1/32''" "CheckList cfg = [ex_check ''b'']"
      "check_EffectiveName (ex_check ''b'') = ''b''" "EffectiveChecksPolicy cfg = ChecksPolicyAny"
    by (simp_all add: cfg_def ex_vip_def CheckList_def check_EffectiveName_def ex_check_def
        EffectiveChecksPolicy_def ChecksPolicyAny_def)
  obtain e where e: "map_of (m_vips ex_two_checks) ''web'' = Some e" "vs_state (ve_state e) = StateAnnounced"
      "ve_cfg e = ex_vip ''web'' ''192.0.2.1/32'' [''a'', ''b'']"
      "vs_checks (ve_state e) = [(''a'', (ex_fresh_check ''a'')\<lparr>cks_health := HealthHealthy\<rparr>), (''b'', ex_fresh_check ''b'')]"
    using ex_two_checks_entry by blast
  have cc: "\<exists>running. commit_checks [] (CheckList cfg) (vs_checks (ve_state e), []) =
      (None, running, [(''b'', ex_fresh_check ''b'')])"
    by (simp add: cfg e ex_fresh_check_def Let_def)
  have unk: "combineHealth ev [(''b'', ex_fresh_check ''b'')] = HealthUnknown" for ev
    by (simp add: combineHealth_def ex_fresh_check_def)
  have "\<exists>m' e'. CommitVIP ex_env cfg [] ex_two_checks = (None, m') \<and> map_of (m_vips m') ''web'' = Some e' \<and>
      vs_health (ve_state e') = HealthUnknown"
  proof (cases rule: CommitVIP_cases [of ex_env cfg "[]" ex_two_checks])
    case (refused err)
    then show ?thesis using e cfg by simp
  next
    case (failed e0 missing running nxt err ops)
    then show ?thesis using e cfg cc CompileChecksPolicy_shortcut [of ChecksPolicyAny] by simp
  next
    case (switched e0 running nxt eval vs1 m2 m3 vs2)
    have "nxt = [(''b'', ex_fresh_check ''b'')]" using switched(1,3) e cfg cc by simp
    then show ?thesis
      using commit_switch_vs(2) [OF switched(7)] unk switched(8) cfg by (simp add: gomap_simps)
  qed
  then obtain m' e' where out: "CommitVIP ex_env cfg [] ex_two_checks = (None, m')" "map_of (m_vips m') ''web'' = Some e'"
      "vs_health (ve_state e') = HealthUnknown" by blast
  have e': "map_of (m_vips ex_two_checks) (v_name cfg) = Some e" "map_of (m_vips m') (v_name cfg) = Some e'"
    using e(1) out(2) cfg(1) by simp_all
  have "vs_state (ve_state e') = StateAnnounced"
    using commit_unknown_freezes [OF out(1) e' out(3)] e(2) by simp
  then show ?thesis using out by (simp add: cfg_def)
qed



end
