(* ===== verification/Config_Diff.thy ===== *)
theory Config_Diff
  imports Config Example_Data
begin

text \<open>
  Comparing two configurations (\<open>internal/config/diff.go\<close>): what a reload may change at run time, and
  how the VIP lists differ.

  \<open>reflect.DeepEqual\<close> is equality of the records; it can only report more differences than that, when a
  nil slice or map meets an empty one.
\<close>

definition RestartRequired :: "config \<Rightarrow> config \<Rightarrow> string list" where
  "RestartRequired running candidate =
     (if c_schema running \<noteq> c_schema candidate then [''schema''] else []) @
     (if c_router running \<noteq> c_router candidate then [''router''] else []) @
     (if c_api running \<noteq> c_api candidate then [''api''] else []) @
     (if (c_logging running)\<lparr>log_level := []\<rparr> \<noteq> (c_logging candidate)\<lparr>log_level := []\<rparr>
      then [''logging (other than level)''] else []) @
     (if c_otel running \<noteq> c_otel candidate then [''otel''] else []) @
     (if c_paths running \<noteq> c_paths candidate then [''paths''] else []) @
     (if (c_bgp running)\<lparr>bgp_neighbors := []\<rparr> \<noteq> (c_bgp candidate)\<lparr>bgp_neighbors := []\<rparr>
      then [''bgp''] else []) @
     (if bgp_neighbors (c_bgp running) \<noteq> bgp_neighbors (c_bgp candidate) then [''bgp.neighbors''] else [])"

record vip_change =
  ch_old :: vip_config
  ch_new :: vip_config
  ch_checks_changed :: "check_config list"
  ch_checks_removed :: "check_config list"
  ch_policy_changed :: bool

record vip_changes =
  df_added :: "vip_config list"
  df_removed :: "vip_config list"
  df_changed :: "vip_change list"
  df_unchanged :: "string list"

definition VIPChanges_IsEmpty :: "vip_changes \<Rightarrow> bool" where
  "VIPChanges_IsEmpty c = (df_added c = [] \<and> df_removed c = [] \<and> df_changed c = [])"

definition diffVIP :: "vip_config \<Rightarrow> vip_config \<Rightarrow> vip_change" where
  "diffVIP ov nv =
     (let guardChanged = (v_require_local_address ov \<noteq> v_require_local_address nv \<or>
                          v_local_interface ov \<noteq> v_local_interface nv);
          oldChecks = fold (\<lambda>c m. gm_put (check_EffectiveName c) c m) (CheckList ov) [];
          newNames = map check_EffectiveName (CheckList nv)
      in \<lparr>ch_old = ov, ch_new = nv,
          ch_checks_changed =
            filter (\<lambda>c. case map_of oldChecks (check_EffectiveName c) of
                          None \<Rightarrow> True
                        | Some oc \<Rightarrow> guardChanged \<or> oc \<noteq> c) (CheckList nv),
          ch_checks_removed =
            filter (\<lambda>c. \<not> List.member newNames (check_EffectiveName c)) (CheckList ov),
          ch_policy_changed =
            (v_policy ov \<noteq> v_policy nv \<or> EffectiveChecksPolicy ov \<noteq> EffectiveChecksPolicy nv)\<rparr>)"

text \<open>The loop over the candidate: \<open>old\<close> is the running list by name.\<close>

fun diff_candidate :: "(string, vip_config) gomap \<Rightarrow> vip_config list \<Rightarrow> vip_changes \<Rightarrow> vip_changes" where
  "diff_candidate old [] out = out"
| "diff_candidate old (nv # nvs) out =
     diff_candidate old nvs
       (case map_of old (v_name nv) of
          None \<Rightarrow> out\<lparr>df_added := df_added out @ [nv]\<rparr>
        | Some ov \<Rightarrow>
            (if v_prefix ov \<noteq> v_prefix nv then
               out\<lparr>df_removed := df_removed out @ [ov], df_added := df_added out @ [nv]\<rparr>
             else if ov = nv then out\<lparr>df_unchanged := df_unchanged out @ [v_name nv]\<rparr>
             else out\<lparr>df_changed := df_changed out @ [diffVIP ov nv]\<rparr>))"

definition DiffVIPs :: "vip_config list \<Rightarrow> vip_config list \<Rightarrow> vip_changes" where
  "DiffVIPs running candidate =
     (let old = fold (\<lambda>v m. gm_put (v_name v) v m) running [];
          seen = map v_name candidate;
          out = diff_candidate old candidate \<lparr>df_added = [], df_removed = [], df_changed = [], df_unchanged = []\<rparr>
      in out\<lparr>df_removed := df_removed out @ filter (\<lambda>v. \<not> List.member seen (v_name v)) running\<rparr>)"

section \<open>Lemmas\<close>

text \<open>The loop only filters, so each list of the result can be read off on its own.\<close>

definition kept_prefix :: "(string, vip_config) gomap \<Rightarrow> vip_config \<Rightarrow> bool" where
  "kept_prefix old nv = (case map_of old (v_name nv) of None \<Rightarrow> False | Some ov \<Rightarrow> v_prefix ov = v_prefix nv)"

lemma diff_candidate_lists:
  "df_added (diff_candidate old nvs out) = df_added out @ filter (\<lambda>nv. \<not> kept_prefix old nv) nvs"
  "df_unchanged (diff_candidate old nvs out) =
     df_unchanged out @ map v_name (filter (\<lambda>nv. map_of old (v_name nv) = Some nv) nvs)"
  "df_changed (diff_candidate old nvs out) =
     df_changed out @ map (\<lambda>nv. diffVIP (the (map_of old (v_name nv))) nv)
       (filter (\<lambda>nv. kept_prefix old nv \<and> map_of old (v_name nv) \<noteq> Some nv) nvs)"
  "df_removed (diff_candidate old nvs out) =
     df_removed out @ map (\<lambda>nv. the (map_of old (v_name nv)))
       (filter (\<lambda>nv. map_of old (v_name nv) \<noteq> None \<and> \<not> kept_prefix old nv) nvs)"
  by (induction old nvs out rule: diff_candidate.induct) (auto simp: kept_prefix_def split: option.split)

text \<open>With distinct names the map of the running list finds exactly its elements.\<close>

lemma fold_put_lookup:
  assumes "distinct (map k xs)"
  shows "map_of (fold (\<lambda>x m. gm_put (k x) x m) xs []) q = find (\<lambda>x. k x = q) xs"
proof -
  have "map_of (fold (\<lambda>x m. gm_put (k x) x m) xs m) q =
      (case find (\<lambda>x. k x = q) xs of Some x \<Rightarrow> Some x | None \<Rightarrow> map_of m q)"
    if "distinct (map k xs)" for m
    using that
  proof (induction xs arbitrary: m)
    case (Cons x xs)
    have "find (\<lambda>y. k y = q) xs = None" if "k x = q"
      using Cons.prems that by (simp add: find_None_iff) (metis imageI)
    then show ?case using Cons by (auto simp: gomap_simps split: option.split)
  qed simp
  from this [OF assms, of "[]"] show ?thesis by (simp split: option.split)
qed

lemma find_distinct:
  assumes "distinct (map k xs)"
  shows "find (\<lambda>x. k x = q) xs = Some x \<longleftrightarrow> x \<in> set xs \<and> k x = q"
proof
  show "find (\<lambda>x. k x = q) xs = Some x \<Longrightarrow> x \<in> set xs \<and> k x = q"
    by (auto simp: find_Some_iff)
next
  assume "x \<in> set xs \<and> k x = q"
  with assms show "find (\<lambda>x. k x = q) xs = Some x"
    by (induction xs) auto
qed

definition same_vip :: "vip_config \<Rightarrow> vip_config \<Rightarrow> bool" where
  "same_vip ov nv \<longleftrightarrow> v_name ov = v_name nv \<and> v_prefix ov = v_prefix nv"

lemma same_name_eq: "distinct (map v_name vs) \<Longrightarrow> v \<in> set vs \<Longrightarrow> w \<in> set vs \<Longrightarrow> v_name v = v_name w \<Longrightarrow> v = w"
  by (auto simp: distinct_map dest: inj_onD)

lemma running_lookup:
  assumes "distinct (map v_name running)"
  shows "map_of (fold (\<lambda>v m. gm_put (v_name v) v m) running []) q = Some v \<longleftrightarrow> v \<in> set running \<and> v_name v = q"
  using fold_put_lookup [OF assms] find_distinct [OF assms] by simp

lemma kept_prefix_running:
  assumes "distinct (map v_name running)"
  shows "kept_prefix (fold (\<lambda>v m. gm_put (v_name v) v m) running []) nv \<longleftrightarrow> (\<exists>ov \<in> set running. same_vip ov nv)"
proof -
  let ?old = "fold (\<lambda>v m. gm_put (v_name v) v m) running []"
  show ?thesis
  proof (cases "map_of ?old (v_name nv)")
    case None
    then have "\<not> (\<exists>ov \<in> set running. v_name ov = v_name nv)"
      using running_lookup [OF assms, of "v_name nv"] by auto
    then show ?thesis using None by (auto simp: kept_prefix_def same_vip_def)
  next
    case (Some ov)
    then have ov: "ov \<in> set running" "v_name ov = v_name nv" using running_lookup [OF assms] by auto
    have only: "v = ov" if "v \<in> set running" "same_vip v nv" for v
      using that ov same_name_eq [OF assms that(1) ov(1)] by (simp add: same_vip_def)
    have "(\<exists>v \<in> set running. same_vip v nv) \<longleftrightarrow> same_vip ov nv" using ov(1) only by blast
    then show ?thesis using Some ov(2) by (simp add: kept_prefix_def same_vip_def)
  qed
qed

lemma diffVIP_sel [simp]: "ch_old (diffVIP a b) = a" "ch_new (diffVIP a b) = b"
  by (simp_all add: diffVIP_def Let_def)

text \<open>The four lists of the difference, as sets.\<close>

lemma df_added_set:
  assumes "distinct (map v_name running)"
  shows "set (df_added (DiffVIPs running candidate)) = {nv \<in> set candidate. \<forall>ov \<in> set running. \<not> same_vip ov nv}"
  by (auto simp: DiffVIPs_def Let_def diff_candidate_lists kept_prefix_running [OF assms])

lemma df_unchanged_set:
  assumes "distinct (map v_name running)"
  shows "set (df_unchanged (DiffVIPs running candidate)) = v_name ` (set running \<inter> set candidate)"
  by (auto simp: DiffVIPs_def Let_def diff_candidate_lists running_lookup [OF assms])

lemma df_changed_set:
  assumes "distinct (map v_name running)"
  shows "set (df_changed (DiffVIPs running candidate)) =
    {diffVIP ov nv | ov nv. ov \<in> set running \<and> nv \<in> set candidate \<and> same_vip ov nv \<and> ov \<noteq> nv}"
proof -
  let ?old = "fold (\<lambda>v m. gm_put (v_name v) v m) running []"
  have pick: "map_of ?old (v_name nv) = Some ov" if "ov \<in> set running" "same_vip ov nv" for ov nv
    using that running_lookup [OF assms] by (simp add: same_vip_def)
  let ?new = "filter (\<lambda>nv. (\<exists>ov \<in> set running. same_vip ov nv) \<and> map_of ?old (v_name nv) \<noteq> Some nv) candidate"
  have "set (df_changed (DiffVIPs running candidate)) = (\<lambda>nv. diffVIP (the (map_of ?old (v_name nv))) nv) ` set ?new"
    by (simp add: DiffVIPs_def Let_def diff_candidate_lists kept_prefix_running [OF assms])
  also have "\<dots> = {diffVIP ov nv | ov nv. ov \<in> set running \<and> nv \<in> set candidate \<and> same_vip ov nv \<and> ov \<noteq> nv}"
  proof (intro set_eqI iffI)
    fix x assume "x \<in> (\<lambda>nv. diffVIP (the (map_of ?old (v_name nv))) nv) ` set ?new"
    then obtain nv ov where "nv \<in> set candidate" "ov \<in> set running" "same_vip ov nv" "map_of ?old (v_name nv) \<noteq> Some nv"
        "x = diffVIP (the (map_of ?old (v_name nv))) nv" by auto
    then show "x \<in> {diffVIP ov nv | ov nv. ov \<in> set running \<and> nv \<in> set candidate \<and> same_vip ov nv \<and> ov \<noteq> nv}"
      using pick [of ov nv] by auto
  next
    fix x assume "x \<in> {diffVIP ov nv | ov nv. ov \<in> set running \<and> nv \<in> set candidate \<and> same_vip ov nv \<and> ov \<noteq> nv}"
    then obtain ov nv where x: "x = diffVIP ov nv" and v: "ov \<in> set running" "nv \<in> set candidate" "same_vip ov nv" "ov \<noteq> nv"
      by blast
    then have "nv \<in> set ?new" "x = diffVIP (the (map_of ?old (v_name nv))) nv" using pick [of ov nv] by auto
    then show "x \<in> (\<lambda>nv. diffVIP (the (map_of ?old (v_name nv))) nv) ` set ?new" by blast
  qed
  finally show ?thesis .
qed

lemma df_removed_set:
  assumes "distinct (map v_name running)" and "distinct (map v_name candidate)"
  shows "set (df_removed (DiffVIPs running candidate)) = {ov \<in> set running. \<forall>nv \<in> set candidate. \<not> same_vip ov nv}"
proof -
  let ?old = "fold (\<lambda>v m. gm_put (v_name v) v m) running []"
  have "set (df_removed (DiffVIPs running candidate)) =
      {ov. \<exists>nv \<in> set candidate. map_of ?old (v_name nv) = Some ov \<and> \<not> (\<exists>ov \<in> set running. same_vip ov nv)} \<union>
      {ov \<in> set running. v_name ov \<notin> v_name ` set candidate}"
    by (force simp: DiffVIPs_def Let_def diff_candidate_lists kept_prefix_running [OF assms(1)])
  also have "\<dots> = {ov \<in> set running. \<forall>nv \<in> set candidate. \<not> same_vip ov nv}"
    using same_name_eq [OF assms(1)] same_name_eq [OF assms(2)]
    by (auto simp: running_lookup [OF assms(1)] same_vip_def image_iff) metis+
  finally show ?thesis .
qed

lemma df_removed_distinct:
  assumes "distinct (map v_name running)" and "distinct (map v_name candidate)"
  shows "distinct (map v_name (df_removed (DiffVIPs running candidate)))"
proof -
  let ?old = "fold (\<lambda>v m. gm_put (v_name v) v m) running []"
  let ?moved = "filter (\<lambda>nv. map_of ?old (v_name nv) \<noteq> None \<and> \<not> kept_prefix ?old nv) candidate"
  have "v_name (the (map_of ?old (v_name nv))) = v_name nv" if "nv \<in> set ?moved" for nv
  proof -
    obtain ov where ov: "map_of ?old (v_name nv) = Some ov" using \<open>nv \<in> set ?moved\<close> by auto
    then have "v_name ov = v_name nv" by (simp add: running_lookup [OF assms(1)])
    then show ?thesis by (simp add: ov)
  qed
  then have "map (v_name \<circ> (\<lambda>nv. the (map_of ?old (v_name nv)))) ?moved = map v_name ?moved"
    by (simp only: map_eq_conv o_apply) blast
  then have "map v_name (df_removed (DiffVIPs running candidate)) =
      map v_name ?moved @ map v_name (filter (\<lambda>v. \<not> List.member (map v_name candidate) (v_name v)) running)"
    by (simp add: DiffVIPs_def Let_def diff_candidate_lists)
  then show ?thesis using assms by (auto simp: distinct_map_filter) (metis imageI)
qed

section \<open>Properties\<close>


text \<open>C16: The VIP difference is complete and exact: with distinct names, taking the removed VIPs and the
  old definitions of the changed ones out of the running list and putting the added ones and the new
  definitions in gives exactly the candidate, and the unchanged names are the VIPs both lists have with
  the same definition.\<close>

theorem DiffVIPs_patch:
  assumes "distinct (map v_name running)" and "distinct (map v_name candidate)"
    and "DiffVIPs running candidate = d"
  shows "(set running - set (df_removed d) - ch_old ` set (df_changed d)) \<union>
      set (df_added d) \<union> ch_new ` set (df_changed d) = set candidate \<and>
    set (df_unchanged d) = v_name ` (set running \<inter> set candidate)"
proof
  let ?S = "\<lambda>ov nv. ov \<in> set running \<and> nv \<in> set candidate \<and> same_vip ov nv"
  have chg: "ch_old ` set (df_changed d) = {ov. \<exists>nv. ?S ov nv \<and> ov \<noteq> nv}"
    "ch_new ` set (df_changed d) = {nv. \<exists>ov. ?S ov nv \<and> ov \<noteq> nv}"
    unfolding assms(3) [symmetric] df_changed_set [OF assms(1)] by (auto simp: image_iff) (metis diffVIP_sel)+
  have rem: "set (df_removed d) = {ov \<in> set running. \<forall>nv \<in> set candidate. \<not> same_vip ov nv}"
    and add: "set (df_added d) = {nv \<in> set candidate. \<forall>ov \<in> set running. \<not> same_vip ov nv}"
    unfolding assms(3) [symmetric] by (rule df_removed_set [OF assms(1,2)], rule df_added_set [OF assms(1)])
  have "v \<in> set candidate" if "v \<in> set running" "?S v nv" "\<forall>nv. ?S v nv \<longrightarrow> v = nv" for v nv
    using that by metis
  moreover have "v \<in> set running \<and> \<not> (\<exists>nv. ?S v nv \<and> v \<noteq> nv)" if "v \<in> set candidate" "?S v v" for v
    using that same_name_eq [OF assms(2), of v] by (auto simp: same_vip_def)
  ultimately show "(set running - set (df_removed d) - ch_old ` set (df_changed d)) \<union>
      set (df_added d) \<union> ch_new ` set (df_changed d) = set candidate"
    unfolding chg rem add by blast
  show "set (df_unchanged d) = v_name ` (set running \<inter> set candidate)"
    unfolding assms(3) [symmetric] by (rule df_unchanged_set [OF assms(1)])
qed

theorem DiffVIPs_patch_witness:
  "set (df_unchanged (DiffVIPs [ex_vip ''web'' ''192.0.2.1/32'' [''a''], ex_vip ''dns'' ''192.0.2.2/32'' [''a'']]
     [ex_vip ''dns'' ''192.0.2.2/32'' [''a''], ex_vip ''web'' ''192.0.2.9/32'' [''a'']])) = {''dns''}"
  using DiffVIPs_patch [of "[ex_vip ''web'' ''192.0.2.1/32'' [''a''], ex_vip ''dns'' ''192.0.2.2/32'' [''a'']]"
      "[ex_vip ''dns'' ''192.0.2.2/32'' [''a''], ex_vip ''web'' ''192.0.2.9/32'' [''a'']]", OF _ _ refl]
  by (auto simp: ex_vip_def)

text \<open>A check of the new definition that is not listed as changed runs on unchanged: the old
  definition has the very same check under the same name and the local address guard did not change.
  The listed checks are checks of the new definition, and the removed ones are exactly the old checks
  whose name the new definition no longer has.\<close>

theorem diffVIP_checks:
  assumes "distinct (map check_EffectiveName (CheckList ov))"
  shows "set (ch_checks_changed (diffVIP ov nv)) \<subseteq> set (CheckList nv) \<and>
    (\<forall>c \<in> set (CheckList nv) - set (ch_checks_changed (diffVIP ov nv)).
       c \<in> set (CheckList ov) \<and> v_require_local_address ov = v_require_local_address nv \<and>
       v_local_interface ov = v_local_interface nv) \<and>
    (\<forall>c. c \<in> set (ch_checks_removed (diffVIP ov nv)) \<longleftrightarrow>
       c \<in> set (CheckList ov) \<and> check_EffectiveName c \<notin> check_EffectiveName ` set (CheckList nv))"
proof -
  have "map_of (fold (\<lambda>c m. gm_put (check_EffectiveName c) c m) (CheckList ov) []) q = Some c \<longleftrightarrow>
      c \<in> set (CheckList ov) \<and> check_EffectiveName c = q" for q c
    using fold_put_lookup [OF assms] find_distinct [OF assms] by simp
  then show ?thesis by (auto simp: diffVIP_def Let_def split: option.splits)
qed

theorem diffVIP_checks_witness:
  "ex_check ''b'' \<in> set (CheckList (ex_vip ''web'' ''192.0.2.1/32'' [''a'', ''b'']))"
proof -
  let ?ov = "ex_vip ''web'' ''192.0.2.1/32'' [''a'', ''b'']" and ?nv = "ex_vip ''web'' ''192.0.2.1/32'' [''b'']"
  have d: "distinct (map check_EffectiveName (CheckList ?ov))"
    by (simp add: CheckList_def ex_vip_def check_EffectiveName_def ex_check_def)
  have "ex_check ''b'' \<in> set (CheckList ?nv) - set (ch_checks_changed (diffVIP ?ov ?nv))"
    by (simp add: diffVIP_def CheckList_def ex_vip_def check_EffectiveName_def ex_check_def)
  then show ?thesis using diffVIP_checks [OF d, of ?nv] by blast
qed

end
