(* ===== verification/Registry.thy ===== *)
theory Registry
  imports Scheduler
begin

text \<open>
  The scheduler registry (\<open>internal/checks/registry.go\<close>): which schedulers run, and which of them the
  HTTP API lists.

  A \<open>*Scheduler\<close> is an address (\<open>sid\<close>) and \<open>obj\<close> below is the heap it points into. The goroutine of
  a scheduler is its entry in \<open>reg_running\<close>: cancelling it and waiting for it to end is the deletion of
  that entry. The methods hold the registry's mutex while they change it, so each is one step;
  \<open>RemoveVIP\<close> does not, and it keeps a slice over an array that \<open>Remove\<close> changes in place, so the array is
  explicit there.
\<close>

type_synonym sid = nat

record registry =
  reg_started :: bool
  reg_visible :: "(string, sid list) gomap"
  reg_running :: "(sid, bool) gomap"

text \<open>The value in \<open>reg_running\<close> is the field \<open>shadow\<close> of \<open>runningScheduler\<close>.\<close>

definition NewRegistry :: registry where
  "NewRegistry = \<lparr>reg_started = False, reg_visible = [], reg_running = []\<rparr>"

definition launchLocked :: "sid \<Rightarrow> bool \<Rightarrow> registry \<Rightarrow> registry" where
  "launchLocked s shadow r = r\<lparr>reg_running := gm_put s shadow (reg_running r)\<rparr>"

definition visible_of :: "registry \<Rightarrow> string \<Rightarrow> sid list" where
  "visible_of r vip = gm_get0 [] (reg_visible r) vip"

definition reg_Add :: "(sid \<Rightarrow> scheduler) \<Rightarrow> sid \<Rightarrow> registry \<Rightarrow> registry" where
  "reg_Add obj s r =
     (let vip = s_vip_name (obj s);
          r1 = r\<lparr>reg_visible := gm_put vip (visible_of r vip @ [s]) (reg_visible r)\<rparr>
      in if reg_started r1 then launchLocked s False r1 else r1)"

definition reg_AddShadow :: "sid \<Rightarrow> registry \<Rightarrow> registry" where
  "reg_AddShadow s r = launchLocked s True r"

text \<open>\<open>slices.IndexFunc\<close>.\<close>

fun index_func :: "('a \<Rightarrow> bool) \<Rightarrow> 'a list \<Rightarrow> nat option" where
  "index_func P [] = None"
| "index_func P (x # xs) = (if P x then Some 0 else map_option Suc (index_func P xs))"

definition reg_Promote :: "(sid \<Rightarrow> scheduler) \<Rightarrow> sid \<Rightarrow> registry \<Rightarrow> registry \<times> sid option" where
  "reg_Promote obj s r =
     (let running1 = (case map_of (reg_running r) s of
                        None \<Rightarrow> reg_running r
                      | Some _ \<Rightarrow> gm_put s False (reg_running r));
          vip = s_vip_name (obj s);
          list = visible_of r vip;
          (old, list1) =
            (case index_func (\<lambda>x. s_check_name (obj x) = s_check_name (obj s)) list of
               Some idx \<Rightarrow> (Some (list ! idx), list[idx := s])
             | None \<Rightarrow> (None, list @ [s]));
          running2 = (case old of None \<Rightarrow> running1 | Some prev \<Rightarrow> gm_del prev running1)
      in (r\<lparr>reg_visible := gm_put vip list1 (reg_visible r), reg_running := running2\<rparr>, old))"

definition reg_Remove :: "(sid \<Rightarrow> scheduler) \<Rightarrow> sid \<Rightarrow> registry \<Rightarrow> registry" where
  "reg_Remove obj s r =
     (let vip = s_vip_name (obj s);
          list = visible_of r vip;
          list1 = remove1 s list
      in r\<lparr>reg_running := gm_del s (reg_running r),
           reg_visible := (if list1 = [] then gm_del vip (reg_visible r)
                           else gm_put vip list1 (reg_visible r))\<rparr>)"

text \<open>
  \<open>slices.Delete (list, idx, idx + 1)\<close> on the array \<open>arr\<close> under a slice of length \<open>n\<close>: the elements after
  \<open>idx\<close> move down by one and the last place of the slice is cleared to nil.
\<close>

definition delete_in_place :: "nat \<Rightarrow> nat \<Rightarrow> sid option list \<Rightarrow> sid option list" where
  "delete_in_place n idx arr = take idx arr @ take (n - idx - 1) (drop (idx + 1) arr) @ [None] @ drop n arr"

text \<open>
  The loop of \<open>RemoveVIP\<close> ranges over the slice it read once; \<open>arr\<close> is the array under that slice, which
  is also the array under \<open>visible[vip]\<close> that every \<open>Remove\<close> shortens in place. A nil element is
  dereferenced by \<open>Remove\<close> (\<open>s.VIPName ()\<close>).
\<close>

fun remove_vip_loop ::
    "(sid \<Rightarrow> scheduler) \<Rightarrow> string \<Rightarrow> nat list \<Rightarrow> sid option list \<Rightarrow> registry \<Rightarrow> registry outcome" where
  "remove_vip_loop obj vip [] arr r = Ret r"
| "remove_vip_loop obj vip (i # is) arr r =
     (case arr ! i of
        None \<Rightarrow> Panic ''invalid memory address or nil pointer dereference''
      | Some s \<Rightarrow>
          remove_vip_loop obj vip is
            (case index_func (\<lambda>x. x = s) (visible_of r vip) of
               None \<Rightarrow> arr
             | Some idx \<Rightarrow> delete_in_place (length (visible_of r vip)) idx arr)
            (reg_Remove obj s r))"

definition reg_RemoveVIP :: "(sid \<Rightarrow> scheduler) \<Rightarrow> string \<Rightarrow> registry \<Rightarrow> registry outcome" where
  "reg_RemoveVIP obj vip r =
     remove_vip_loop obj vip [0..<length (visible_of r vip)] (map Some (visible_of r vip)) r"

definition reg_Schedulers :: "registry \<Rightarrow> (string, sid list) gomap" where
  "reg_Schedulers r = reg_visible r"

definition reg_Start :: "registry \<Rightarrow> registry" where
  "reg_Start r =
     fold (\<lambda>(vip, list) r.
             fold (\<lambda>s r. if map_of (reg_running r) s = None then launchLocked s False r else r) list r)
       (reg_visible r) (r\<lparr>reg_started := True\<rparr>)"

text \<open>\<open>Stop\<close>: the error of the context when it ends before the goroutines do.\<close>

definition reg_Stop :: "go_error option \<Rightarrow> registry \<Rightarrow> go_error option \<times> registry" where
  "reg_Stop ctx_err r =
     ((case ctx_err of
         None \<Rightarrow> None
       | Some e \<Rightarrow> if reg_running r = [] then None
                   else Some (Errorf ''waiting for schedulers to stop: %w'' [] (Some e))),
      r\<lparr>reg_started := False, reg_running := []\<rparr>)"

section \<open>What the operations do to the listing and to the goroutines\<close>

lemma launch_simps [simp]:
  "reg_visible (launchLocked s b r) = reg_visible r" "reg_started (launchLocked s b r) = reg_started r"
  "visible_of (launchLocked s b r) v = visible_of r v"
  "map_of (reg_running (launchLocked s b r)) t = (if t = s then Some b else map_of (reg_running r) t)"
  by (simp_all add: launchLocked_def visible_of_def gomap_simps)

lemma visible_of_put: "visible_of (r\<lparr>reg_visible := gm_put v l (reg_visible r), reg_running := x\<rparr>) w =
    (if w = v then l else visible_of r w)"
  "visible_of (r\<lparr>reg_visible := gm_put v l (reg_visible r)\<rparr>) w = (if w = v then l else visible_of r w)"
  by (simp_all add: visible_of_def)

lemma visible_of_Add: "visible_of (reg_Add obj s r) v =
    (if v = s_vip_name (obj s) then visible_of r v @ [s] else visible_of r v)"
  by (simp add: reg_Add_def Let_def visible_of_put)

lemma visible_of_Remove: "visible_of (reg_Remove obj s r) v =
    (if v = s_vip_name (obj s) then remove1 s (visible_of r v) else visible_of r v)"
  by (simp add: reg_Remove_def Let_def visible_of_def gm_get0_def gomap_simps)

lemma running_Remove: "map_of (reg_running (reg_Remove obj s r)) t =
    (if t = s then None else map_of (reg_running r) t)"
  by (simp add: reg_Remove_def Let_def gomap_simps)

lemma started_Remove [simp]: "reg_started (reg_Remove obj s r) = reg_started r"
  by (simp add: reg_Remove_def Let_def)

lemma index_func_Some: "index_func P xs = Some i \<longleftrightarrow> i < length xs \<and> P (xs ! i) \<and> (\<forall>j < i. \<not> P (xs ! j))"
proof (induction xs arbitrary: i)
  case (Cons x xs)
  show ?case by (cases i) (auto simp: Cons.IH All_less_Suc2)
qed simp

lemma index_func_None: "index_func P xs = None \<longleftrightarrow> (\<forall>x \<in> set xs. \<not> P x)"
  by (induction xs) auto

section \<open>The invariant\<close>

text \<open>
  Every listed scheduler is listed once, under the name of its VIP and with a check name of its own;
  no VIP is listed without schedulers; and once the registry is started, the schedulers that run
  without the shadow mark are exactly the listed ones. Before that, and after a stop, none runs.
\<close>

definition listed :: "(sid \<Rightarrow> scheduler) \<Rightarrow> registry \<Rightarrow> sid \<Rightarrow> bool" where
  "listed obj r s = List.member (visible_of r (s_vip_name (obj s))) s"

definition reg_wf :: "(sid \<Rightarrow> scheduler) \<Rightarrow> registry \<Rightarrow> bool" where
  "reg_wf obj r \<longleftrightarrow>
     gm_wf (reg_visible r) \<and> gm_wf (reg_running r) \<and>
     (\<forall>v. map_of (reg_visible r) v \<noteq> Some []) \<and>
     (\<forall>v. distinct (map (\<lambda>s. s_check_name (obj s)) (visible_of r v)) \<and>
          (\<forall>s \<in> set (visible_of r v). s_vip_name (obj s) = v)) \<and>
     (if reg_started r then \<forall>s. map_of (reg_running r) s = Some False \<longleftrightarrow> listed obj r s
      else reg_running r = [])"

lemma reg_wfD:
  assumes "reg_wf obj r"
  shows "gm_wf (reg_visible r)" "gm_wf (reg_running r)" "map_of (reg_visible r) v \<noteq> Some []"
    and "distinct (map (\<lambda>s. s_check_name (obj s)) (visible_of r v))"
    and "distinct (visible_of r v)"
    and "s \<in> set (visible_of r v) \<Longrightarrow> s_vip_name (obj s) = v"
    and "reg_started r \<Longrightarrow> map_of (reg_running r) s = Some False \<longleftrightarrow> listed obj r s"
    and "\<not> reg_started r \<Longrightarrow> reg_running r = []"
proof -
  show d: "distinct (map (\<lambda>s. s_check_name (obj s)) (visible_of r v))" using assms by (simp add: reg_wf_def)
  then show "distinct (visible_of r v)" by (simp add: distinct_map)
qed (use assms in \<open>auto simp: reg_wf_def\<close>)

lemma reg_wf_New: "reg_wf obj NewRegistry"
  by (simp add: reg_wf_def NewRegistry_def visible_of_def)

text \<open>Only the names of the schedulers matter, so the heap may grow and its objects may run.\<close>

lemma reg_wf_cong:
  assumes "\<And>s. s_vip_name (obj' s) = s_vip_name (obj s)" "\<And>s. s_check_name (obj' s) = s_check_name (obj s)"
  shows "reg_wf obj' r = reg_wf obj r"
  using assms by (simp add: reg_wf_def listed_def)

lemma reg_Add_wf [wf_intros]:
  assumes wf: "reg_wf obj r" and "\<forall>x \<in> set (visible_of r (s_vip_name (obj s))). s_check_name (obj x) \<noteq> s_check_name (obj s)"
  shows "reg_wf obj (reg_Add obj s r)"
proof -
  let ?r = "reg_Add obj s r"
  have vis: "reg_visible ?r = gm_put (s_vip_name (obj s)) (visible_of r (s_vip_name (obj s)) @ [s]) (reg_visible r)"
    and st: "reg_started ?r = reg_started r" by (simp_all add: reg_Add_def Let_def)
  have run: "reg_running ?r = (if reg_started r then gm_put s False (reg_running r) else reg_running r)"
    by (simp add: reg_Add_def Let_def launchLocked_def)
  have "distinct (map (\<lambda>s. s_check_name (obj s)) (visible_of ?r v))" for v
    using reg_wfD(4) [OF wf, of v] assms(2) by (auto simp: visible_of_Add)
  moreover have "\<forall>x \<in> set (visible_of ?r v). s_vip_name (obj x) = v" for v
    using reg_wfD(6) [OF wf, of _ v] by (simp add: visible_of_Add)
  moreover have "map_of (reg_running ?r) x = Some False \<longleftrightarrow> listed obj ?r x" if "reg_started r" for x
    using that reg_wfD(7) [OF wf that, of x] by (auto simp: run listed_def visible_of_Add gomap_simps)
  ultimately show ?thesis
    using reg_wfD(1,2,3,8) [OF wf] unfolding reg_wf_def vis st run
    by (auto simp: gm_wf_put gomap_simps)
qed

lemma reg_AddShadow_wf [wf_intros]:
  assumes "reg_wf obj r" and "reg_started r" and "\<not> listed obj r s"
  shows "reg_wf obj (reg_AddShadow s r)"
proof -
  have "visible_of (reg_AddShadow s r) = visible_of r" "listed obj (reg_AddShadow s r) = listed obj r"
    by (auto simp: reg_AddShadow_def fun_eq_iff listed_def)
  moreover have "gm_wf (reg_running (reg_AddShadow s r))"
    using reg_wfD(2) [OF assms(1)] by (simp add: reg_AddShadow_def launchLocked_def gm_wf_put)
  moreover have "map_of (reg_running (reg_AddShadow s r)) x = Some False \<longleftrightarrow> listed obj r x" for x
    using reg_wfD(7) [OF assms(1,2), of x] assms(3) by (auto simp: reg_AddShadow_def)
  ultimately show ?thesis using assms(1,2) by (simp add: reg_wf_def) (simp add: reg_AddShadow_def)
qed

lemma reg_Remove_wf [wf_intros]:
  assumes wf: "reg_wf obj r"
  shows "reg_wf obj (reg_Remove obj s r)"
proof -
  let ?r = "reg_Remove obj s r"
  have "distinct (map (\<lambda>s. s_check_name (obj s)) (visible_of ?r v))" for v
    using reg_wfD(4) [OF wf, of v]
    by (auto simp: visible_of_Remove distinct_map intro: inj_on_subset [OF _ set_remove1_subset])
  moreover have "\<forall>x \<in> set (visible_of ?r v). s_vip_name (obj x) = v" for v
    using reg_wfD(6) [OF wf, of _ v] set_remove1_subset [of s "visible_of r v"] by (auto simp: visible_of_Remove)
  moreover have "map_of (reg_running ?r) x = Some False \<longleftrightarrow> listed obj ?r x" if "reg_started r" for x
    using reg_wfD(7) [OF wf that, of x] reg_wfD(5) [OF wf, of "s_vip_name (obj s)"]
    by (auto simp: running_Remove listed_def visible_of_Remove)
  moreover have "gm_wf (reg_visible ?r)" "gm_wf (reg_running ?r)" "map_of (reg_visible ?r) v \<noteq> Some []" for v
    using reg_wfD(1,2,3) [OF wf] by (auto simp: reg_Remove_def Let_def wf_intros gomap_simps)
  moreover have "reg_running ?r = []" if "\<not> reg_started r"
    using reg_wfD(8) [OF wf that] by (simp add: reg_Remove_def Let_def)
  ultimately show ?thesis by (simp add: reg_wf_def)
qed

text \<open>A promoted scheduler takes the place of the one with its check name, or the last place.\<close>

definition promoted :: "(sid \<Rightarrow> scheduler) \<Rightarrow> sid \<Rightarrow> sid list \<Rightarrow> sid option \<times> sid list" where
  "promoted obj s list =
     (case index_func (\<lambda>x. s_check_name (obj x) = s_check_name (obj s)) list of
        Some idx \<Rightarrow> (Some (list ! idx), list[idx := s])
      | None \<Rightarrow> (None, list @ [s]))"

lemma promoted_cases:
  assumes "distinct (map (\<lambda>x. s_check_name (obj x)) L)"
  obtains (appended) "promoted obj s L = (None, L @ [s])" "\<forall>x \<in> set L. s_check_name (obj x) \<noteq> s_check_name (obj s)"
  | (replaced) idx where "promoted obj s L = (Some (L ! idx), L[idx := s])" "idx < length L"
      "s_check_name (obj (L ! idx)) = s_check_name (obj s)"
      "set (L[idx := s]) = insert s (set L - {L ! idx})"
      "map (\<lambda>x. s_check_name (obj x)) (L[idx := s]) = map (\<lambda>x. s_check_name (obj x)) L"
proof (cases "index_func (\<lambda>x. s_check_name (obj x) = s_check_name (obj s)) L")
  case None
  then have "\<forall>x \<in> set L. s_check_name (obj x) \<noteq> s_check_name (obj s)" by (simp add: index_func_None)
  with None show ?thesis by (intro appended) (simp_all add: promoted_def)
next
  case (Some idx)
  then have i: "idx < length L" "s_check_name (obj (L ! idx)) = s_check_name (obj s)"
    by (simp_all add: index_func_Some)
  have "distinct L" using assms by (simp add: distinct_map)
  then have "set (L[idx := s]) = insert s (set L - {L ! idx})" using i(1) by (simp add: set_update_distinct)
  moreover have "map (\<lambda>x. s_check_name (obj x)) (L[idx := s]) = map (\<lambda>x. s_check_name (obj x)) L"
    using i by (simp add: map_update list_update_same_conv)
  ultimately show ?thesis using i Some by (intro replaced) (simp_all add: promoted_def)
qed

lemma promoted_lists:
  assumes "distinct (map (\<lambda>x. s_check_name (obj x)) L)" and p: "promoted obj s L = (old, l)"
  shows "distinct (map (\<lambda>x. s_check_name (obj x)) l) \<and> l \<noteq> [] \<and>
    set l = insert s (set L - set_option old) \<and> set_option old \<subseteq> set L"
  using assms(1)
proof (cases rule: promoted_cases [of obj L s])
  case appended
  then show ?thesis using p assms(1) by auto
next
  case (replaced idx)
  moreover have "L \<noteq> []" using replaced(2) by auto
  ultimately show ?thesis using p assms(1) by (auto simp del: list_update.simps)
qed

lemma reg_Promote_eq:
  assumes "map_of (reg_running r) s = Some b"
    and "promoted obj s (visible_of r (s_vip_name (obj s))) = (old, l)"
  shows "reg_Promote obj s r =
    (r\<lparr>reg_visible := gm_put (s_vip_name (obj s)) l (reg_visible r),
       reg_running := (case old of None \<Rightarrow> gm_put s False (reg_running r)
                        | Some x \<Rightarrow> gm_del x (gm_put s False (reg_running r)))\<rparr>, old)"
  using assms by (simp add: reg_Promote_def promoted_def Let_def)

lemma reg_Promote_wf [wf_intros]:
  assumes wf: "reg_wf obj r" and sh: "map_of (reg_running r) s = Some True"
  shows "reg_wf obj (fst (reg_Promote obj s r))"
proof -
  let ?v = "s_vip_name (obj s)" and ?L = "visible_of r (s_vip_name (obj s))"
  have st: "reg_started r" using reg_wfD(8) [OF wf] sh by fastforce
  have new: "s \<notin> set ?L" using reg_wfD(7) [OF wf st, of s] sh by (simp add: listed_def)
  obtain old l where p: "promoted obj s ?L = (old, l)" by force
  note eq = reg_Promote_eq [OF sh p]
  let ?r = "fst (reg_Promote obj s r)"
  have l1: "distinct (map (\<lambda>x. s_check_name (obj x)) l) \<and> l \<noteq> [] \<and>
      set l = insert s (set ?L - set_option old) \<and> set_option old \<subseteq> set ?L"
    using promoted_lists [OF reg_wfD(4) [OF wf] p] .
  then have "x \<in> set l \<Longrightarrow> x = s \<or> x \<in> set ?L" for x by auto
  then have l2: "\<forall>x \<in> set l. s_vip_name (obj x) = ?v" using reg_wfD(6) [OF wf, of _ ?v] by metis
  note l = l1 [THEN conjunct1] l2 l1 [THEN conjunct2, THEN conjunct1]
    l1 [THEN conjunct2, THEN conjunct2, THEN conjunct1] l1 [THEN conjunct2, THEN conjunct2, THEN conjunct2]
  have vis: "visible_of ?r v = (if v = ?v then l else visible_of r v)" for v
    unfolding eq by (simp add: visible_of_put)
  have "gm_wf (reg_running ?r)" "gm_wf (reg_visible ?r)" "reg_started ?r"
    using reg_wfD(1,2) [OF wf] st unfolding eq by (simp_all add: wf_intros split: option.split)
  moreover have "map_of (reg_visible ?r) v \<noteq> Some []" for v
    using reg_wfD(3) [OF wf] l(3) unfolding eq by (simp add: gomap_simps)
  moreover have "map_of (reg_running ?r) x = Some False \<longleftrightarrow> listed obj ?r x" for x
  proof -
    have "map_of (reg_running ?r) x = (if x \<in> set_option old then None else if x = s then Some False else map_of (reg_running r) x)"
      unfolding eq by (cases old) (auto simp: gomap_simps)
    moreover have "listed obj ?r x \<longleftrightarrow> (if s_vip_name (obj x) = ?v then x \<in> set l else listed obj r x)"
      by (simp add: listed_def vis)
    moreover have "x \<in> set ?L \<Longrightarrow> s_vip_name (obj x) = ?v" by (rule reg_wfD(6) [OF wf])
    ultimately show ?thesis
      using reg_wfD(7) [OF wf st, of x] l(4,5) new by (auto simp: listed_def)
  qed
  ultimately show ?thesis
    using l(1,2) reg_wfD(4) [OF wf] reg_wfD(6) [OF wf] unfolding reg_wf_def by (simp add: vis)
qed

lemma reg_Stop_wf [wf_intros]: "reg_wf obj r \<Longrightarrow> reg_wf obj (snd (reg_Stop e r))"
  by (simp add: reg_wf_def reg_Stop_def visible_of_def listed_def)

text \<open>\<open>Start\<close> launches what is listed and does not run yet.\<close>

lemma Start_list:
  assumes "gm_wf (reg_running r)"
  shows "let r' = fold (\<lambda>s r. if map_of (reg_running r) s = None then launchLocked s False r else r) list r
    in reg_visible r' = reg_visible r \<and> reg_started r' = reg_started r \<and> gm_wf (reg_running r') \<and>
      (\<forall>s. map_of (reg_running r') s =
         (if s \<in> set list \<and> map_of (reg_running r) s = None then Some False else map_of (reg_running r) s))"
  using assms
proof (induction list arbitrary: r)
  case (Cons x xs)
  let ?r = "if map_of (reg_running r) x = None then launchLocked x False r else r"
  have run: "map_of (reg_running ?r) s =
      (if s = x \<and> map_of (reg_running r) x = None then Some False else map_of (reg_running r) s)" for s
    by simp
  have "gm_wf (reg_running ?r)" using Cons.prems by (simp add: launchLocked_def gm_wf_put)
  from Cons.IH [OF this] show ?case unfolding Let_def run by auto
qed simp

lemma Start_lists:
  assumes "gm_wf (reg_running r)"
  shows "let r' = fold (\<lambda>(vip, list) r.
        fold (\<lambda>s r. if map_of (reg_running r) s = None then launchLocked s False r else r) list r) vl r
    in reg_visible r' = reg_visible r \<and> reg_started r' = reg_started r \<and> gm_wf (reg_running r') \<and>
      (\<forall>s. map_of (reg_running r') s =
         (if (\<exists>(v, l) \<in> set vl. s \<in> set l) \<and> map_of (reg_running r) s = None then Some False
          else map_of (reg_running r) s))"
  using assms
proof (induction vl arbitrary: r)
  case (Cons p vl)
  obtain v l where p: "p = (v, l)" by force
  define r1 where "r1 = fold (\<lambda>s r. if map_of (reg_running r) s = None then launchLocked s False r else r) l r"
  have r1: "reg_visible r1 = reg_visible r" "reg_started r1 = reg_started r" "gm_wf (reg_running r1)"
    "\<And>s. map_of (reg_running r1) s =
       (if s \<in> set l \<and> map_of (reg_running r) s = None then Some False else map_of (reg_running r) s)"
    using Start_list [OF Cons.prems] unfolding r1_def Let_def by blast+
  from Cons.IH [OF r1(3)] show ?case
    unfolding Let_def p r1(1,2,4) by (auto simp: r1_def [symmetric])
qed simp

lemma listed_iff:
  assumes "reg_wf obj r"
  shows "listed obj r s \<longleftrightarrow> (\<exists>(v, l) \<in> set (reg_visible r). s \<in> set l)"
proof -
  have "v = s_vip_name (obj s)" if "(v, l) \<in> set (reg_visible r)" "s \<in> set l" for v l
  proof -
    have "map_of (reg_visible r) v = Some l" using that map_of_mem_iff [OF reg_wfD(1) [OF assms]] by simp
    then show ?thesis using that(2) reg_wfD(6) [OF assms, of s v] by (simp add: visible_of_def gm_get0_def)
  qed
  moreover have "listed obj r s \<longleftrightarrow> (\<exists>l. (s_vip_name (obj s), l) \<in> set (reg_visible r) \<and> s \<in> set l)"
    unfolding map_of_mem_iff [OF reg_wfD(1) [OF assms], symmetric]
    by (cases "map_of (reg_visible r) (s_vip_name (obj s))") (simp_all add: listed_def visible_of_def gm_get0_def)
  ultimately show ?thesis by fastforce
qed

lemma reg_Start_wf [wf_intros]:
  assumes wf: "reg_wf obj r"
  shows "reg_wf obj (reg_Start r)"
proof -
  have eq: "reg_visible (reg_Start r) = reg_visible r" "reg_started (reg_Start r)" "gm_wf (reg_running (reg_Start r))"
    "\<And>s. map_of (reg_running (reg_Start r)) s =
       (if listed obj r s \<and> map_of (reg_running r) s = None then Some False else map_of (reg_running r) s)"
    using Start_lists [of "r\<lparr>reg_started := True\<rparr>" "reg_visible r"] reg_wfD(2) [OF wf]
    unfolding reg_Start_def listed_iff [OF wf] Let_def by simp_all
  have "visible_of (reg_Start r) = visible_of r" by (simp add: fun_eq_iff visible_of_def eq(1))
  then have same: "listed obj (reg_Start r) = listed obj r" by (simp add: fun_eq_iff listed_def)
  have "map_of (reg_running (reg_Start r)) s = Some False \<longleftrightarrow> listed obj r s" for s
    using reg_wfD(7) [OF wf, of s] reg_wfD(8) [OF wf] by (cases "reg_started r") (auto simp: eq(4))
  then show ?thesis
    using wf eq same \<open>visible_of (reg_Start r) = visible_of r\<close> by (simp add: reg_wf_def)
qed

section \<open>Removing a VIP\<close>

lemma index_remove1: "index_func (\<lambda>x. x = s) L = Some i \<Longrightarrow> remove1 s L = take i L @ drop (Suc i) L"
  by (induction L arbitrary: i) (auto split: if_splits)

lemma delete_in_place_prefix:
  assumes "index_func (\<lambda>x. x = s) L = Some i"
  shows "delete_in_place (length L) i (map Some L @ replicate k None) = map Some (remove1 s L) @ replicate (Suc k) None"
proof -
  have "i < length L" using assms by (simp add: index_func_Some)
  then show ?thesis
    by (simp add: delete_in_place_def index_remove1 [OF assms] take_map drop_map)
qed

text \<open>
  As long as the array holds the listed schedulers followed by nil, a step that reads past them
  panics, and a later one still does.
\<close>

lemma remove_vip_loop_panics:
  assumes "arr = map Some (visible_of r vip) @ replicate k None"
    and "\<forall>s \<in> set (visible_of r vip). s_vip_name (obj s) = vip"
    and "\<forall>i \<in> set is. i < length arr" and "\<exists>i \<in> set is. length (visible_of r vip) \<le> i"
  shows "\<exists>msg. remove_vip_loop obj vip is arr r = Panic msg"
  using assms
proof (induction "is" arbitrary: arr r k)
  case (Cons i "is")
  let ?L = "visible_of r vip"
  show ?case
  proof (cases "i < length ?L")
    case True
    let ?s = "?L ! i"
    have s: "arr ! i = Some ?s" using Cons.prems(1) True by (simp add: nth_append)
    have "?s \<in> set ?L" using True by simp
    then have v: "s_vip_name (obj ?s) = vip" using Cons.prems(2) by blast
    obtain idx where idx: "index_func (\<lambda>x. x = ?s) ?L = Some idx"
      using \<open>?s \<in> set ?L\<close> index_func_None [of "\<lambda>x. x = ?s" ?L] by fastforce
    have L: "visible_of (reg_Remove obj ?s r) vip = remove1 ?s ?L" by (simp add: visible_of_Remove v)
    have "\<exists>msg. remove_vip_loop obj vip is (map Some (remove1 ?s ?L) @ replicate (Suc k) None) (reg_Remove obj ?s r) = Panic msg"
    proof (rule Cons.IH [where k = "Suc k"])
      show "\<forall>s \<in> set (visible_of (reg_Remove obj ?s r) vip). s_vip_name (obj s) = vip"
        unfolding L using Cons.prems(2) set_remove1_subset [of ?s ?L] by blast
      show "\<exists>i \<in> set is. length (visible_of (reg_Remove obj ?s r) vip) \<le> i"
      proof -
        obtain j where "j \<in> set is" "length ?L \<le> j" using Cons.prems(4) True by auto
        then show ?thesis unfolding L using \<open>?s \<in> set ?L\<close> by (intro bexI [of _ j]) (simp_all add: length_remove1)
      qed
      show "\<forall>i \<in> set is. i < length (map Some (remove1 ?s ?L) @ replicate (Suc k) None)"
        using Cons.prems(1,3) \<open>?s \<in> set ?L\<close> length_pos_if_in_set [of ?s ?L] by (auto simp: length_remove1)
    qed (simp add: L)
    then show ?thesis using s idx Cons.prems(1) by (simp add: delete_in_place_prefix)
  next
    case False
    then have "i - length ?L < k" using Cons.prems(1,3) by auto
    then have "arr ! i = None" using Cons.prems(1) False by (simp add: nth_append)
    then show ?thesis by simp
  qed
qed simp

lemma reg_RemoveVIP_cases:
  assumes "\<forall>s \<in> set (visible_of r vip). s_vip_name (obj s) = vip"
  shows "visible_of r vip = [] \<Longrightarrow> reg_RemoveVIP obj vip r = Ret r"
    and "visible_of r vip = [s] \<Longrightarrow> reg_RemoveVIP obj vip r = Ret (reg_Remove obj s r)"
    and "2 \<le> length (visible_of r vip) \<Longrightarrow> \<exists>msg. reg_RemoveVIP obj vip r = Panic msg"
proof -
  let ?L = "visible_of r vip"
  show "\<exists>msg. reg_RemoveVIP obj vip r = Panic msg" if two: "2 \<le> length ?L"
  proof -
    obtain a L where L: "?L = a # L" "L \<noteq> []" using two by (cases ?L; cases "tl ?L") auto
    have a: "s_vip_name (obj a) = vip" using assms L by simp
    have arr: "delete_in_place (length ?L) 0 (map Some ?L) = map Some L @ [None]"
      using delete_in_place_prefix [of a ?L 0 0] by (simp add: L)
    have v: "visible_of (reg_Remove obj a r) vip = L" by (simp add: visible_of_Remove a L)
    have "\<exists>msg. remove_vip_loop obj vip [1..<length ?L] (map Some L @ [None]) (reg_Remove obj a r) = Panic msg"
    proof (rule remove_vip_loop_panics [where k = 1])
      have "length L \<in> set [1..<length ?L]" using L two by simp
      then show "\<exists>i \<in> set [1..<length ?L]. length (visible_of (reg_Remove obj a r) vip) \<le> i" unfolding v by blast
    qed (use assms L v in auto)
    moreover have "[0..<length ?L] = 0 # [1..<length ?L]" using upt_conv_Cons [of 0 "length ?L"] by (simp add: L del: upt_Suc)
    moreover have "index_func (\<lambda>x. x = a) ?L = Some 0" "map Some ?L ! 0 = Some a" by (simp_all add: L)
    ultimately show ?thesis using arr by (simp add: reg_RemoveVIP_def)
  qed
qed (simp_all add: reg_RemoveVIP_def)

section \<open>Histories\<close>

text \<open>
  The uses the daemon makes of the registry: a scheduler is added under a check name its VIP does not
  list yet, a shadow runs only once the registry is started, and only a running shadow is promoted.
\<close>

inductive reg_step :: "(sid \<Rightarrow> scheduler) \<Rightarrow> registry \<Rightarrow> registry \<Rightarrow> bool" for obj where
  add: "\<forall>x \<in> set (visible_of r (s_vip_name (obj s))). s_check_name (obj x) \<noteq> s_check_name (obj s) \<Longrightarrow>
    reg_step obj r (reg_Add obj s r)"
| shadow: "reg_started r \<Longrightarrow> \<not> listed obj r s \<Longrightarrow> reg_step obj r (reg_AddShadow s r)"
| promote: "map_of (reg_running r) s = Some True \<Longrightarrow> reg_step obj r (fst (reg_Promote obj s r))"
| remove: "reg_step obj r (reg_Remove obj s r)"
| remove_vip: "reg_RemoveVIP obj vip r = Ret r' \<Longrightarrow> reg_step obj r r'"
| start: "reg_step obj r (reg_Start r)"
| stop: "reg_step obj r (snd (reg_Stop e r))"

lemma remove_vip_loop_wf:
  "remove_vip_loop obj vip is arr r = Ret r' \<Longrightarrow> reg_wf obj r \<Longrightarrow> reg_wf obj r'"
  by (induction obj vip "is" arr r rule: remove_vip_loop.induct) (auto simp: wf_intros split: option.splits)

lemma reg_step_wf: "reg_step obj r r' \<Longrightarrow> reg_wf obj r \<Longrightarrow> reg_wf obj r'"
  by (induction rule: reg_step.induct) (auto simp: wf_intros reg_RemoveVIP_def intro: remove_vip_loop_wf)

lemma reg_steps_wf: "(reg_step obj)\<^sup>*\<^sup>* r r' \<Longrightarrow> reg_wf obj r \<Longrightarrow> reg_wf obj r'"
  by (induction rule: rtranclp_induct) (simp_all add: reg_step_wf)

text \<open>Three schedulers for the witnesses: the checks \<open>a\<close> and \<open>b\<close> of the VIP \<open>web\<close> and a second \<open>a\<close>.\<close>

definition ex_obj :: "sid \<Rightarrow> scheduler" where
  "ex_obj s = NewScheduler
     \<lparr>scfg_vip_name = ''web'', scfg_check_name = (if s = 1 then ''b'' else ''a''), scfg_checker_type = None,
      scfg_interval = 1, scfg_timeout = 1, scfg_rise = 1, scfg_fall = 1, scfg_on_transition = None,
      scfg_on_check_result = None\<rparr>"

lemma ex_obj_sel [simp]: "s_vip_name (ex_obj s) = ''web''" "s_check_name (ex_obj s) = (if s = 1 then ''b'' else ''a'')"
  by (simp_all add: ex_obj_def NewScheduler_def)

section \<open>Properties\<close>



text \<open>C18: Promoting a shadow swaps it in and disturbs nothing else: it takes the place of the listed
  scheduler with its check name, which stops running, or the last place of its VIP when there is none;
  it runs on, now without the shadow mark; every other scheduler and every other VIP is as before.\<close>

theorem promote_swaps:
  assumes "reg_wf obj r" and "map_of (reg_running r) s = Some True" and "reg_Promote obj s r = (r', old)"
  shows "map (\<lambda>x. s_check_name (obj x)) (visible_of r' (s_vip_name (obj s))) =
      map (\<lambda>x. s_check_name (obj x)) (visible_of r (s_vip_name (obj s))) @ (if old = None then [s_check_name (obj s)] else []) \<and>
    set (visible_of r' (s_vip_name (obj s))) = insert s (set (visible_of r (s_vip_name (obj s))) - set_option old) \<and>
    (\<forall>x. old = Some x \<longleftrightarrow> x \<in> set (visible_of r (s_vip_name (obj s))) \<and> s_check_name (obj x) = s_check_name (obj s)) \<and>
    (\<forall>v. v \<noteq> s_vip_name (obj s) \<longrightarrow> visible_of r' v = visible_of r v) \<and>
    (\<forall>x. map_of (reg_running r') x =
       (if old = Some x then None else if x = s then Some False else map_of (reg_running r) x))"
proof -
  let ?v = "s_vip_name (obj s)" and ?L = "visible_of r (s_vip_name (obj s))"
  note d = reg_wfD(4) [OF assms(1), of ?v]
  obtain o' l where p: "promoted obj s ?L = (o', l)" by force
  note eq = reg_Promote_eq [OF assms(2) p]
  have o': "o' = old" and r': "visible_of r' v = (if v = ?v then l else visible_of r v)"
    "map_of (reg_running r') x = (if old = Some x then None else if x = s then Some False else map_of (reg_running r) x)" for v x
    using eq assms(3) by (auto simp: visible_of_put gomap_simps split: option.splits)
  have "map (\<lambda>x. s_check_name (obj x)) l =
      map (\<lambda>x. s_check_name (obj x)) ?L @ (if old = None then [s_check_name (obj s)] else []) \<and>
      (\<forall>x. old = Some x \<longleftrightarrow> x \<in> set ?L \<and> s_check_name (obj x) = s_check_name (obj s))"
    using d
  proof (cases rule: promoted_cases [of obj ?L s])
    case (replaced idx)
    then have "x = ?L ! idx" if "x \<in> set ?L" "s_check_name (obj x) = s_check_name (obj s)" for x
      using that d by (auto simp: distinct_map dest!: inj_onD [where x = x and y = "?L ! idx"])
    then show ?thesis using replaced p o' by auto
  qed (use p o' in auto)
  then show ?thesis using promoted_lists [OF d p] r' o' by simp
qed

theorem promote_swaps_witness:
  "map_of (reg_running (fst (reg_Promote ex_obj 2 (reg_AddShadow 2 (reg_Add ex_obj 0 (reg_Start NewRegistry)))))) 0 = None"
proof -
  let ?r = "reg_AddShadow 2 (reg_Add ex_obj 0 (reg_Start NewRegistry))"
  have "reg_wf ex_obj ?r"
    by (intro reg_AddShadow_wf reg_Add_wf reg_Start_wf reg_wf_New)
      (simp_all add: reg_Add_def reg_Start_def NewRegistry_def listed_def visible_of_def launchLocked_def gm_get0_def)
  moreover have "map_of (reg_running ?r) 2 = Some True" by (simp add: reg_AddShadow_def)
  moreover have "reg_Promote ex_obj 2 ?r = (fst (reg_Promote ex_obj 2 ?r), Some 0)"
    by (simp add: reg_Promote_def reg_AddShadow_def reg_Add_def reg_Start_def NewRegistry_def visible_of_def launchLocked_def gm_get0_def)
  ultimately show ?thesis using promote_swaps [of ex_obj ?r 2 "fst (reg_Promote ex_obj 2 ?r)" "Some 0"] by metis
qed

text \<open>\<open>RemoveVIP\<close> stops the check of a VIP that lists one, and does nothing for a VIP that lists none.
  For a VIP with two or more listed checks it never returns normally: its loop ranges over the array
  that \<open>Remove\<close> shortens in place, so it comes upon an element \<open>slices.Delete\<close> has cleared and
  dereferences nil.\<close>

theorem RemoveVIP_panics_iff:
  assumes "reg_wf obj r"
  shows "((\<exists>msg. reg_RemoveVIP obj vip r = Panic msg) \<longleftrightarrow> 2 \<le> length (visible_of r vip)) \<and>
    (\<forall>r'. reg_RemoveVIP obj vip r = Ret r' \<longrightarrow>
      visible_of r' vip = [] \<and> (\<forall>v. v \<noteq> vip \<longrightarrow> visible_of r' v = visible_of r v) \<and>
      (\<forall>s \<in> set (visible_of r vip). map_of (reg_running r') s = None))"
proof -
  have names: "\<forall>s \<in> set (visible_of r vip). s_vip_name (obj s) = vip" using reg_wfD(6) [OF assms] by blast
  note c = reg_RemoveVIP_cases [OF names]
  consider "visible_of r vip = []" | s where "visible_of r vip = [s]" | "2 \<le> length (visible_of r vip)"
    by (cases "visible_of r vip"; cases "tl (visible_of r vip)") auto
  then show ?thesis by cases (use c names in \<open>auto simp: visible_of_Remove running_Remove\<close>)
qed

theorem RemoveVIP_panics_iff_witness:
  "\<exists>msg. reg_RemoveVIP ex_obj ''web'' (reg_Add ex_obj 1 (reg_Add ex_obj 0 (reg_Start NewRegistry))) = Panic msg"
proof -
  let ?r = "reg_Add ex_obj 1 (reg_Add ex_obj 0 (reg_Start NewRegistry))"
  have "reg_wf ex_obj ?r"
    by (intro reg_Add_wf reg_Start_wf reg_wf_New)
      (simp_all add: reg_Add_def reg_Start_def NewRegistry_def visible_of_def launchLocked_def gm_get0_def)
  moreover have "2 \<le> length (visible_of ?r ''web'')"
    by (simp add: reg_Add_def reg_Start_def NewRegistry_def visible_of_def launchLocked_def gm_get0_def)
  ultimately show ?thesis using RemoveVIP_panics_iff by blast
qed

end
