(* ===== verification/Local_Address.thy ===== *)
theory Local_Address
  imports Scheduler Go_Net Metrics
begin

text \<open>
  The local address guard (\<open>internal/checks/localaddr.go\<close>): a VIP that requires its address on a local
  interface fails every check while the address is missing.

  What \<open>net.Interfaces\<close> and \<open>Interface.Addrs\<close> return is an argument. The callback \<open>onState\<close> is what
  \<open>NewSchedulers\<close> installs: it sets the gauge \<open>pathosd_vip_local_address\<close>, so an observation returns the
  metric operations it causes. Logging is not modelled.
\<close>

record local_address =
  la_interface :: string
  la_addr :: ip_addr

text \<open>The dynamic type of a \<open>net.Addr\<close>: the two cases the code accepts, and anything else.\<close>

datatype net_addr = AddrIPNet "8 word list" | AddrIPAddr "8 word list" | AddrOther

text \<open>One interface: its name and what its \<open>Addrs\<close> returns.\<close>

record net_interface =
  if_name :: string
  if_addrs :: "go_error + net_addr list"

definition addr_ip :: "net_addr \<Rightarrow> ip_addr option" where
  "addr_ip a =
     (case a of
        AddrIPNet ip \<Rightarrow> AddrFromSlice ip
      | AddrIPAddr ip \<Rightarrow> AddrFromSlice ip
      | AddrOther \<Rightarrow> None)"

fun list_interfaces :: "net_interface list \<Rightarrow> local_address list \<Rightarrow> go_error + local_address list" where
  "list_interfaces [] out = Inr out"
| "list_interfaces (iface # ifaces) out =
     (case if_addrs iface of
        Inl err \<Rightarrow> Inl (Errorf ''interface %s: %w'' [FStr (if_name iface)] (Some err))
      | Inr addrs \<Rightarrow>
          list_interfaces ifaces
            (out @ concat (map (\<lambda>a. case addr_ip a of
                                       None \<Rightarrow> []
                                     | Some ip \<Rightarrow> [\<lparr>la_interface = if_name iface, la_addr = Unmap ip\<rparr>])
                             addrs)))"

definition ListLocalAddresses :: "go_error + net_interface list \<Rightarrow> go_error + local_address list" where
  "ListLocalAddresses interfaces =
     (case interfaces of Inl err \<Rightarrow> Inl err | Inr ifaces \<Rightarrow> list_interfaces ifaces [])"

record local_address_guard =
  lg_vip_name :: string
  lg_prefix :: string
  lg_addr :: ip_addr
  lg_iface :: string
  lg_known :: bool
  lg_assigned :: bool

definition NewLocalAddressGuard :: "string \<Rightarrow> string \<Rightarrow> string \<Rightarrow> go_error + local_address_guard" where
  "NewLocalAddressGuard vipName prefix iface =
     (case ParsePrefix prefix of
        Inl err \<Rightarrow> Inl (Errorf ''invalid prefix %q: %w'' [FStr prefix] (Some err))
      | Inr p \<Rightarrow>
          Inr \<lparr>lg_vip_name = vipName, lg_prefix = prefix, lg_addr = Unmap (px_addr p), lg_iface = iface,
               lg_known = False, lg_assigned = False\<rparr>)"

definition missingDetail :: "local_address_guard \<Rightarrow> string" where
  "missingDetail g =
     (if lg_iface g \<noteq> []
      then ''VIP address '' @ addr_String (lg_addr g) @ '' is not configured on interface '' @ lg_iface g
      else ''VIP address '' @ addr_String (lg_addr g) @ '' is not configured on any interface'')"

definition guard_observe :: "bool \<Rightarrow> local_address_guard \<Rightarrow> local_address_guard \<times> metric_op list" where
  "guard_observe assigned g =
     (let changed = (\<not> lg_known g \<or> lg_assigned g \<noteq> assigned)
      in (g\<lparr>lg_known := True, lg_assigned := assigned\<rparr>,
          if changed
          then [GaugeSet VIPLocalAddressVec [lg_vip_name g, lg_prefix g] (if assigned then 1 else 0)]
          else []))"

text \<open>The loop over the local addresses.\<close>

definition address_present :: "local_address_guard \<Rightarrow> local_address list \<Rightarrow> bool" where
  "address_present g addrs =
     list_ex (\<lambda>a. la_addr a = lg_addr g \<and> (lg_iface g = [] \<or> la_interface a = lg_iface g)) addrs"

text \<open>
  \<open>check\<close>: \<open>Inl\<close> is the failure it returns with \<open>false\<close>, \<open>Inr ()\<close> the zero result with \<open>true\<close>; \<open>elapsed\<close> is
  \<open>time.Since (start)\<close>.
\<close>

definition guard_check ::
    "go_error + net_interface list \<Rightarrow> go_duration \<Rightarrow> local_address_guard \<Rightarrow>
     (check_result + unit) \<times> local_address_guard \<times> metric_op list" where
  "guard_check interfaces elapsed g =
     (case ListLocalAddresses interfaces of
        Inl err \<Rightarrow>
          (Inl \<lparr>res_success = False, res_detail = ''listing local addresses: '' @ error_text err,
                res_duration = elapsed, res_err = Some err, res_timed_out = False, res_details = None\<rparr>, g, [])
      | Inr addrs \<Rightarrow>
          (let assigned = address_present g addrs; (g', ops) = guard_observe assigned g
           in if assigned then (Inr (), g', ops)
              else (Inl \<lparr>res_success = False, res_detail = missingDetail g', res_duration = elapsed,
                         res_err = Some (Errorf ''%s'' [FStr (missingDetail g')] None),
                         res_timed_out = False, res_details = None\<rparr>, g', ops)))"

text \<open>\<open>guardedChecker.Check\<close>: \<open>inner\<close> is the result the wrapped checker would give.\<close>

definition guarded_Check ::
    "go_error + net_interface list \<Rightarrow> go_duration \<Rightarrow> check_result \<Rightarrow> local_address_guard \<Rightarrow>
     check_result \<times> local_address_guard \<times> metric_op list" where
  "guarded_Check interfaces elapsed inner g =
     (case guard_check interfaces elapsed g of
        (Inl r, g', ops) \<Rightarrow> (r, g', ops)
      | (Inr _, g', ops) \<Rightarrow> (inner, g', ops))"

section \<open>Lemmas\<close>

text \<open>The addresses the code sees on the host.\<close>

definition on_host :: "net_interface list \<Rightarrow> string \<Rightarrow> ip_addr \<Rightarrow> bool" where
  "on_host ifaces name addr \<longleftrightarrow>
     (\<exists>iface \<in> set ifaces. \<exists>addrs. if_name iface = name \<and> if_addrs iface = Inr addrs \<and>
        (\<exists>a \<in> set addrs. map_option Unmap (addr_ip a) = Some addr))"

lemma list_interfaces_set:
  "list_interfaces ifaces out = Inr addrs \<Longrightarrow>
     x \<in> set addrs \<longleftrightarrow> x \<in> set out \<or> on_host ifaces (la_interface x) (la_addr x)"
proof (induction ifaces out rule: list_interfaces.induct)
  case (2 iface ifaces out)
  then obtain as where as: "if_addrs iface = Inr as" by (auto split: sum.splits)
  let ?new = "concat (map (\<lambda>a. case addr_ip a of None \<Rightarrow> [] | Some ip \<Rightarrow> [\<lparr>la_interface = if_name iface, la_addr = Unmap ip\<rparr>]) as)"
  have "x \<in> set addrs \<longleftrightarrow> x \<in> set (out @ ?new) \<or> on_host ifaces (la_interface x) (la_addr x)"
    using 2 as by simp
  moreover have "x \<in> set ?new \<longleftrightarrow> la_interface x = if_name iface \<and> (\<exists>a \<in> set as. map_option Unmap (addr_ip a) = Some (la_addr x))"
    by (cases x) (force split: option.splits)
  ultimately show ?case using as by (auto simp: on_host_def)
qed (simp add: on_host_def)

lemma list_interfaces_Inr: "(\<exists>addrs. list_interfaces ifaces out = Inr addrs) \<longleftrightarrow> (\<forall>i \<in> set ifaces. \<exists>as. if_addrs i = Inr as)"
  by (induction ifaces out rule: list_interfaces.induct) (auto split: sum.splits)

lemma address_present_iff:
  assumes "ListLocalAddresses (Inr ifaces) = Inr addrs"
  shows "address_present g addrs \<longleftrightarrow>
    (\<exists>name. on_host ifaces name (lg_addr g) \<and> (lg_iface g = [] \<or> name = lg_iface g))"
proof -
  have "x \<in> set addrs \<longleftrightarrow> on_host ifaces (la_interface x) (la_addr x)" for x
    using list_interfaces_set [of ifaces "[]" addrs x] assms by (simp add: ListLocalAddresses_def)
  then have mem: "\<lparr>la_interface = n, la_addr = a\<rparr> \<in> set addrs \<longleftrightarrow> on_host ifaces n a" for n a by simp
  have "(\<exists>x \<in> set addrs. P (la_interface x) (la_addr x)) \<longleftrightarrow> (\<exists>n a. on_host ifaces n a \<and> P n a)" for P
    unfolding mem [symmetric] by (metis (full_types) local_address.cases local_address.select_convs(1,2))
  from this [of "\<lambda>n a. a = lg_addr g \<and> (lg_iface g = [] \<or> n = lg_iface g)"]
  show ?thesis by (auto simp: address_present_def list_ex_iff)
qed

lemma guarded_Check_listed:
  assumes "ListLocalAddresses interfaces = Inr addrs"
  shows "snd (guarded_Check interfaces elapsed inner g) = guard_observe (address_present g addrs) g"
    and "address_present g addrs \<Longrightarrow> fst (guarded_Check interfaces elapsed inner g) = inner"
    and "\<not> address_present g addrs \<Longrightarrow> \<not> res_success (fst (guarded_Check interfaces elapsed inner g))"
  using assms by (simp_all add: guarded_Check_def guard_check_def Let_def split: prod.split)

lemma guarded_Check_unlisted:
  assumes "ListLocalAddresses interfaces = Inl err"
  shows "\<not> res_success (fst (guarded_Check interfaces elapsed inner g)) \<and> snd (guarded_Check interfaces elapsed inner g) = (g, [])"
  using assms by (simp add: guarded_Check_def guard_check_def)

section \<open>Properties\<close>

text \<open>A guarded check succeeds only where the address of the VIP is configured: when the interfaces
  can be listed, the result is that of the wrapped check exactly if the address is on the host (on the
  named interface, when one is named) and a failure otherwise, and the guard remembers what it saw; when
  they cannot be listed, the check fails and the guard keeps its state.\<close>

theorem guard_never_passes_missing:
  "(case interfaces of
      Inl err \<Rightarrow> \<not> res_success (fst (guarded_Check interfaces elapsed inner g)) \<and>
        snd (guarded_Check interfaces elapsed inner g) = (g, [])
    | Inr ifaces \<Rightarrow>
        (if \<exists>i \<in> set ifaces. \<exists>e. if_addrs i = Inl e
         then \<not> res_success (fst (guarded_Check interfaces elapsed inner g)) \<and>
           snd (guarded_Check interfaces elapsed inner g) = (g, [])
         else (let here = (\<exists>name. on_host ifaces name (lg_addr g) \<and> (lg_iface g = [] \<or> name = lg_iface g)) in
           (if here then fst (guarded_Check interfaces elapsed inner g) = inner
            else \<not> res_success (fst (guarded_Check interfaces elapsed inner g))) \<and>
           snd (guarded_Check interfaces elapsed inner g) = guard_observe here g)))"
proof (cases interfaces)
  case (Inl err)
  then have "ListLocalAddresses interfaces = Inl err" by (simp add: ListLocalAddresses_def)
  from guarded_Check_unlisted [OF this] show ?thesis using Inl by simp
next
  case (Inr ifaces)
  show ?thesis
  proof (cases "ListLocalAddresses interfaces")
    case Inl': (Inl e)
    then have "\<exists>i \<in> set ifaces. \<exists>e. if_addrs i = Inl e"
    proof -
      have "\<not> (\<exists>as. list_interfaces ifaces [] = Inr as)" using Inr Inl' by (simp add: ListLocalAddresses_def)
      then obtain i where "i \<in> set ifaces" "\<nexists>as. if_addrs i = Inr as" unfolding list_interfaces_Inr by blast
      then show ?thesis by (metis sum.exhaust)
    qed
    with guarded_Check_unlisted [OF Inl'] show ?thesis unfolding Inr sum.case by (simp only: if_True simp_thms)
  next
    case Inr': (Inr addrs)
    then have no: "\<not> (\<exists>i \<in> set ifaces. \<exists>e. if_addrs i = Inl e)"
    proof -
      have "\<exists>as. list_interfaces ifaces [] = Inr as" using Inr Inr' by (simp add: ListLocalAddresses_def)
      then have "\<forall>i \<in> set ifaces. \<exists>as. if_addrs i = Inr as" by (simp only: list_interfaces_Inr)
      then show ?thesis by fastforce
    qed
    note here = address_present_iff [OF Inr' [unfolded Inr], of g, symmetric]
    from guarded_Check_listed [OF Inr'] show ?thesis
      unfolding Inr sum.case if_not_P [OF no] Let_def here by (cases "address_present g addrs") simp_all
  qed
qed

theorem guard_never_passes_missing_witness:
  "\<not> res_success (fst (guarded_Check
     (Inr [\<lparr>if_name = ''lo'', if_addrs = Inr [AddrIPNet [127, 0, 0, 1], AddrOther]\<rparr>]) 5 (zero_result\<lparr>res_success := True\<rparr>)
     \<lparr>lg_vip_name = ''web'', lg_prefix = ''192.0.2.1/32'', lg_addr = IP4 3221225985, lg_iface = [], lg_known = False,
      lg_assigned = False\<rparr>))"
proof -
  let ?ifs = "[\<lparr>if_name = ''lo'', if_addrs = Inr [AddrIPNet [127, 0, 0, 1], AddrOther]\<rparr>]"
    and ?g = "\<lparr>lg_vip_name = ''web'', lg_prefix = ''192.0.2.1/32'', lg_addr = IP4 3221225985, lg_iface = [],
      lg_known = False, lg_assigned = False\<rparr>"
  have "\<not> on_host ?ifs name (lg_addr ?g)" for name
    by (simp add: on_host_def addr_ip_def AddrFromSlice_def of_octets_def Unmap_def)
  then show ?thesis
    using guard_never_passes_missing [of "Inr ?ifs" 5 "zero_result\<lparr>res_success := True\<rparr>" ?g] by (simp add: Let_def)
qed

end
