(* ===== verification/Summary.thy ===== *)
theory Summary
  imports Model "HOL-Library.List_Lexorder" "HOL-Library.Char_ord"
begin

text \<open>
  Readiness and the status lines (\<open>internal/model/summary.go\<close>). Strings are ordered byte by byte, as
  \<open>sort.Strings\<close> orders them. The clock format of \<open>ConfigNotice\<close> is an argument: it is only printed.
\<close>

definition SessionEstablished :: string where
  "SessionEstablished = ''established''"

definition UnreadyPeers :: "peer_status list \<Rightarrow> peer_status list" where
  "UnreadyPeers peers = filter (\<lambda>p. ps_required p \<and> ps_session_state p \<noteq> SessionEstablished) peers"

fun peers_loop :: "peer_status list \<Rightarrow> nat \<times> string list \<Rightarrow> nat \<times> string list" where
  "peers_loop [] acc = acc"
| "peers_loop (p # ps) (established, down) =
     peers_loop ps
       (if ps_session_state p = SessionEstablished then (established + 1, down)
        else (established, down @ [ps_name p]))"

definition SummarizePeers :: "peer_status list \<Rightarrow> string" where
  "SummarizePeers peers =
     (let (established, down) = peers_loop peers (0, [])
      in ''peers: '' @ show_nat established @ ''/'' @ show_nat (length peers) @ '' established'' @
         (if down \<noteq> [] then '' (down: '' @ str_join (sort down) '', '' @ '')'' else []))"

fun states_loop :: "vip_status list \<Rightarrow> nat \<times> nat \<times> nat \<Rightarrow> nat \<times> nat \<times> nat" where
  "states_loop [] acc = acc"
| "states_loop (v # vs) (announced, pessimized, withdrawn) =
     states_loop vs
       (case vst_state v of
          StateAnnounced \<Rightarrow> (announced + 1, pessimized, withdrawn)
        | StatePessimized \<Rightarrow> (announced, pessimized + 1, withdrawn)
        | StateWithdrawn \<Rightarrow> (announced, pessimized, withdrawn + 1))"

definition Summarize :: "vip_status list \<Rightarrow> peer_status list \<Rightarrow> string" where
  "Summarize vips peers =
     (let (announced, pessimized, withdrawn) = states_loop vips (0, 0, 0)
      in ''VIPs: '' @ show_nat announced @ '' announced, '' @ show_nat pessimized @ '' pessimized, '' @
         show_nat withdrawn @ '' withdrawn; '' @ SummarizePeers peers)"

definition ConfigNotice :: "(go_time \<Rightarrow> string) \<Rightarrow> config_status option \<Rightarrow> string" where
  "ConfigNotice clock c =
     (case c of
        None \<Rightarrow> []
      | Some c \<Rightarrow>
          str_join
            ((case cs_last_reload c of
                None \<Rightarrow> []
              | Some lr \<Rightarrow>
                  (if ReloadStatus_OK (Some lr) then []
                   else [''config reload '' @ outcome_text (rs_outcome lr) @ '' at '' @ clock (rs_at lr) @ '': '' @
                         (if rs_error lr = [] then str_join (rs_errors lr) ''; '' else rs_error lr)])) @
             (if cs_file_changed c then [''config file changed on disk, not reloaded''] else []) @
             (if cs_pending_vips c \<noteq> []
              then [''reload pending verdict for '' @ str_join (cs_pending_vips c) '', ''] else []))
            ''; '')"

section \<open>Lemmas\<close>

lemma peers_loop_eq:
  "peers_loop ps (n, down) =
     (n + length (filter (\<lambda>p. ps_session_state p = SessionEstablished) ps),
      down @ map ps_name (filter (\<lambda>p. ps_session_state p \<noteq> SessionEstablished) ps))"
  by (induction ps arbitrary: n down) auto

definition in_state :: "VIPState \<Rightarrow> vip_status list \<Rightarrow> nat" where
  "in_state s vs = length (filter (\<lambda>v. vst_state v = s) vs)"

lemma states_loop_eq:
  "states_loop vs (a, p, w) =
     (a + in_state StateAnnounced vs, p + in_state StatePessimized vs, w + in_state StateWithdrawn vs)"
  by (induction vs arbitrary: a p w) (auto simp: in_state_def split: VIPState.split)

lemma str_join_eq_Nil: "str_join xs sep = [] \<longleftrightarrow> (\<forall>x \<in> set xs. x = []) \<and> (sep = [] \<or> length xs \<le> 1)"
  by (induction xs sep rule: str_join.induct) auto

section \<open>Properties\<close>

text \<open>The status line counts right: the three numbers of VIPs are the numbers in each state and add up
  to all of them, and the peers named as down are exactly those without an established session, sorted.\<close>

theorem Summarize_counts:
  "Summarize vips peers =
     ''VIPs: '' @ show_nat (in_state StateAnnounced vips) @ '' announced, '' @
     show_nat (in_state StatePessimized vips) @ '' pessimized, '' @
     show_nat (in_state StateWithdrawn vips) @ '' withdrawn; '' @ SummarizePeers peers \<and>
   in_state StateAnnounced vips + in_state StatePessimized vips + in_state StateWithdrawn vips = length vips \<and>
   SummarizePeers peers =
     (let up = filter (\<lambda>p. ps_session_state p = SessionEstablished) peers;
          down = sort (map ps_name (filter (\<lambda>p. ps_session_state p \<noteq> SessionEstablished) peers))
      in ''peers: '' @ show_nat (length up) @ ''/'' @ show_nat (length peers) @ '' established'' @
         (if up = peers then [] else '' (down: '' @ str_join down '', '' @ '')''))"
proof -
  have "in_state StateAnnounced vips + in_state StatePessimized vips + in_state StateWithdrawn vips = length vips"
  proof (induction vips)
    case (Cons v vs)
    then show ?case by (cases "vst_state v") (simp_all add: in_state_def)
  qed (simp add: in_state_def)
  moreover have "filter (\<lambda>p. ps_session_state p \<noteq> SessionEstablished) peers = [] \<longleftrightarrow>
      filter (\<lambda>p. ps_session_state p = SessionEstablished) peers = peers"
    by (auto simp: filter_empty_conv filter_id_conv)
  ultimately show ?thesis
    by (simp add: Summarize_def SummarizePeers_def states_loop_eq peers_loop_eq Let_def)
qed

text \<open>The config notice is silent exactly when the daemon runs what the file says: there was no reload
  or the last one succeeded, the file on disk is the running one, and no VIP waits for a verdict.\<close>

theorem ConfigNotice_silent_iff:
  "ConfigNotice clock (Some c) = [] \<longleftrightarrow>
     (cs_last_reload c = None \<or> ReloadStatus_OK (cs_last_reload c)) \<and> \<not> cs_file_changed c \<and> cs_pending_vips c = []"
  by (auto simp: ConfigNotice_def str_join_eq_Nil split: option.splits)

end
