(* ===== verification/Reload.thy ===== *)
theory Reload
  imports Registry Local_Address Config_Diff Policy_Manager Summary
begin

text \<open>
  Applying a changed config file to the running daemon (\<open>internal/reload/reload.go\<close>).

  A reloader owns the schedulers as objects of a heap, the registry that runs them, and drives the policy
  manager through the interface \<open>Policy\<close>, which is a record of operations over a state \<open>'p\<close> here. What
  the code reads from outside is the record \<open>reload_env\<close>: the clock (one reading per call), the loader of
  the file, SHA-256, the constructor of checkers (a field of the reloader in the source) and the setter of
  the log level. A panic of the registry ends the call, so a reload is an \<open>outcome\<close>.

  A Go map is walked in the order of its association list; the results below do not depend on it. Logging is
  not modelled. Closing a scheduler releases its checker: \<open>hp_closed\<close> collects the closed ones.
\<close>

section \<open>State\<close>

record 'p policy_iface =
  pi_AddVIP :: "vip_config \<Rightarrow> 'p \<Rightarrow> 'p"
  pi_RemoveVIP :: "string \<Rightarrow> 'p \<Rightarrow> go_error option \<times> 'p"
  pi_CommitVIP :: "vip_config \<Rightarrow> (string, check_seed) gomap \<Rightarrow> 'p \<Rightarrow> go_error option \<times> 'p"
  pi_OnHealthTransition :: "health_transition \<Rightarrow> 'p \<Rightarrow> 'p"
  pi_OnCheckResult :: "string \<Rightarrow> string \<Rightarrow> check_result \<Rightarrow> 'p \<Rightarrow> 'p"

record sched_heap =
  hp_obj :: "sid \<Rightarrow> scheduler"
  hp_next :: sid
  hp_closed :: "sid list"

record staged_vip =
  sg_cfg :: vip_config
  sg_old :: vip_config
  sg_shadows :: "(string, sid) gomap"
  sg_verdicts :: "(string, bool) gomap"
  sg_removed :: "string list"
  sg_deadline :: go_time

record reload_env =
  re_now :: go_time
  re_LoadRaw :: "string \<Rightarrow> go_error + config \<times> string"
  re_ReadFile :: "string \<Rightarrow> go_error + string"
  re_sha256 :: "string \<Rightarrow> string"
  re_newChecker :: "check_config \<Rightarrow> go_error + string"
  re_SetLevel :: "string \<Rightarrow> go_error option"

text \<open>
  \<open>rl_wake\<close> is whether the one-place channel \<open>wake\<close> is full, \<open>rl_on_change\<close> counts the calls of \<open>onChange\<close>,
  and \<open>rl_level\<close> and \<open>rl_bgp_level\<close> are the log levels last set in the process and in the BGP manager
  (\<open>None\<close> when the reloader has no BGP manager).
\<close>

record 'p reloader =
  rl_path :: string
  rl_pol :: 'p
  rl_reg :: registry
  rl_heap :: sched_heap
  rl_metrics :: metric_log
  rl_level :: string
  rl_bgp_level :: "string option"
  rl_on_change :: nat
  rl_lock_log_level :: bool
  rl_cur :: config
  rl_cur_hash :: string
  rl_loaded_at :: go_time
  rl_generation :: int
  rl_last :: "reload_status option"
  rl_staging :: "(string, staged_vip) gomap"
  rl_file_changed :: bool
  rl_verdicts :: "sid list"
  rl_wake :: bool

section \<open>Schedulers on the heap\<close>

definition alloc_sched :: "scheduler \<Rightarrow> sched_heap \<Rightarrow> sid \<times> sched_heap" where
  "alloc_sched s h = (hp_next h, h\<lparr>hp_obj := (hp_obj h)(hp_next h := s), hp_next := hp_next h + 1\<rparr>)"

definition closeSchedulers :: "sid list \<Rightarrow> sched_heap \<Rightarrow> sched_heap" where
  "closeSchedulers ss h = h\<lparr>hp_closed := hp_closed h @ ss\<rparr>"

definition set_callbacks :: "sid \<Rightarrow> callback option \<Rightarrow> callback option \<Rightarrow> sched_heap \<Rightarrow> sched_heap" where
  "set_callbacks s t c h = h\<lparr>hp_obj := (hp_obj h)(s := SetCallbacks t c (hp_obj h s))\<rparr>"

definition healthOf :: "scheduler \<Rightarrow> HealthStatus" where
  "healthOf s = (if s_healthy s then HealthHealthy else HealthUnhealthy)"

definition boolGauge :: "bool \<Rightarrow> rat" where
  "boolGauge b = (if b then 1 else 0)"

definition stagingGraceFactor :: int where
  "stagingGraceFactor = 4"

definition schedulerThresholds :: "scheduler \<Rightarrow> int \<times> int" where
  "schedulerThresholds s = (s_rise s, s_fall s)"

text \<open>\<open>time.Duration\<close> has 64 bits: both products wrap around.\<close>

definition stagingDeadline :: "go_time \<Rightarrow> scheduler list \<Rightarrow> go_time" where
  "stagingDeadline now scheds =
     (let window = fold (\<lambda>s w. max w (wrap64 (max (s_rise s) (s_fall s) * s_interval s))) scheds 0
      in now + wrap64 (stagingGraceFactor * window))"

section \<open>Constructing schedulers\<close>

definition scheduler_config_of :: "vip_config \<Rightarrow> check_config \<Rightarrow> string \<Rightarrow> scheduler_config" where
  "scheduler_config_of v c ty =
     \<lparr>scfg_vip_name = v_name v,
      scfg_check_name = check_EffectiveName c,
      scfg_checker_type = Some ty,
      scfg_interval = (case ck_interval c of None \<Rightarrow> 1000000000 | Some d \<Rightarrow> d),
      scfg_timeout = (case ck_timeout c of None \<Rightarrow> 100000000 | Some d \<Rightarrow> d),
      scfg_rise = (case ck_rise c of None \<Rightarrow> 1 | Some n \<Rightarrow> n),
      scfg_fall = (case ck_fall c of None \<Rightarrow> 3 | Some n \<Rightarrow> n),
      scfg_on_transition = None,
      scfg_on_check_result = None\<rparr>"

text \<open>
  The loop over the checks. When a constructor fails, the schedulers built before it stay on the heap:
  nothing refers to them any more and nothing closes them.
\<close>

fun build_schedulers ::
    "(check_config \<Rightarrow> go_error + string) \<Rightarrow> vip_config \<Rightarrow> check_config list \<Rightarrow> sid list \<Rightarrow> sched_heap \<Rightarrow>
     (go_error + sid list) \<times> sched_heap" where
  "build_schedulers newChecker v [] out h = (Inr out, h)"
| "build_schedulers newChecker v (c # cs) out h =
     (case newChecker c of
        Inl err \<Rightarrow>
          (Inl (Errorf ''creating checker %q for VIP %q: %w''
             [FStr (check_EffectiveName c), FStr (v_name v)] (Some err)), h)
      | Inr ty \<Rightarrow>
          (let (s, h') = alloc_sched (NewScheduler (scheduler_config_of v c ty)) h
           in build_schedulers newChecker v cs (out @ [s]) h'))"

definition NewSchedulers ::
    "(check_config \<Rightarrow> go_error + string) \<Rightarrow> vip_config \<Rightarrow> check_config list \<Rightarrow> sched_heap \<Rightarrow>
     (go_error + sid list) \<times> sched_heap" where
  "NewSchedulers newChecker v list h =
     (if v_require_local_address v then
        (case NewLocalAddressGuard (v_name v) (v_prefix v) (v_local_interface v) of
           Inl err \<Rightarrow>
             (Inl (Errorf ''creating local address guard for VIP %q: %w'' [FStr (v_name v)] (Some err)), h)
         | Inr _ \<Rightarrow> build_schedulers newChecker v list [] h)
      else build_schedulers newChecker v list [] h)"

section \<open>The reloader\<close>

definition reload_New ::
    "go_time \<Rightarrow> (string \<Rightarrow> string) \<Rightarrow> string \<Rightarrow> config \<Rightarrow> string \<Rightarrow> 'p \<Rightarrow> registry \<Rightarrow> sched_heap \<Rightarrow> metric_log \<Rightarrow>
     string \<Rightarrow> string option \<Rightarrow> 'p reloader" where
  "reload_New now sha path cfg raw pol reg h ml level bgp_level =
     \<lparr>rl_path = path, rl_pol = pol, rl_reg = reg, rl_heap = h,
      rl_metrics = emit [GaugeSet ConfigLoadedTimestamp [] (unix now)] ml,
      rl_level = level, rl_bgp_level = bgp_level, rl_on_change = 0, rl_lock_log_level = False,
      rl_cur = cfg, rl_cur_hash = sha raw, rl_loaded_at = now, rl_generation = 1, rl_last = None,
      rl_staging = [], rl_file_changed = False, rl_verdicts = [], rl_wake = False\<rparr>"

definition LockLogLevel :: "'p reloader \<Rightarrow> 'p reloader" where
  "LockLogLevel r = r\<lparr>rl_lock_log_level := True\<rparr>"

definition pendingLocked :: "'p reloader \<Rightarrow> string list" where
  "pendingLocked r = sort (gm_keys (rl_staging r))"

definition reload_Status :: "'p reloader \<Rightarrow> config_status" where
  "reload_Status r =
     \<lparr>cs_path = rl_path r, cs_loaded_at = rl_loaded_at r, cs_generation = rl_generation r,
      cs_file_changed = rl_file_changed r, cs_pending_vips = pendingLocked r, cs_last_reload = rl_last r\<rparr>"

definition reload_Config :: "'p reloader \<Rightarrow> config" where
  "reload_Config r = rl_cur r"

definition effectiveVIPsLocked :: "'p reloader \<Rightarrow> vip_config list" where
  "effectiveVIPsLocked r =
     (if rl_staging r = [] then c_vips (rl_cur r)
      else map (\<lambda>v. case map_of (rl_staging r) (v_name v) of None \<Rightarrow> v | Some st \<Rightarrow> sg_old st) (c_vips (rl_cur r)))"

definition findVisible :: "string \<Rightarrow> string \<Rightarrow> 'p reloader \<Rightarrow> sid option" where
  "findVisible vip check r =
     find (\<lambda>s. s_check_name (hp_obj (rl_heap r) s) = check) (gm_get0 [] (reg_Schedulers (rl_reg r)) vip)"

text \<open>Stopping a scheduler for good: \<open>reg.Remove\<close>, then close.\<close>

definition stop_and_close :: "sid \<Rightarrow> 'p reloader \<Rightarrow> 'p reloader" where
  "stop_and_close s r =
     r\<lparr>rl_reg := reg_Remove (hp_obj (rl_heap r)) s (rl_reg r), rl_heap := closeSchedulers [s] (rl_heap r)\<rparr>"

definition dropStagingLocked :: "'p reloader \<Rightarrow> 'p reloader" where
  "dropStagingLocked r =
     (fold (\<lambda>(name, st) r. fold (\<lambda>(check, s) r. stop_and_close s r) (sg_shadows st) r) (rl_staging r) r)
       \<lparr>rl_staging := [], rl_verdicts := []\<rparr>"

definition watchShadow :: "sid \<Rightarrow> 'p reloader \<Rightarrow> 'p reloader" where
  "watchShadow s r = r\<lparr>rl_heap := set_callbacks s None (Some CbWatchShadow) (rl_heap r)\<rparr>"

text \<open>The closure \<open>watchShadow\<close> installs, run after a result of the shadow \<open>s\<close>.\<close>

definition shadow_result :: "sid \<Rightarrow> 'p reloader \<Rightarrow> 'p reloader" where
  "shadow_result s r =
     (let sh = hp_obj (rl_heap r) s; (rise, fall) = schedulerThresholds sh
      in if s_consecutive_ok sh < rise \<and> s_consecutive_fail sh < fall then r
         else r\<lparr>rl_verdicts := (if List.member (rl_verdicts r) s then rl_verdicts r else rl_verdicts r @ [s]),
                rl_wake := True\<rparr>)"

text \<open>
  One run of a scheduler with its callbacks: those of the policy manager, or the closure above. It is
  \<open>runCheck\<close> of \<open>internal/checks/scheduler.go\<close> on the heap.
\<close>

definition deliver :: "'p policy_iface \<Rightarrow> sid \<Rightarrow> sched_event \<Rightarrow> 'p reloader \<Rightarrow> 'p reloader" where
  "deliver P s ev r =
     (case ev of
        CheckResultEvent cb vip check res \<Rightarrow>
          (case cb of
             CbPolicy \<Rightarrow> r\<lparr>rl_pol := pi_OnCheckResult P vip check res (rl_pol r)\<rparr>
           | CbWatchShadow \<Rightarrow> shadow_result s r)
      | TransitionEvent cb t \<Rightarrow>
          (case cb of
             CbPolicy \<Rightarrow> r\<lparr>rl_pol := pi_OnHealthTransition P t (rl_pol r)\<rparr>
           | CbWatchShadow \<Rightarrow> r))"

definition run_scheduler :: "'p policy_iface \<Rightarrow> sid \<Rightarrow> check_result \<Rightarrow> 'p reloader \<Rightarrow> 'p reloader" where
  "run_scheduler P s res r =
     (let (s', evs) = runCheck res (hp_obj (rl_heap r) s)
      in fold (deliver P s) evs (r\<lparr>rl_heap := (rl_heap r)\<lparr>hp_obj := (hp_obj (rl_heap r))(s := s')\<rparr>\<rparr>))"

section \<open>A reload\<close>

text \<open>The schedulers of the added VIPs; \<open>added\<close> is what was built before a failure.\<close>

fun build_added ::
    "(check_config \<Rightarrow> go_error + string) \<Rightarrow> vip_config list \<Rightarrow> (string, sid list) gomap \<Rightarrow> sched_heap \<Rightarrow>
     go_error option \<times> (string, sid list) gomap \<times> sched_heap" where
  "build_added newChecker [] added h = (None, added, h)"
| "build_added newChecker (v # vs) added h =
     (case NewSchedulers newChecker v (CheckList v) h of
        (Inl err, h') \<Rightarrow> (Some err, added, h')
      | (Inr scheds, h') \<Rightarrow> build_added newChecker vs (gm_put (v_name v) scheds added) h')"

definition stage_vip :: "go_time \<Rightarrow> vip_change \<Rightarrow> sid list \<Rightarrow> sched_heap \<Rightarrow> staged_vip" where
  "stage_vip now ch scheds h =
     \<lparr>sg_cfg = ch_new ch,
      sg_old = ch_old ch,
      sg_shadows = fold (\<lambda>s m. gm_put (s_check_name (hp_obj h s)) s m) scheds [],
      sg_verdicts = [],
      sg_removed = map check_EffectiveName (ch_checks_removed ch),
      sg_deadline = stagingDeadline now (map (hp_obj h) scheds)\<rparr>"

fun build_staged ::
    "(check_config \<Rightarrow> go_error + string) \<Rightarrow> go_time \<Rightarrow> vip_change list \<Rightarrow> (string, staged_vip) gomap \<Rightarrow>
     sched_heap \<Rightarrow> go_error option \<times> (string, staged_vip) gomap \<times> sched_heap" where
  "build_staged newChecker now [] staged h = (None, staged, h)"
| "build_staged newChecker now (ch # chs) staged h =
     (if ch_checks_changed ch = [] then build_staged newChecker now chs staged h
      else
        case NewSchedulers newChecker (ch_new ch) (ch_checks_changed ch) h of
          (Inl err, h') \<Rightarrow> (Some err, staged, h')
        | (Inr scheds, h') \<Rightarrow>
            build_staged newChecker now chs (gm_put (v_name (ch_new ch)) (stage_vip now ch scheds h') staged) h')"

text \<open>The closure \<open>reject\<close>: everything built so far is closed, nothing running is touched.\<close>

definition reject ::
    "reload_status \<Rightarrow> (string, sid list) gomap \<Rightarrow> (string, staged_vip) gomap \<Rightarrow> sched_heap \<Rightarrow> go_error \<Rightarrow>
     'p reloader \<Rightarrow> 'p reloader \<times> reload_status" where
  "reject res added staged h err r =
     (let h1 = fold (\<lambda>(name, scheds) h. closeSchedulers scheds h) added h;
          h2 = fold (\<lambda>(name, st) h. closeSchedulers (map snd (sg_shadows st)) h) staged h1
      in (r\<lparr>rl_heap := h2, rl_file_changed := True\<rparr>,
          res\<lparr>rs_outcome := ReloadRejected, rs_error := error_text err\<rparr>))"

text \<open>
  Removing VIPs. A VIP whose route could not be withdrawn gets its checks back and is remembered in
  \<open>failed\<close> with its old definition.
\<close>

fun apply_removed ::
    "'p policy_iface \<Rightarrow> vip_config list \<Rightarrow> (string, vip_config) gomap \<Rightarrow> 'p reloader \<Rightarrow> reload_status \<Rightarrow>
     ((string, vip_config) gomap \<times> 'p reloader \<times> reload_status) outcome" where
  "apply_removed P [] failed r res = Ret (failed, r, res)"
| "apply_removed P (v # vs) failed r res =
     (let name = v_name v; obj = hp_obj (rl_heap r);
          running = gm_get0 [] (reg_Schedulers (rl_reg r)) name
      in case reg_RemoveVIP obj name (rl_reg r) of
           Panic msg \<Rightarrow> Panic msg
         | Ret reg' \<Rightarrow>
             (case pi_RemoveVIP P name (rl_pol r) of
                (Some err, pol') \<Rightarrow>
                  apply_removed P vs (gm_put name v failed)
                    (r\<lparr>rl_reg := fold (reg_Add obj) running reg', rl_pol := pol'\<rparr>)
                    (res\<lparr>rs_errors := rs_errors res @ [error_text err]\<rparr>)
              | (None, pol') \<Rightarrow>
                  apply_removed P vs failed
                    (r\<lparr>rl_reg := reg', rl_pol := pol', rl_heap := closeSchedulers running (rl_heap r)\<rparr>)
                    (res\<lparr>rs_removed := rs_removed res @ [name]\<rparr>)))"

text \<open>A scheduler of an added VIP: it reports to the policy manager and is registered.\<close>

definition add_scheduler :: "sid \<Rightarrow> 'p reloader \<Rightarrow> 'p reloader" where
  "add_scheduler s r =
     (let h = set_callbacks s (Some CbPolicy) (Some CbPolicy) (rl_heap r)
      in r\<lparr>rl_heap := h, rl_reg := reg_Add (hp_obj h) s (rl_reg r)\<rparr>)"

fun apply_added ::
    "'p policy_iface \<Rightarrow> (string, sid list) gomap \<Rightarrow> (string, vip_config) gomap \<Rightarrow> vip_config list \<Rightarrow>
     'p reloader \<Rightarrow> reload_status \<Rightarrow> 'p reloader \<times> reload_status" where
  "apply_added P added failed [] r res = (r, res)"
| "apply_added P added failed (v # vs) r res =
     (let scheds = gm_get0 [] added (v_name v) in
      if map_of failed (v_name v) \<noteq> None then
        apply_added P added failed vs (r\<lparr>rl_heap := closeSchedulers scheds (rl_heap r)\<rparr>) res
      else
        apply_added P added failed vs
          (fold add_scheduler scheds (r\<lparr>rl_pol := pi_AddVIP P v (rl_pol r)\<rparr>))
          (res\<lparr>rs_added := rs_added res @ [v_name v]\<rparr>))"

definition drop_check :: "string \<Rightarrow> string \<Rightarrow> 'p reloader \<Rightarrow> 'p reloader" where
  "drop_check vip check r =
     (case findVisible vip check r of None \<Rightarrow> r | Some s \<Rightarrow> stop_and_close s r)"

definition start_shadow :: "sid \<Rightarrow> 'p reloader \<Rightarrow> 'p reloader" where
  "start_shadow s r = (let r1 = watchShadow s r in r1\<lparr>rl_reg := reg_AddShadow s (rl_reg r1)\<rparr>)"

fun apply_changed ::
    "'p policy_iface \<Rightarrow> (string, staged_vip) gomap \<Rightarrow> vip_change list \<Rightarrow> 'p reloader \<Rightarrow> reload_status \<Rightarrow>
     'p reloader \<times> reload_status" where
  "apply_changed P staged [] r res = (r, res)"
| "apply_changed P staged (ch # chs) r res =
     (let name = v_name (ch_new ch); res1 = res\<lparr>rs_changed := rs_changed res @ [name]\<rparr> in
      case map_of staged name of
        None \<Rightarrow>
          (let r1 = fold (\<lambda>c r. drop_check name (check_EffectiveName c) r) (ch_checks_removed ch) r;
               (err, pol') = pi_CommitVIP P (ch_new ch) [] (rl_pol r1);
               r2 = r1\<lparr>rl_pol := pol'\<rparr>
           in apply_changed P staged chs r2
                (case err of None \<Rightarrow> res1 | Some e \<Rightarrow> res1\<lparr>rs_errors := rs_errors res1 @ [error_text e]\<rparr>))
      | Some st \<Rightarrow>
          apply_changed P staged chs
            (fold start_shadow (map snd (sg_shadows st)) (r\<lparr>rl_staging := gm_put name st (rl_staging r)\<rparr>))
            (res1\<lparr>rs_pending := rs_pending res1 @ [name]\<rparr>))"

definition apply_log_level :: "reload_env \<Rightarrow> config \<Rightarrow> 'p reloader \<Rightarrow> reload_status \<Rightarrow> 'p reloader \<times> reload_status" where
  "apply_log_level env cfg r res =
     (if \<not> rl_lock_log_level r \<and> log_level (c_logging cfg) \<noteq> log_level (c_logging (rl_cur r)) then
        (case re_SetLevel env (log_level (c_logging cfg)) of
           Some err \<Rightarrow> (r, res\<lparr>rs_errors := rs_errors res @ [''logging.level: '' @ error_text err]\<rparr>)
         | None \<Rightarrow>
             (r\<lparr>rl_level := log_level (c_logging cfg),
                rl_bgp_level := map_option (\<lambda>_. log_level (c_logging cfg)) (rl_bgp_level r)\<rparr>, res))
      else (r, res))"

text \<open>The running VIP list: the file's, with the old definition of every VIP whose removal failed.\<close>

definition keep_failed :: "(string, vip_config) gomap \<Rightarrow> vip_config list \<Rightarrow> vip_config list" where
  "keep_failed failed vips =
     fold (\<lambda>(name, old) vs. case index_func (\<lambda>v. v_name v = name) vs of
                               Some i \<Rightarrow> vs[i := old]
                             | None \<Rightarrow> vs @ [old])
       failed vips"

definition zero_hash :: string where
  "zero_hash = replicate 32 (CHR 0x00)"

definition finish_reload ::
    "config \<Rightarrow> string \<Rightarrow> (string, vip_config) gomap \<Rightarrow> 'p reloader \<Rightarrow> reload_status \<Rightarrow> 'p reloader \<times> reload_status" where
  "finish_reload cfg hash failed r res =
     (r\<lparr>rl_cur := cfg\<lparr>c_vips := keep_failed failed (c_vips cfg)\<rparr>,
        rl_cur_hash := (if failed \<noteq> [] then zero_hash else hash),
        rl_file_changed := (failed \<noteq> []),
        rl_loaded_at := rs_at res,
        rl_generation := rl_generation r + 1,
        rl_metrics := emit [GaugeSet ConfigLoadedTimestamp [] (unix (rs_at res))] (rl_metrics r)\<rparr>,
      res\<lparr>rs_outcome := (if rs_errors res \<noteq> [] then ReloadFailed else ReloadApplied)\<rparr>)"

text \<open>The part of \<open>reloadLocked\<close> after everything that can fail was built.\<close>

definition apply_diff ::
    "reload_env \<Rightarrow> 'p policy_iface \<Rightarrow> config \<Rightarrow> string \<Rightarrow> vip_changes \<Rightarrow> (string, sid list) gomap \<Rightarrow>
     (string, staged_vip) gomap \<Rightarrow> 'p reloader \<Rightarrow> reload_status \<Rightarrow> ('p reloader \<times> reload_status) outcome" where
  "apply_diff env P cfg hash diff added staged r res =
     (case apply_removed P (df_removed diff) [] (dropStagingLocked r) res of
        Panic msg \<Rightarrow> Panic msg
      | Ret (failed, r1, res1) \<Rightarrow>
          (let (r2, res2) = apply_added P added failed (df_added diff) r1 res1;
               (r3, res3) = apply_changed P staged (df_changed diff) r2 res2;
               (r4, res4) = apply_log_level env cfg r3 res3
           in Ret (finish_reload cfg hash failed r4 res4)))"

definition empty_status :: "go_time \<Rightarrow> reload_status" where
  "empty_status now =
     \<lparr>rs_at = now, rs_outcome = ReloadNone, rs_error = [], rs_errors = [], rs_added = [], rs_removed = [],
      rs_changed = [], rs_pending = []\<rparr>"

definition reloadLocked :: "reload_env \<Rightarrow> 'p policy_iface \<Rightarrow> 'p reloader \<Rightarrow> ('p reloader \<times> reload_status) outcome" where
  "reloadLocked env P r =
     (let res = empty_status (re_now env) in
      case re_LoadRaw env (rl_path r) of
        Inl err \<Rightarrow> Ret (r, res\<lparr>rs_outcome := ReloadRejected, rs_error := error_text err\<rparr>)
      | Inr (cfg, raw) \<Rightarrow>
          (let hash = re_sha256 env raw in
           if hash = rl_cur_hash r then
             Ret (r\<lparr>rl_file_changed := False\<rparr>, res\<lparr>rs_outcome := ReloadUnchanged, rs_pending := pendingLocked r\<rparr>)
           else if RestartRequired (rl_cur r) cfg \<noteq> [] then
             Ret (r\<lparr>rl_file_changed := True\<rparr>,
                  res\<lparr>rs_outcome := ReloadRejected,
                      rs_error := ''restart required: '' @ str_join (RestartRequired (rl_cur r) cfg) '', '' @ '' changed''\<rparr>)
           else
             let diff = DiffVIPs (effectiveVIPsLocked r) (c_vips cfg) in
             (case build_added (re_newChecker env) (df_added diff) [] (rl_heap r) of
                (Some err, added, h1) \<Rightarrow> Ret (reject res added [] h1 err r)
              | (None, added, h1) \<Rightarrow>
                  (case build_staged (re_newChecker env) (rs_at res) (df_changed diff) [] h1 of
                     (Some err, staged, h2) \<Rightarrow> Ret (reject res added staged h2 err r)
                   | (None, staged, h2) \<Rightarrow>
                       apply_diff env P cfg hash diff added staged (r\<lparr>rl_heap := h2\<rparr>) res))))"

definition recordLocked :: "reload_status \<Rightarrow> 'p reloader \<Rightarrow> 'p reloader" where
  "recordLocked res r =
     r\<lparr>rl_last := Some res,
       rl_metrics := emit
         [CounterInc ConfigReloadTotalVec [outcome_text (rs_outcome res)],
          GaugeSet ConfigLastReloadTimestamp [] (unix (rs_at res)),
          GaugeSet ConfigLastReloadSuccess [] (if ReloadStatus_OK (Some res) then 1 else 0),
          GaugeSet ConfigFileChanged [] (boolGauge (rl_file_changed r)),
          GaugeSet ConfigReloadPendingVIPs [] (of_nat (length (rl_staging r)))]
         (rl_metrics r)\<rparr>"

definition Reload :: "reload_env \<Rightarrow> 'p policy_iface \<Rightarrow> 'p reloader \<Rightarrow> ('p reloader \<times> reload_status) outcome" where
  "Reload env P r =
     (case reloadLocked env P r of
        Panic msg \<Rightarrow> Panic msg
      | Ret (r1, res) \<Rightarrow>
          (let r2 = recordLocked res r1 in Ret (r2\<lparr>rl_on_change := rl_on_change r2 + 1\<rparr>, res)))"

section \<open>Committing a staged VIP\<close>

definition promote_shadow :: "sid \<Rightarrow> 'p reloader \<Rightarrow> 'p reloader" where
  "promote_shadow s r =
     (let (reg', old) = reg_Promote (hp_obj (rl_heap r)) s (rl_reg r);
          r1 = r\<lparr>rl_reg := reg'\<rparr>
      in case old of None \<Rightarrow> r1 | Some prev \<Rightarrow> r1\<lparr>rl_heap := closeSchedulers [prev] (rl_heap r1)\<rparr>)"

definition seed_of :: "go_time \<Rightarrow> scheduler \<Rightarrow> check_seed" where
  "seed_of now s = \<lparr>seed_health = healthOf s, seed_last_result = s_last_result s, seed_last_time = now\<rparr>"

text \<open>Attaching the policy callbacks to a committed shadow, with the final compare against its seed.\<close>

definition attach_shadow ::
    "'p policy_iface \<Rightarrow> string \<Rightarrow> bool \<Rightarrow> (string, check_seed) gomap \<Rightarrow> string \<times> sid \<Rightarrow> 'p reloader \<Rightarrow> 'p reloader" where
  "attach_shadow P vip committed seeds p r =
     (case p of (name, s) \<Rightarrow>
        (let r1 = r\<lparr>rl_heap := set_callbacks s (Some CbPolicy) (Some CbPolicy) (rl_heap r)\<rparr>;
             sh = hp_obj (rl_heap r1) s
         in if committed \<and> map_option seed_health (map_of seeds name) \<noteq> Some (healthOf sh) then
              r1\<lparr>rl_pol := pi_OnHealthTransition P
                    \<lparr>ht_vip_name = vip, ht_check_name = name, ht_healthy = (healthOf sh = HealthHealthy),
                     ht_reason = ''verdict changed while the reload committed'',
                     ht_check_result = s_last_result sh\<rparr> (rl_pol r1)\<rparr>
            else r1))"

definition commit_outcome :: "string \<Rightarrow> go_error option \<Rightarrow> 'p reloader \<Rightarrow> 'p reloader" where
  "commit_outcome vip err r =
     (case rl_last r of
        None \<Rightarrow> r
      | Some lr \<Rightarrow>
          (let lr1 = (case err of
                          None \<Rightarrow> lr
                        | Some e \<Rightarrow> lr\<lparr>rs_outcome := ReloadFailed, rs_errors := rs_errors lr @ [error_text e]\<rparr>);
               ops = (case err of None \<Rightarrow> [] | Some _ \<Rightarrow> [GaugeSet ConfigLastReloadSuccess [] 0])
           in r\<lparr>rl_last := Some (lr1\<lparr>rs_pending := filter (\<lambda>n. n \<noteq> vip) (rs_pending lr1)\<rparr>),
                rl_metrics := emit ops (rl_metrics r)\<rparr>))"

text \<open>
  \<open>commitLocked\<close>. The shadows run on while it works: \<open>during s\<close> are the results of the shadow \<open>s\<close> that
  arrive between the reading of its seed and the attachment of the policy callbacks. They reach only the
  shadow itself and the closure of \<open>watchShadow\<close>, so their order against the commit does not matter.
\<close>

definition commitLocked ::
    "go_time \<Rightarrow> (sid \<Rightarrow> check_result list) \<Rightarrow> 'p policy_iface \<Rightarrow> staged_vip \<Rightarrow> 'p reloader \<Rightarrow> 'p reloader" where
  "commitLocked now during P st r =
     (let vip = v_name (sg_cfg st);
          r1 = r\<lparr>rl_staging := gm_del vip (rl_staging r)\<rparr>;
          r2 = fold (drop_check vip) (sg_removed st) r1;
          r3 = fold promote_shadow (map snd (sg_shadows st)) r2;
          seeds = map (\<lambda>(name, s). (name, seed_of now (hp_obj (rl_heap r3) s))) (sg_shadows st);
          (err, pol') = pi_CommitVIP P (sg_cfg st) seeds (rl_pol r3);
          r4 = r3\<lparr>rl_pol := pol'\<rparr>;
          r5 = fold (\<lambda>s r. fold (run_scheduler P s) (during s) r) (map snd (sg_shadows st)) r4;
          r6 = fold (attach_shadow P vip (err = None) seeds) (sg_shadows st) r5
      in commit_outcome vip err r6)"

text \<open>The loop over the reported verdicts; a verdict of a superseded shadow is skipped.\<close>

fun commit_ready_loop ::
    "go_time \<Rightarrow> (sid \<Rightarrow> check_result list) \<Rightarrow> 'p policy_iface \<Rightarrow> sid list \<Rightarrow> bool \<times> 'p reloader \<Rightarrow> bool \<times> 'p reloader" where
  "commit_ready_loop now during P [] acc = acc"
| "commit_ready_loop now during P (s # ss) (changed, r) =
     (let sh = hp_obj (rl_heap r) s in
      commit_ready_loop now during P ss
        (case map_of (rl_staging r) (s_vip_name sh) of
           None \<Rightarrow> (changed, r)
         | Some st \<Rightarrow>
             (if map_of (sg_shadows st) (s_check_name sh) \<noteq> Some s then (changed, r)
              else
                let st1 = st\<lparr>sg_verdicts := gm_put (s_check_name sh) True (sg_verdicts st)\<rparr>;
                    r1 = r\<lparr>rl_staging := gm_put (s_vip_name sh) st1 (rl_staging r)\<rparr>
                in if length (sg_verdicts st1) < length (sg_shadows st1) then (changed, r1)
                   else (True, commitLocked now during P st1 r1))))"

definition pending_gauge :: "'p reloader \<Rightarrow> 'p reloader" where
  "pending_gauge r =
     r\<lparr>rl_metrics := emit [GaugeSet ConfigReloadPendingVIPs [] (of_nat (length (rl_staging r)))] (rl_metrics r)\<rparr>"

definition notify_if :: "bool \<Rightarrow> 'p reloader \<Rightarrow> 'p reloader" where
  "notify_if changed r = (if changed then r\<lparr>rl_on_change := rl_on_change r + 1\<rparr> else r)"

definition commitReady :: "go_time \<Rightarrow> (sid \<Rightarrow> check_result list) \<Rightarrow> 'p policy_iface \<Rightarrow> 'p reloader \<Rightarrow> 'p reloader" where
  "commitReady now during P r =
     (let (changed, r1) = commit_ready_loop now during P (rl_verdicts r) (False, r\<lparr>rl_verdicts := []\<rparr>)
      in notify_if changed (pending_gauge r1))"

definition expireStaged :: "go_time \<Rightarrow> (sid \<Rightarrow> check_result list) \<Rightarrow> 'p policy_iface \<Rightarrow> 'p reloader \<Rightarrow> 'p reloader" where
  "expireStaged now during P r =
     (let expired = filter (\<lambda>(name, st). sg_deadline st \<le> now) (rl_staging r);
          changed = (expired \<noteq> []);
          r1 = fold (\<lambda>(name, st). commitLocked now during P st) expired r
      in notify_if changed (if changed then pending_gauge r1 else r1))"

definition pollFile :: "reload_env \<Rightarrow> 'p reloader \<Rightarrow> 'p reloader" where
  "pollFile env r =
     (let changed = (case re_ReadFile env (rl_path r) of
                       Inl _ \<Rightarrow> True
                     | Inr raw \<Rightarrow> re_sha256 env raw \<noteq> rl_cur_hash r);
          flipped = (changed \<noteq> rl_file_changed r)
      in notify_if flipped
           (r\<lparr>rl_file_changed := changed,
              rl_metrics := emit [GaugeSet ConfigFileChanged [] (boolGauge changed)] (rl_metrics r)\<rparr>))"

text \<open>The two branches of the loop in \<open>Run\<close>: a wake-up, and a tick of the poll timer.\<close>

definition run_wake :: "go_time \<Rightarrow> (sid \<Rightarrow> check_result list) \<Rightarrow> 'p policy_iface \<Rightarrow> 'p reloader \<Rightarrow> 'p reloader" where
  "run_wake now during P r =
     (if rl_wake r then commitReady now during P (r\<lparr>rl_wake := False\<rparr>) else r)"

definition run_tick :: "reload_env \<Rightarrow> (sid \<Rightarrow> check_result list) \<Rightarrow> 'p policy_iface \<Rightarrow> 'p reloader \<Rightarrow> 'p reloader" where
  "run_tick env during P r = pollFile env (expireStaged (re_now env) during P r)"

section \<open>The policy manager behind the interface\<close>

text \<open>
  The manager with the environments its coming calls will see: every call takes one, so that clock and
  drain files may change from call to call.
\<close>

record 'b live_manager =
  lm_mgr :: "'b manager"
  lm_envs :: "nat \<Rightarrow> pol_env"

definition lm_next :: "'b manager \<Rightarrow> 'b live_manager \<Rightarrow> 'b live_manager" where
  "lm_next m lm = \<lparr>lm_mgr = m, lm_envs = (\<lambda>n. lm_envs lm (Suc n))\<rparr>"

definition manager_iface :: "'b live_manager policy_iface" where
  "manager_iface =
     \<lparr>pi_AddVIP = (\<lambda>cfg lm. lm_next (AddVIP (lm_envs lm 0) cfg (lm_mgr lm)) lm),
      pi_RemoveVIP = (\<lambda>name lm. let (err, m) = RemoveVIP name (lm_mgr lm) in (err, lm_next m lm)),
      pi_CommitVIP = (\<lambda>cfg seeds lm. let (err, m) = CommitVIP (lm_envs lm 0) cfg seeds (lm_mgr lm) in (err, lm_next m lm)),
      pi_OnHealthTransition = (\<lambda>t lm. lm_next (OnHealthTransition (lm_envs lm 0) t (lm_mgr lm)) lm),
      pi_OnCheckResult = (\<lambda>vip check res lm. lm_next (OnCheckResult (lm_envs lm 0) vip check res (lm_mgr lm)) lm)\<rparr>"

section \<open>Concrete reloaders for the witnesses\<close>

definition ex_renv :: "go_error + config \<times> string \<Rightarrow> reload_env" where
  "ex_renv loaded =
     \<lparr>re_now = 2000, re_LoadRaw = (\<lambda>_. loaded),
      re_ReadFile = (\<lambda>_. case loaded of Inl e \<Rightarrow> Inl e | Inr (c, raw) \<Rightarrow> Inr raw),
      re_sha256 = (\<lambda>raw. raw), re_newChecker = (\<lambda>c. Inr (ck_type c)), re_SetLevel = (\<lambda>_. None)\<rparr>"

definition ex_pol_env :: pol_env where
  "ex_pol_env = \<lparr>pe_now = 1000, pe_stat = (\<lambda>_. False), pe_expr = (\<lambda>_ _. Inl (Errorf ''no expressions'' [] None))\<rparr>"

text \<open>A daemon that runs a config without VIPs.\<close>

definition ex_reloader :: "unit live_manager reloader" where
  "ex_reloader =
     reload_New 1000 (\<lambda>raw. raw) ''/etc/pathosd.toml'' ex_config ''v1''
       \<lparr>lm_mgr = NewManager ex_pol_env [] [] None (), lm_envs = (\<lambda>_. ex_pol_env)\<rparr>
       (reg_Start NewRegistry) \<lparr>hp_obj = ex_obj, hp_next = 0, hp_closed = []\<rparr> [] ''info'' None"

end
