(* ===== verification/Reload_Properties.thy ===== *)
theory Reload_Properties
  imports Reload
begin

text \<open>
  What a reload guarantees, whatever the policy manager behind the interface does: a rejected reload leaves
  the daemon as it was, a reload of the running file is a no-op, a removal that failed is tried again, a
  staged VIP waits a bounded time, and its shadows do not reach the policy before the commit.
\<close>

section \<open>Building schedulers\<close>

text \<open>Building only adds objects to the heap: the old ones stay, and nothing is closed.\<close>

definition heap_grows :: "sched_heap \<Rightarrow> sched_heap \<Rightarrow> bool" where
  "heap_grows h h' \<longleftrightarrow> hp_next h \<le> hp_next h' \<and> (\<forall>s < hp_next h. hp_obj h' s = hp_obj h s) \<and> hp_closed h' = hp_closed h"

lemma heap_grows_refl [simp]: "heap_grows h h"
  by (simp add: heap_grows_def)

lemma heap_grows_trans [trans]: "heap_grows h h1 \<Longrightarrow> heap_grows h1 h2 \<Longrightarrow> heap_grows h h2"
  by (simp add: heap_grows_def)

lemma heap_grows_alloc: "heap_grows h (snd (alloc_sched s h))"
  by (simp add: heap_grows_def alloc_sched_def)

text \<open>What was built: fresh, distinct addresses of schedulers for the checks, in order.\<close>

definition built :: "vip_config \<Rightarrow> check_config list \<Rightarrow> sched_heap \<Rightarrow> sid list \<Rightarrow> sched_heap \<Rightarrow> bool" where
  "built v cs h ss h' \<longleftrightarrow>
     distinct ss \<and> (\<forall>s \<in> set ss. hp_next h \<le> s \<and> s < hp_next h') \<and> length ss = length cs \<and>
     (\<forall>i < length cs. \<exists>ty. hp_obj h' (ss ! i) = NewScheduler (scheduler_config_of v (cs ! i) ty))"

lemma build_schedulers_grows: "heap_grows h (snd (build_schedulers newChecker v cs out h))"
proof (induction newChecker v cs out h rule: build_schedulers.induct)
  case (2 newChecker v c cs out h)
  show ?case
  proof (cases "newChecker c")
    case (Inr ty)
    obtain s h1 where a: "alloc_sched (NewScheduler (scheduler_config_of v c ty)) h = (s, h1)" by force
    then have "heap_grows h h1" using heap_grows_alloc by (metis snd_conv)
    with "2.IH" [OF Inr a [symmetric] refl] show ?thesis using Inr a by (auto intro: heap_grows_trans)
  qed simp
qed simp

lemma build_schedulers_built:
  "build_schedulers newChecker v cs out h = (Inr ss, h') \<Longrightarrow> \<exists>new. ss = out @ new \<and> built v cs h new h'"
proof (induction newChecker v cs out h rule: build_schedulers.induct)
  case (2 newChecker v c cs out h)
  obtain ty where ty: "newChecker c = Inr ty" using "2.prems" by (auto split: sum.splits)
  obtain s h1 where a: "alloc_sched (NewScheduler (scheduler_config_of v c ty)) h = (s, h1)" by force
  then have s: "s = hp_next h" "hp_next h1 = hp_next h + 1" "hp_obj h1 s = NewScheduler (scheduler_config_of v c ty)"
    by (auto simp: alloc_sched_def)
  have step: "build_schedulers newChecker v cs (out @ [s]) h1 = (Inr ss, h')" using "2.prems" ty a by simp
  then have g: "heap_grows h1 h'" using build_schedulers_grows [of h1 newChecker v cs "out @ [s]"] by simp
  obtain new where new: "ss = (out @ [s]) @ new" "built v cs h1 new h'"
    using "2.IH" [OF ty a [symmetric] refl step] by blast
  have obj: "hp_obj h' s = NewScheduler (scheduler_config_of v c ty)" using g s by (simp add: heap_grows_def)
  have "\<exists>ty. hp_obj h' ((s # new) ! i) = NewScheduler (scheduler_config_of v ((c # cs) ! i) ty)" if "i < length (c # cs)" for i
    using that obj new(2) by (cases i) (auto simp: built_def)
  moreover have "hp_next h < hp_next h'" using s g by (simp add: heap_grows_def)
  ultimately have "built v (c # cs) h (s # new) h'" using new(2) s by (fastforce simp: built_def)
  then show ?case using new(1) by auto
qed (simp add: built_def)

lemma NewSchedulers_grows: "heap_grows h (snd (NewSchedulers newChecker v cs h))"
  using build_schedulers_grows by (auto simp: NewSchedulers_def split: sum.split)

lemma NewSchedulers_built: "NewSchedulers newChecker v cs h = (Inr ss, h') \<Longrightarrow> built v cs h ss h'"
  using build_schedulers_built [of newChecker v cs "[]" h ss h']
  by (auto simp: NewSchedulers_def split: if_splits sum.splits)

lemma build_added_grows: "heap_grows h (snd (snd (build_added newChecker vs added h)))"
proof (induction newChecker vs added h rule: build_added.induct)
  case (2 newChecker v vs added h)
  obtain res h1 where n: "NewSchedulers newChecker v (CheckList v) h = (res, h1)" by force
  then have "heap_grows h h1" using NewSchedulers_grows by (metis snd_conv)
  then show ?case using n "2.IH" by (cases res) (auto intro: heap_grows_trans)
qed simp

lemma build_staged_grows: "heap_grows h (snd (snd (build_staged newChecker now chs staged h)))"
proof (induction newChecker now chs staged h rule: build_staged.induct)
  case (2 newChecker now ch chs staged h)
  obtain res h1 where n: "NewSchedulers newChecker (ch_new ch) (ch_checks_changed ch) h = (res, h1)" by force
  then have "heap_grows h h1" using NewSchedulers_grows by (metis snd_conv)
  then show ?case using n "2.IH" by (cases res) (auto intro: heap_grows_trans)
qed simp

text \<open>Every address in what was built is fresh.\<close>

lemma built_fresh: "NewSchedulers newChecker v cs h = (Inr ss, h') \<Longrightarrow> s \<in> set ss \<Longrightarrow> hp_next h \<le> s"
  using NewSchedulers_built by (fastforce simp: built_def)

lemma build_added_fresh:
  assumes "build_added newChecker vs added h = (err, added', h')" and "(name, ss) \<in> set added'"
  shows "(name, ss) \<in> set added \<or> (\<forall>s \<in> set ss. hp_next h \<le> s)"
  using assms
proof (induction newChecker vs added h rule: build_added.induct)
  case (2 newChecker v vs added h)
  obtain res h1 where n: "NewSchedulers newChecker v (CheckList v) h = (res, h1)" by force
  have le: "hp_next h \<le> hp_next h1" using NewSchedulers_grows [of h newChecker v "CheckList v"] n by (simp add: heap_grows_def)
  show ?case
  proof (cases res)
    case (Inr scheds)
    have "(name, ss) \<in> set (gm_put (v_name v) scheds added) \<or> (\<forall>s \<in> set ss. hp_next h1 \<le> s)"
      using "2.IH" [OF n [symmetric] Inr] "2.prems" n Inr by simp
    moreover have "ss = scheds \<or> (name, ss) \<in> set added" if "(name, ss) \<in> set (gm_put (v_name v) scheds added)"
      using that by (rule in_set_put_cases)
    ultimately show ?thesis using le built_fresh n Inr by (auto intro: order_trans)
  qed (use "2.prems" n in auto)
qed simp

lemma stage_vip_shadows: "snd ` set (sg_shadows (stage_vip now ch ss h)) \<subseteq> set ss"
  using fold_put_mem [where m = "[]" and f = "\<lambda>s. s"] by (fastforce simp: stage_vip_def)

lemma build_staged_fresh:
  assumes "build_staged newChecker now chs staged h = (err, staged', h')" and "(name, st) \<in> set staged'"
  shows "(name, st) \<in> set staged \<or> (\<forall>s \<in> snd ` set (sg_shadows st). hp_next h \<le> s)"
  using assms
proof (induction newChecker now chs staged h rule: build_staged.induct)
  case (2 newChecker now ch chs staged h)
  obtain res h1 where n: "NewSchedulers newChecker (ch_new ch) (ch_checks_changed ch) h = (res, h1)" by force
  have le: "hp_next h \<le> hp_next h1"
    using NewSchedulers_grows [of h newChecker "ch_new ch" "ch_checks_changed ch"] n by (simp add: heap_grows_def)
  show ?case
  proof (cases "ch_checks_changed ch = []")
    case False
    show ?thesis
    proof (cases res)
      case (Inr scheds)
      let ?st = "stage_vip now ch scheds h1"
      have "(name, st) \<in> set (gm_put (v_name (ch_new ch)) ?st staged) \<or> (\<forall>s \<in> snd ` set (sg_shadows st). hp_next h1 \<le> s)"
        using "2.IH"(2) [OF False n [symmetric] Inr] "2.prems" n Inr False by simp
      moreover have "\<forall>s \<in> snd ` set (sg_shadows ?st). hp_next h \<le> s"
        using stage_vip_shadows [of now ch scheds h1] built_fresh n Inr by blast
      ultimately show ?thesis using le by (auto dest!: in_set_put_cases intro: order_trans)
    qed (use "2.prems" n False in auto)
  qed (use 2 in simp)
qed simp

section \<open>Rejection\<close>

lemma closeSchedulers_sel [simp]:
  "hp_obj (closeSchedulers ss h) = hp_obj h" "hp_next (closeSchedulers ss h) = hp_next h"
  "hp_closed (closeSchedulers ss h) = hp_closed h @ ss"
  by (simp_all add: closeSchedulers_def)

lemma fold_close_sel:
  "hp_obj (fold (\<lambda>(name, x) h. closeSchedulers (f x) h) m h) = hp_obj h"
  "hp_next (fold (\<lambda>(name, x) h. closeSchedulers (f x) h) m h) = hp_next h"
  "hp_closed (fold (\<lambda>(name, x) h. closeSchedulers (f x) h) m h) = hp_closed h @ concat (map (\<lambda>(name, x). f x) m)"
  by (induction m arbitrary: h) auto

text \<open>
  The ways a reload can end, with what each leaves: \<open>built_only\<close> describes the heap after a rejection that
  came while building.
\<close>

definition built_only :: "sched_heap \<Rightarrow> sched_heap \<Rightarrow> bool" where
  "built_only h h' \<longleftrightarrow> hp_next h \<le> hp_next h' \<and> (\<forall>s < hp_next h. hp_obj h' s = hp_obj h s) \<and>
     (\<exists>new. hp_closed h' = hp_closed h @ new \<and> (\<forall>s \<in> set new. hp_next h \<le> s))"

lemma built_only_refl [simp]: "built_only h h"
  by (simp add: built_only_def)

lemma reject_built_only:
  assumes "build_added newChecker vs [] h = (e1, added, h1)"
    and "staged = [] \<and> h2 = h1 \<or> build_staged newChecker now chs [] h1 = (e2, staged, h2)"
  shows "built_only h (rl_heap (fst (reject res added staged h2 err r)))"
proof -
  have g: "heap_grows h h1" using build_added_grows [of h newChecker vs "[]"] assms(1) by simp
  have "heap_grows h1 h2" using build_staged_grows [of h1 newChecker now chs "[]"] assms(2) by auto
  with g have g2: "heap_grows h h2" by (rule heap_grows_trans)
  let ?A = "concat (map (\<lambda>(name, ss). ss) added)" and ?B = "concat (map (\<lambda>(name, st). map snd (sg_shadows st)) staged)"
  have "\<forall>s \<in> set ?A. hp_next h \<le> s"
    using build_added_fresh [OF assms(1)] by auto
  moreover have "\<forall>s \<in> set ?B. hp_next h \<le> s"
    using assms(2) build_staged_fresh [of newChecker now chs "[]" h1 e2 staged h2] g by (fastforce simp: heap_grows_def)
  ultimately have new: "\<forall>s \<in> set (?A @ ?B). hp_next h \<le> s" unfolding set_append by blast
  have h': "rl_heap (fst (reject res added staged h2 err r)) = fold (\<lambda>(name, st) h. closeSchedulers (map snd (sg_shadows st)) h) staged
      (fold (\<lambda>(name, ss) h. closeSchedulers ss h) added h2)" by (simp add: reject_def Let_def)
  have "hp_closed (rl_heap (fst (reject res added staged h2 err r))) = hp_closed h @ (?A @ ?B)"
    unfolding h' fold_close_sel using g2 by (simp add: heap_grows_def)
  then show ?thesis
    unfolding built_only_def using new g2 by (simp only: h' fold_close_sel heap_grows_def) blast
qed

lemma apply_diff_outcome:
  "apply_diff env P cfg hash diff added staged r res = Ret (r', res') \<Longrightarrow> rs_outcome res' \<in> {ReloadApplied, ReloadFailed}"
  by (auto simp: apply_diff_def finish_reload_def Let_def split: outcome.splits prod.splits if_splits)

text \<open>How \<open>reloadLocked\<close> can end.\<close>

lemma reloadLocked_cases:
  assumes "reloadLocked env P r = Ret (r', res)"
  obtains (unreadable) err where "re_LoadRaw env (rl_path r) = Inl err" "r' = r" "rs_outcome res = ReloadRejected"
  | (same) cfg raw where "re_LoadRaw env (rl_path r) = Inr (cfg, raw)" "re_sha256 env raw = rl_cur_hash r"
      "r' = r\<lparr>rl_file_changed := False\<rparr>" "rs_outcome res = ReloadUnchanged"
  | (restart) cfg raw where "re_LoadRaw env (rl_path r) = Inr (cfg, raw)" "RestartRequired (rl_cur r) cfg \<noteq> []"
      "r' = r\<lparr>rl_file_changed := True\<rparr>" "rs_outcome res = ReloadRejected"
  | (rejected) cfg raw h where "re_LoadRaw env (rl_path r) = Inr (cfg, raw)" "built_only (rl_heap r) h"
      "r' = r\<lparr>rl_heap := h, rl_file_changed := True\<rparr>" "rs_outcome res = ReloadRejected"
  | (applied) cfg raw diff added h1 staged h2 where "re_LoadRaw env (rl_path r) = Inr (cfg, raw)"
      "re_sha256 env raw \<noteq> rl_cur_hash r" "RestartRequired (rl_cur r) cfg = []"
      "diff = DiffVIPs (effectiveVIPsLocked r) (c_vips cfg)"
      "build_added (re_newChecker env) (df_added diff) [] (rl_heap r) = (None, added, h1)"
      "build_staged (re_newChecker env) (re_now env) (df_changed diff) [] h1 = (None, staged, h2)"
      "apply_diff env P cfg (re_sha256 env raw) diff added staged (r\<lparr>rl_heap := h2\<rparr>) (empty_status (re_now env)) = Ret (r', res)"
      "rs_outcome res \<in> {ReloadApplied, ReloadFailed}"
proof (cases "re_LoadRaw env (rl_path r)")
  case (Inl err)
  have "Ret (r, (empty_status (re_now env))\<lparr>rs_outcome := ReloadRejected, rs_error := error_text err\<rparr>) = Ret (r', res)"
    using assms [unfolded reloadLocked_def Let_def Inl sum.case] .
  then show ?thesis using unreadable [OF Inl] by auto
next
  case (Inr p)
  obtain cfg raw where p: "re_LoadRaw env (rl_path r) = Inr (cfg, raw)" using Inr by (cases p) auto
  let ?diff = "DiffVIPs (effectiveVIPsLocked r) (c_vips cfg)"
  obtain e1 added h1 where a: "build_added (re_newChecker env) (df_added ?diff) [] (rl_heap r) = (e1, added, h1)"
    by (metis prod_cases3)
  obtain e2 staged h2 where b: "build_staged (re_newChecker env) (re_now env) (df_changed ?diff) [] h1 = (e2, staged, h2)"
    by (metis prod_cases3)
  have rj: "\<exists>h. built_only (rl_heap r) h \<and> r' = r\<lparr>rl_heap := h, rl_file_changed := True\<rparr> \<and> rs_outcome res = ReloadRejected"
    if "staged' = [] \<and> h = h1 \<or> build_staged (re_newChecker env) (re_now env) (df_changed ?diff) [] h1 = (e2, staged', h)"
      "(r', res) = reject (empty_status (re_now env)) added staged' h err r" for staged' h err
    using reject_built_only [OF a that(1), of "empty_status (re_now env)" err r] that(2)
    by (simp add: reject_def Let_def) metis
  note un = assms [unfolded reloadLocked_def Let_def p sum.case prod.case a]
  consider "re_sha256 env raw = rl_cur_hash r" | "re_sha256 env raw \<noteq> rl_cur_hash r" "RestartRequired (rl_cur r) cfg \<noteq> []"
    | "re_sha256 env raw \<noteq> rl_cur_hash r" "RestartRequired (rl_cur r) cfg = []" by blast
  then show ?thesis
  proof cases
    case 1
    then show ?thesis using un same [OF p] by auto
  next
    case 2
    then show ?thesis using un restart [OF p] by auto
  next
    case 3
    show ?thesis
    proof (cases e1)
      case (Some err)
      then show ?thesis using un 3 rj [of "[]" h1 err] rejected [OF p] by auto
    next
      case None
      show ?thesis
      proof (cases e2)
        case (Some err)
        then show ?thesis using un 3 None b rj [of staged h2 err] rejected [OF p] by (auto simp: empty_status_def)
      next
        case e2: None
        have "apply_diff env P cfg (re_sha256 env raw) ?diff added staged (r\<lparr>rl_heap := h2\<rparr>) (empty_status (re_now env)) = Ret (r', res)"
          using un 3 None e2 b by (simp add: empty_status_def)
        then show ?thesis using applied [OF p 3 refl] a b None e2 apply_diff_outcome by metis
      qed
    qed
  qed
qed

section \<open>What the phases of a reload leave alone\<close>

text \<open>The part of the reloader that describes the running file.\<close>

definition cfg_side :: "'p reloader \<Rightarrow> string \<times> config \<times> string \<times> go_time \<times> int \<times> bool \<times> reload_status option" where
  "cfg_side r = (rl_path r, rl_cur r, rl_cur_hash r, rl_loaded_at r, rl_generation r, rl_lock_log_level r, rl_last r)"

lemma cfg_side_update [frame_simps]:
  "cfg_side (r\<lparr>rl_pol := p\<rparr>) = cfg_side r" "cfg_side (r\<lparr>rl_reg := g\<rparr>) = cfg_side r"
  "cfg_side (r\<lparr>rl_heap := h\<rparr>) = cfg_side r" "cfg_side (r\<lparr>rl_staging := st\<rparr>) = cfg_side r"
  "cfg_side (r\<lparr>rl_verdicts := vs\<rparr>) = cfg_side r" "cfg_side (r\<lparr>rl_wake := w\<rparr>) = cfg_side r"
  "cfg_side (r\<lparr>rl_level := l\<rparr>) = cfg_side r" "cfg_side (r\<lparr>rl_bgp_level := bl\<rparr>) = cfg_side r"
  "cfg_side (r\<lparr>rl_metrics := ml\<rparr>) = cfg_side r" "cfg_side (r\<lparr>rl_on_change := n\<rparr>) = cfg_side r"
  by (simp_all add: cfg_side_def)

lemma fold_frame: "(\<And>x r. x \<in> set xs \<Longrightarrow> f (g x r) = f r) \<Longrightarrow> f (fold g xs r) = f r"
  by (induction xs arbitrary: r) simp_all

lemma cfg_side_ops [frame_simps]:
  "cfg_side (stop_and_close s r) = cfg_side r"
  "cfg_side (dropStagingLocked r) = cfg_side r"
  "cfg_side (add_scheduler s r) = cfg_side r"
  "cfg_side (drop_check v c r) = cfg_side r"
  "cfg_side (start_shadow s r) = cfg_side r"
  "cfg_side (fst (apply_log_level env cfg r res)) = cfg_side r"
proof -
  show c: "cfg_side (stop_and_close s r) = cfg_side r" for s and r :: "'p reloader"
    by (simp add: stop_and_close_def frame_simps)
  show "cfg_side (dropStagingLocked r) = cfg_side r"
    by (auto simp: dropStagingLocked_def frame_simps c intro!: fold_frame)
  show "cfg_side (drop_check v c' r) = cfg_side r" for c' by (simp add: drop_check_def c split: option.split)
qed (simp_all add: add_scheduler_def start_shadow_def watchShadow_def apply_log_level_def Let_def frame_simps split: option.split)

lemma cfg_side_removed:
  "apply_removed P vs failed r res = Ret (failed', r', res') \<Longrightarrow> cfg_side r' = cfg_side r"
proof (induction P vs failed r res rule: apply_removed.induct)
  case (2 P v vs failed r res)
  obtain reg' where g: "reg_RemoveVIP (hp_obj (rl_heap r)) (v_name v) (rl_reg r) = Ret reg'"
    using "2.prems" by (auto simp: Let_def split: outcome.splits)
  obtain err pol' where p: "pi_RemoveVIP P (v_name v) (rl_pol r) = (err, pol')" by force
  show ?case
    using "2.IH"(1) [OF refl refl refl g p [symmetric]] "2.IH"(2) [OF refl refl refl g p [symmetric]] "2.prems" g p
    by (cases err) (simp_all add: Let_def frame_simps)
qed simp

lemma cfg_side_added: "cfg_side (fst (apply_added P added failed vs r res)) = cfg_side r"
  by (induction P added failed vs r res rule: apply_added.induct)
    (simp_all add: Let_def frame_simps fold_frame [of _ cfg_side])

lemma cfg_side_changed: "cfg_side (fst (apply_changed P staged chs r res)) = cfg_side r"
proof (induction P staged chs r res rule: apply_changed.induct)
  case (2 P staged ch chs r res)
  have "cfg_side (fold (\<lambda>c r. drop_check n (check_EffectiveName c) r) cs r) = cfg_side r" for n cs
    by (rule fold_frame) (simp add: frame_simps)
  moreover have "cfg_side (fold start_shadow ss r) = cfg_side r" for ss and r :: "'a reloader"
    by (rule fold_frame) (simp add: frame_simps)
  ultimately show ?case
    using "2.IH" by (simp add: Let_def frame_simps split: option.split prod.split)
qed simp

text \<open>Errors are only collected, and every failed removal is one.\<close>

lemma apply_removed_errors:
  "apply_removed P vs failed r res = Ret (failed', r', res') \<Longrightarrow>
     (rs_errors res = [] \<longrightarrow> failed = []) \<Longrightarrow> (rs_errors res' = [] \<longrightarrow> failed' = [] \<and> rs_errors res = [])"
proof (induction P vs failed r res rule: apply_removed.induct)
  case (2 P v vs failed r res)
  obtain reg' where g: "reg_RemoveVIP (hp_obj (rl_heap r)) (v_name v) (rl_reg r) = Ret reg'"
    using "2.prems" by (auto simp: Let_def split: outcome.splits)
  obtain err pol' where p: "pi_RemoveVIP P (v_name v) (rl_pol r) = (err, pol')" by force
  show ?case
    using "2.IH"(1) [OF refl refl refl g p [symmetric]] "2.IH"(2) [OF refl refl refl g p [symmetric]] "2.prems" g p
    by (cases err) (simp_all add: Let_def)
qed simp

lemma apply_added_errors: "rs_errors (snd (apply_added P added failed vs r res)) = rs_errors res"
  by (induction P added failed vs r res rule: apply_added.induct) (simp_all add: Let_def)

lemma apply_changed_errors: "rs_errors res \<noteq> [] \<Longrightarrow> rs_errors (snd (apply_changed P staged chs r res)) \<noteq> []"
proof (induction chs arbitrary: r res)
  case (Cons ch chs)
  show ?case
  proof (cases "map_of staged (v_name (ch_new ch))")
    case None
    define r1 where "r1 = fold (\<lambda>c r. drop_check (v_name (ch_new ch)) (check_EffectiveName c) r) (ch_checks_removed ch) r"
    obtain err pol' where c: "pi_CommitVIP P (ch_new ch) [] (rl_pol r1) = (err, pol')" by force
    show ?thesis
      using None Cons.prems c by (cases err) (simp_all add: Let_def r1_def Cons.IH)
  qed (use Cons in \<open>simp add: Let_def\<close>)
qed simp

lemma apply_log_level_errors: "rs_errors (snd (apply_log_level env cfg r res)) = [] \<Longrightarrow> rs_errors res = []"
  by (auto simp: apply_log_level_def split: option.splits if_splits)

text \<open>The end of an applied reload.\<close>

lemma apply_diff_end:
  assumes "apply_diff env P cfg hash diff added staged r res = Ret (r', res')" and "rs_errors res = []"
  obtains failed r1 res1 r2 res2 r3 res3 r4 res4 where
    "apply_removed P (df_removed diff) [] (dropStagingLocked r) res = Ret (failed, r1, res1)"
    "apply_added P added failed (df_added diff) r1 res1 = (r2, res2)"
    "apply_changed P staged (df_changed diff) r2 res2 = (r3, res3)"
    "apply_log_level env cfg r3 res3 = (r4, res4)"
    "(r', res') = finish_reload cfg hash failed r4 res4" "cfg_side r4 = cfg_side r"
    "rs_outcome res' = ReloadApplied \<longrightarrow> failed = []"
proof -
  obtain failed r1 res1 where rm: "apply_removed P (df_removed diff) [] (dropStagingLocked r) res = Ret (failed, r1, res1)"
    using assms(1) by (auto simp: apply_diff_def split: outcome.splits)
  obtain r2 res2 where ad: "apply_added P added failed (df_added diff) r1 res1 = (r2, res2)" by force
  obtain r3 res3 where ch: "apply_changed P staged (df_changed diff) r2 res2 = (r3, res3)" by force
  obtain r4 res4 where lv: "apply_log_level env cfg r3 res3 = (r4, res4)" by force
  have fin: "(r', res') = finish_reload cfg hash failed r4 res4"
    using assms(1) rm ad ch lv by (simp add: apply_diff_def)
  have "cfg_side r4 = cfg_side r"
    using cfg_side_removed [OF rm] cfg_side_added [of P added failed "df_added diff" r1 res1]
      cfg_side_changed [of P staged "df_changed diff" r2 res2] cfg_side_ops(6) [of env cfg r3 res3] ad ch lv
    by (simp add: frame_simps)
  moreover have "rs_outcome res' = ReloadApplied \<longrightarrow> failed = []"
    using fin apply_removed_errors [OF rm] apply_added_errors [of P added failed "df_added diff" r1 res1]
      apply_changed_errors [of res2 P staged "df_changed diff" r2] apply_log_level_errors [of env cfg r3 res3] ad ch lv
    by (auto simp: finish_reload_def split: if_splits)
  ultimately show ?thesis using that [OF rm ad ch lv fin] by blast
qed

section \<open>Properties of rejected and repeated reloads\<close>

text \<open>C20: A rejected reload leaves the daemon as it was. Whatever made it fail (an unreadable or invalid
  file, a section that needs a restart, a check that cannot be built), the policy state, the registry, every
  scheduler that existed, the staged VIPs, the running config with its hash, time and generation, and the log
  level are unchanged, and only schedulers built by this very reload were closed.\<close>

theorem rejected_reload_changes_nothing:
  assumes "Reload env P r = Ret (r', res)" and "rs_outcome res = ReloadRejected"
  shows "rl_pol r' = rl_pol r \<and> rl_reg r' = rl_reg r \<and> rl_staging r' = rl_staging r \<and> rl_verdicts r' = rl_verdicts r \<and>
    rl_cur r' = rl_cur r \<and> rl_cur_hash r' = rl_cur_hash r \<and> rl_loaded_at r' = rl_loaded_at r \<and>
    rl_generation r' = rl_generation r \<and> rl_level r' = rl_level r \<and> rl_bgp_level r' = rl_bgp_level r \<and>
    (\<forall>s < hp_next (rl_heap r). hp_obj (rl_heap r') s = hp_obj (rl_heap r) s) \<and>
    (\<exists>new. hp_closed (rl_heap r') = hp_closed (rl_heap r) @ new \<and> (\<forall>s \<in> set new. hp_next (rl_heap r) \<le> s)) \<and>
    rl_last r' = Some res"
proof -
  obtain r1 where l: "reloadLocked env P r = Ret (r1, res)"
    and r': "r' = (recordLocked res r1)\<lparr>rl_on_change := rl_on_change r1 + 1\<rparr>"
    using assms(1) by (auto simp: Reload_def Let_def recordLocked_def split: outcome.splits)
  from l show ?thesis
  proof (cases rule: reloadLocked_cases)
    case (rejected cfg raw h)
    then show ?thesis using r' by (simp add: recordLocked_def built_only_def)
  qed (use assms(2) r' in \<open>auto simp: recordLocked_def\<close>)
qed

theorem rejected_reload_changes_nothing_witness:
  "\<exists>r' res. Reload (ex_renv (Inl (Errorf ''no such file'' [] None))) manager_iface ex_reloader = Ret (r', res) \<and>
     rl_cur r' = ex_config \<and> rl_generation r' = 1"
proof -
  let ?env = "ex_renv (Inl (Errorf ''no such file'' [] None))"
  obtain r' res where r: "Reload ?env manager_iface ex_reloader = Ret (r', res)" "rs_outcome res = ReloadRejected"
    by (simp add: Reload_def reloadLocked_def ex_renv_def Let_def)
  from rejected_reload_changes_nothing [OF this] r(1) show ?thesis
    by (simp add: ex_reloader_def reload_New_def)
qed

text \<open>C21: A reload that applied, or found nothing to do, leaves the daemon on exactly the file it read: the next
  reload of the same bytes is recognised as unchanged and touches nothing but its own record, however many
  VIPs are staged, and polling the file finds no difference.\<close>

theorem reload_again_unchanged:
  assumes "Reload env P r = Ret (r1, res1)" and "rs_outcome res1 = ReloadApplied \<or> rs_outcome res1 = ReloadUnchanged"
    and "re_LoadRaw env (rl_path r) = Inr (cfg, raw)" and "re_LoadRaw env' (rl_path r) = Inr (cfg', raw)"
    and "re_sha256 env' = re_sha256 env" and "re_ReadFile env' (rl_path r) = Inr raw"
  shows "(\<exists>r2 res2. Reload env' P r1 = Ret (r2, res2) \<and> rs_outcome res2 = ReloadUnchanged \<and>
      rl_pol r2 = rl_pol r1 \<and> rl_reg r2 = rl_reg r1 \<and> rl_heap r2 = rl_heap r1 \<and> rl_staging r2 = rl_staging r1 \<and>
      rl_cur r2 = rl_cur r1 \<and> rl_generation r2 = rl_generation r1 \<and> rs_pending res2 = pendingLocked r1) \<and>
    \<not> rl_file_changed (pollFile env' r1)"
proof -
  obtain r0 where l: "reloadLocked env P r = Ret (r0, res1)"
    and r1: "r1 = (recordLocked res1 r0)\<lparr>rl_on_change := rl_on_change r0 + 1\<rparr>"
    using assms(1) by (auto simp: Reload_def Let_def recordLocked_def split: outcome.splits)
  from l have "rl_cur_hash r0 = re_sha256 env raw \<and> rl_path r0 = rl_path r"
  proof (cases rule: reloadLocked_cases)
    case (applied cfg raw' diff added h1 staged h2)
    from applied(7) obtain failed r4 res4 where
      fin: "(r0, res1) = finish_reload cfg (re_sha256 env raw') failed r4 res4"
        "cfg_side r4 = cfg_side (r\<lparr>rl_heap := h2\<rparr>)" "rs_outcome res1 = ReloadApplied \<longrightarrow> failed = []"
      by (rule apply_diff_end) (simp add: empty_status_def)
    moreover have "rs_outcome res1 = ReloadApplied" using assms(2) applied(8) by auto
    ultimately show ?thesis using applied(1) assms(3) by (simp add: finish_reload_def cfg_side_def)
  qed (use assms(2,3) in auto)
  then have h: "rl_cur_hash r1 = re_sha256 env' raw" "rl_path r1 = rl_path r" using r1 assms(5) by (simp_all add: recordLocked_def)
  have "reloadLocked env' P r1 = Ret (r1\<lparr>rl_file_changed := False\<rparr>,
      (empty_status (re_now env'))\<lparr>rs_outcome := ReloadUnchanged, rs_pending := pendingLocked r1\<rparr>)"
    using h assms(4) by (simp add: reloadLocked_def Let_def)
  moreover have "\<not> rl_file_changed (pollFile env' r1)" using h assms(6) by (simp add: pollFile_def notify_if_def)
  ultimately show ?thesis by (simp add: Reload_def Let_def recordLocked_def)
qed

text \<open>The definitions a concrete reload unfolds to.\<close>

lemmas reload_eval = Reload_def reloadLocked_def ex_renv_def ex_reloader_def reload_New_def ex_config_with_def
  RestartRequired_def effectiveVIPsLocked_def DiffVIPs_def diffVIP_def NewSchedulers_def CheckList_def
  check_EffectiveName_def scheduler_config_of_def alloc_sched_def NewScheduler_def apply_diff_def dropStagingLocked_def
  add_scheduler_def set_callbacks_def SetCallbacks_def reg_Add_def reg_Start_def NewRegistry_def visible_of_def
  launchLocked_def apply_log_level_def finish_reload_def keep_failed_def recordLocked_def empty_status_def Let_def
  manager_iface_def stage_vip_def reg_Schedulers_def reg_RemoveVIP_def closeSchedulers_def gm_get0_def ex_vip_def
  ex_check_def ex_config_def

text \<open>A reload that adds one VIP with two checks.\<close>

definition ex_add_env :: reload_env where
  "ex_add_env = ex_renv (Inr (ex_config_with [ex_vip ''web'' ''192.0.2.1/32'' [''a'', ''b'']], ''v2''))"

lemma ex_add_reload:
  obtains r' res where "Reload ex_add_env manager_iface ex_reloader = Ret (r', res)" "rs_outcome res = ReloadApplied"
    "rl_path r' = rl_path ex_reloader" "rl_cur r' = ex_config_with [ex_vip ''web'' ''192.0.2.1/32'' [''a'', ''b'']]"
    "rl_staging r' = []" "map_of (reg_visible (rl_reg r')) ''web'' = Some [0, 1]" "rl_cur_hash r' = ''v2''"
  by (simp add: ex_add_env_def reload_eval)

theorem reload_again_unchanged_witness:
  "\<exists>r1 res1 r2 res2. Reload ex_add_env manager_iface ex_reloader = Ret (r1, res1) \<and> rs_outcome res1 = ReloadApplied \<and>
     Reload ex_add_env manager_iface r1 = Ret (r2, res2) \<and> rs_outcome res2 = ReloadUnchanged"
proof -
  obtain r1 res1 where r: "Reload ex_add_env manager_iface ex_reloader = Ret (r1, res1)" "rs_outcome res1 = ReloadApplied"
    by (rule ex_add_reload)
  have "re_LoadRaw ex_add_env (rl_path ex_reloader) = Inr (ex_config_with [ex_vip ''web'' ''192.0.2.1/32'' [''a'', ''b'']], ''v2'')"
    "re_ReadFile ex_add_env (rl_path ex_reloader) = Inr ''v2''" by (simp_all add: ex_add_env_def ex_renv_def)
  from reload_again_unchanged [OF r(1) disjI1 [OF r(2)] this(1) this(1) refl this(2)] r show ?thesis by blast
qed

section \<open>Failed removals\<close>

lemma apply_removed_split:
  "apply_removed P vs failed r res = Ret (failed', r', res') \<Longrightarrow> distinct (map v_name vs) \<Longrightarrow> gm_wf failed \<Longrightarrow>
     (\<forall>v \<in> set vs. map_of failed (v_name v) = None) \<Longrightarrow>
     gm_wf failed' \<and> rl_staging r' = rl_staging r \<and>
     (\<exists>done. rs_removed res' = rs_removed res @ done \<and>
        (\<forall>v \<in> set vs. v_name v \<in> set done \<longleftrightarrow> map_of failed' (v_name v) = None) \<and>
        (\<forall>v \<in> set vs. v_name v \<notin> set done \<longrightarrow> map_of failed' (v_name v) = Some v) \<and>
        (\<forall>q. q \<notin> v_name ` set vs \<longrightarrow> map_of failed' q = map_of failed q) \<and> set done \<subseteq> v_name ` set vs)"
proof (induction P vs failed r res rule: apply_removed.induct)
  case (2 P v vs failed r res)
  obtain reg' where g: "reg_RemoveVIP (hp_obj (rl_heap r)) (v_name v) (rl_reg r) = Ret reg'"
    using "2.prems"(1) by (auto simp: Let_def split: outcome.splits)
  obtain err pol' where p: "pi_RemoveVIP P (v_name v) (rl_pol r) = (err, pol')" by force
  have new: "v_name v \<notin> v_name ` set vs" using "2.prems"(2) by simp
  show ?case
  proof (cases err)
    case (Some e)
    have "\<forall>w \<in> set vs. map_of (gm_put (v_name v) v failed) (v_name w) = None"
      using "2.prems"(4) new by (auto simp: gomap_simps) (metis imageI)
    with "2.IH"(2) [OF refl refl refl g p [symmetric] Some] "2.prems" g p Some
    obtain d where d: "gm_wf failed'" "rl_staging r' = rl_staging r" "rs_removed res' = rs_removed res @ d"
      "\<forall>w \<in> set vs. v_name w \<in> set d \<longleftrightarrow> map_of failed' (v_name w) = None"
      "\<forall>w \<in> set vs. v_name w \<notin> set d \<longrightarrow> map_of failed' (v_name w) = Some w"
      "\<forall>q. q \<notin> v_name ` set vs \<longrightarrow> map_of failed' q = map_of (gm_put (v_name v) v failed) q" "set d \<subseteq> v_name ` set vs"
      by (auto simp: Let_def gm_wf_put)
    moreover have "map_of failed' (v_name v) = Some v" using d(6) new by (simp add: gomap_simps)
    moreover have "v_name v \<notin> set d" using d(7) new by blast
    ultimately show ?thesis by (intro conjI exI [of _ d]) (auto simp: gomap_simps)
  next
    case None
    from "2.IH"(1) [OF refl refl refl g p [symmetric] None] "2.prems" g p None
    obtain d where d: "gm_wf failed'" "rl_staging r' = rl_staging r" "rs_removed res' = (rs_removed res @ [v_name v]) @ d"
      "\<forall>w \<in> set vs. v_name w \<in> set d \<longleftrightarrow> map_of failed' (v_name w) = None"
      "\<forall>w \<in> set vs. v_name w \<notin> set d \<longrightarrow> map_of failed' (v_name w) = Some w"
      "\<forall>q. q \<notin> v_name ` set vs \<longrightarrow> map_of failed' q = map_of failed q" "set d \<subseteq> v_name ` set vs"
      by (auto simp: Let_def)
    moreover have "map_of failed' (v_name v) = None" using d(6) new "2.prems"(4) by simp
    ultimately show ?thesis using new by (intro conjI exI [of _ "v_name v # d"]) auto
  qed
qed (auto intro: exI [of _ "[]"])

lemma apply_removed_fresh:
  assumes "apply_removed P vs [] r res = Ret (failed, r', res')" and "distinct (map v_name vs)" and "rs_removed res = []"
  shows "gm_wf failed" and "rl_staging r' = rl_staging r"
    and "v \<in> set vs \<Longrightarrow> v_name v \<notin> set (rs_removed res') \<Longrightarrow> map_of failed (v_name v) = Some v"
    and "q \<notin> v_name ` set vs \<Longrightarrow> map_of failed q = None"
    and "v \<in> set vs \<Longrightarrow> v_name v \<in> set (rs_removed res') \<Longrightarrow> map_of failed (v_name v) = None"
proof -
  have "\<forall>v \<in> set vs. map_of [] (v_name v) = None" by simp
  note s = apply_removed_split [OF assms(1,2) gm_wf_Nil this, unfolded assms(3) append_Nil map_of.simps(1)]
  show "gm_wf failed" "rl_staging r' = rl_staging r" using s by auto
  from s obtain d where d: "rs_removed res' = d" "\<forall>v \<in> set vs. v_name v \<in> set d \<longleftrightarrow> map_of failed (v_name v) = None"
      "\<forall>v \<in> set vs. v_name v \<notin> set d \<longrightarrow> map_of failed (v_name v) = Some v"
      "\<forall>q. q \<notin> v_name ` set vs \<longrightarrow> map_of failed q = None"
    by (elim conjE exE) (rule that)
  then show "v \<in> set vs \<Longrightarrow> v_name v \<notin> set (rs_removed res') \<Longrightarrow> map_of failed (v_name v) = Some v"
    "q \<notin> v_name ` set vs \<Longrightarrow> map_of failed q = None"
    "v \<in> set vs \<Longrightarrow> v_name v \<in> set (rs_removed res') \<Longrightarrow> map_of failed (v_name v) = None" by simp_all
qed

lemma keep_failed_step:
  assumes "distinct (map v_name vs)" and "v_name old = n"
  defines "vs' \<equiv> (case index_func (\<lambda>v. v_name v = n) vs of Some i \<Rightarrow> vs[i := old] | None \<Rightarrow> vs @ [old])"
  shows "distinct (map v_name vs')" and "set vs' = insert old {v \<in> set vs. v_name v \<noteq> n}"
proof -
  have "distinct (map v_name vs') \<and> set vs' = insert old {v \<in> set vs. v_name v \<noteq> n}"
  proof (cases "index_func (\<lambda>v. v_name v = n) vs")
    case None
    then have "\<forall>v \<in> set vs. v_name v \<noteq> n" by (simp add: index_func_None)
    then show ?thesis using assms(1,2) None by (auto simp: vs'_def)
  next
    case (Some i)
    then have i: "i < length vs" "v_name (vs ! i) = n" by (simp_all add: index_func_Some)
    have "map v_name (vs[i := old]) = map v_name vs" using i assms(2) by (simp add: map_update list_update_same_conv)
    moreover have "{v \<in> set vs. v_name v \<noteq> n} = set vs - {vs ! i}"
      using i same_name_eq [OF assms(1), of _ "vs ! i"] by auto
    moreover have "distinct vs" using assms(1) by (simp add: distinct_map)
    ultimately show ?thesis using Some i assms(1) by (simp add: vs'_def set_update_distinct)
  qed
  then show "distinct (map v_name vs')" "set vs' = insert old {v \<in> set vs. v_name v \<noteq> n}" by auto
qed

lemma keep_failed_set:
  assumes "distinct (map v_name vs)" and "gm_wf failed" and "\<forall>(n, old) \<in> set failed. v_name old = n"
  shows "distinct (map v_name (keep_failed failed vs)) \<and>
    set (keep_failed failed vs) = snd ` set failed \<union> {v \<in> set vs. v_name v \<notin> fst ` set failed}"
  using assms
proof (induction failed arbitrary: vs)
  case (Cons p failed)
  obtain n old where p: "p = (n, old)" by force
  define vs' where "vs' = (case index_func (\<lambda>v. v_name v = n) vs of Some i \<Rightarrow> vs[i := old] | None \<Rightarrow> vs @ [old])"
  have n: "v_name old = n" using Cons.prems(3) p by simp
  note st = keep_failed_step [OF Cons.prems(1) n, folded vs'_def]
  have "keep_failed (p # failed) vs = keep_failed failed vs'" by (simp add: keep_failed_def p vs'_def)
  moreover have "n \<notin> fst ` set failed" using Cons.prems(2) p by (simp add: gm_wf_def)
  ultimately show ?case
    using Cons.IH [of vs'] Cons.prems st n by (auto simp: p gm_wf_def)
qed (simp add: keep_failed_def)

text \<open>The VIPs staged by a reload are the changed ones, under their names.\<close>

lemma build_staged_entries:
  assumes "build_staged newChecker now chs staged h = (err, staged', h')" and "map_of staged' n = Some st"
  shows "map_of staged n = Some st \<or> (\<exists>ch \<in> set chs. v_name (ch_new ch) = n \<and> sg_old st = ch_old ch \<and> sg_cfg st = ch_new ch)"
  using assms
proof (induction newChecker now chs staged h rule: build_staged.induct)
  case (2 newChecker now ch chs staged h)
  obtain res h1 where n: "NewSchedulers newChecker (ch_new ch) (ch_checks_changed ch) h = (res, h1)" by force
  show ?case
  proof (cases "ch_checks_changed ch = []")
    case False
    show ?thesis
    proof (cases res)
      case (Inr scheds)
      then have "map_of (gm_put (v_name (ch_new ch)) (stage_vip now ch scheds h1) staged) n = Some st \<or>
          (\<exists>ch \<in> set chs. v_name (ch_new ch) = n \<and> sg_old st = ch_old ch \<and> sg_cfg st = ch_new ch)"
        using "2.IH"(2) [OF False n [symmetric] Inr] "2.prems" n Inr False by simp
      then show ?thesis by (auto simp: gomap_simps stage_vip_def split: if_splits)
    qed (use "2.prems" n False in auto)
  qed (use 2 in auto)
qed simp

lemma staging_ops [frame_simps]:
  "rl_staging (dropStagingLocked r) = []"
  "rl_staging (add_scheduler s r) = rl_staging r"
  "rl_staging (drop_check v c r) = rl_staging r"
  "rl_staging (start_shadow s r) = rl_staging r"
  "rl_staging (fst (apply_log_level env cfg r res)) = rl_staging r"
  by (simp_all add: dropStagingLocked_def add_scheduler_def drop_check_def stop_and_close_def start_shadow_def
      watchShadow_def apply_log_level_def Let_def split: option.split)

lemma staging_added: "rl_staging (fst (apply_added P added failed vs r res)) = rl_staging r"
  by (induction P added failed vs r res rule: apply_added.induct)
    (simp_all add: Let_def frame_simps fold_frame [of _ rl_staging])

lemma staging_changed:
  "map_of (rl_staging (fst (apply_changed P staged chs r res))) n = Some st \<Longrightarrow>
     map_of (rl_staging r) n = Some st \<or> map_of staged n = Some st \<and> n \<in> v_name ` ch_new ` set chs"
proof (induction chs arbitrary: r res)
  case (Cons ch chs)
  let ?n = "v_name (ch_new ch)"
  show ?case
  proof (cases "map_of staged ?n")
    case None
    define r1 where "r1 = fold (\<lambda>c r. drop_check ?n (check_EffectiveName c) r) (ch_checks_removed ch) r"
    have "rl_staging r1 = rl_staging r" unfolding r1_def by (rule fold_frame) (simp add: frame_simps)
    moreover obtain err pol' where "pi_CommitVIP P (ch_new ch) [] (rl_pol r1) = (err, pol')" by force
    ultimately show ?thesis
      using Cons.IH Cons.prems None by (fastforce simp: Let_def r1_def)
  next
    case (Some st')
    have "rl_staging (fold start_shadow ss r) = rl_staging r" for ss and r :: "'a reloader"
      by (rule fold_frame) (simp add: frame_simps)
    then show ?thesis
      using Cons.IH Cons.prems Some by (fastforce simp: Let_def gomap_simps split: if_splits)
  qed
qed simp

lemma rs_added_failed:
  "map_of failed n \<noteq> None \<Longrightarrow> n \<notin> set (rs_added res) \<Longrightarrow> n \<notin> set (rs_added (snd (apply_added P added failed vs r res)))"
proof (induction vs arbitrary: r res)
  case (Cons v vs)
  then show ?case by (cases "v_name v = n") (auto simp: Let_def intro!: Cons.IH)
qed simp

text \<open>The later phases keep what the earlier ones reported.\<close>

lemma apply_added_removed: "rs_removed (snd (apply_added P added failed vs r res)) = rs_removed res"
  by (induction P added failed vs r res rule: apply_added.induct) (simp_all add: Let_def)

lemma apply_changed_kept:
  "rs_removed (snd (apply_changed P staged chs r res)) = rs_removed res \<and>
   rs_added (snd (apply_changed P staged chs r res)) = rs_added res"
proof (induction chs arbitrary: r res)
  case (Cons ch chs)
  show ?case
    by (cases "map_of staged (v_name (ch_new ch))")
      (simp_all add: Let_def Cons.IH split: prod.split option.split)
qed simp

lemma apply_log_level_kept:
  "rs_removed (snd (apply_log_level env cfg r res)) = rs_removed res \<and> rs_added (snd (apply_log_level env cfg r res)) = rs_added res"
  by (simp add: apply_log_level_def split: option.split)

lemma apply_removed_added:
  "apply_removed P vs failed r res = Ret (failed', r', res') \<Longrightarrow> rs_added res' = rs_added res"
proof (induction P vs failed r res rule: apply_removed.induct)
  case (2 P v vs failed r res)
  obtain reg' where g: "reg_RemoveVIP (hp_obj (rl_heap r)) (v_name v) (rl_reg r) = Ret reg'"
    using "2.prems" by (auto simp: Let_def split: outcome.splits)
  obtain err pol' where p: "pi_RemoveVIP P (v_name v) (rl_pol r) = (err, pol')" by force
  show ?case
    using "2.IH"(1) [OF refl refl refl g p [symmetric]] "2.IH"(2) [OF refl refl refl g p [symmetric]] "2.prems" g p
    by (cases err) (simp_all add: Let_def)
qed simp

text \<open>The VIPs that govern the routes after a reload: staged ones by their old definition, of the same name.\<close>

lemma effective_names:
  assumes "\<And>n st. map_of (rl_staging r) n = Some st \<Longrightarrow> v_name (sg_old st) = n"
  shows "map v_name (effectiveVIPsLocked r) = map v_name (c_vips (rl_cur r))"
  using assms by (simp add: effectiveVIPsLocked_def split: option.split)

lemma effective_mem:
  "v \<in> set (c_vips (rl_cur r)) \<Longrightarrow> map_of (rl_staging r) (v_name v) = None \<Longrightarrow> v \<in> set (effectiveVIPsLocked r)"
  by (force simp: effectiveVIPsLocked_def)

lemma changed_same_vip:
  assumes "distinct (map v_name running)" and "ch \<in> set (df_changed (DiffVIPs running candidate))"
  shows "ch_old ch \<in> set running" and "ch_new ch \<in> set candidate" and "same_vip (ch_old ch) (ch_new ch)"
  using assms(2) unfolding df_changed_set [OF assms(1)] by auto

lemma removed_failed_name:
  assumes "apply_removed P vs [] r res = Ret (fl, r', res')" and "distinct (map v_name vs)" and "rs_removed res = []"
    and w: "map_of fl n = Some w"
  shows "w \<in> set vs \<and> v_name w = n"
proof -
  note fresh = apply_removed_fresh [OF assms(1-3)]
  have "n \<in> v_name ` set vs" using w fresh(4) [of n] by fastforce
  then obtain v where v: "v \<in> set vs" "v_name v = n" by blast
  then show ?thesis using w fresh(3,5) [OF v(1)] by auto
qed

text \<open>A VIP that is removed does not change.\<close>

lemma removed_not_changed:
  assumes "distinct (map v_name running)" and "distinct (map v_name candidate)"
    and v: "v \<in> set (df_removed (DiffVIPs running candidate))" and c: "c \<in> set (df_changed (DiffVIPs running candidate))"
  shows "v_name (ch_new c) \<noteq> v_name v"
proof
  note removed = df_removed_set [OF assms(1,2)]
  assume "v_name (ch_new c) = v_name v"
  then have "ch_old c = v"
    using changed_same_vip [OF assms(1) c] v removed same_name_eq [OF assms(1)] by (auto simp: same_vip_def)
  then show False using changed_same_vip(2,3) [OF assms(1) c] v removed by blast
qed

text \<open>The phases of a reload that was applied, and what is left of them.\<close>

lemma Reload_applied:
  assumes "Reload env P r = Ret (r1, res1)" and "rs_outcome res1 = ReloadApplied \<or> rs_outcome res1 = ReloadFailed"
    and "re_LoadRaw env (rl_path r) = Inr (cfg, raw)"
  defines "diff \<equiv> DiffVIPs (effectiveVIPsLocked r) (c_vips cfg)"
  obtains added h1 staged h2 fl ra resa rb resb rc resc where
    "build_staged (re_newChecker env) (re_now env) (df_changed diff) [] h1 = (None, staged, h2)"
    "apply_removed P (df_removed diff) [] (dropStagingLocked (r\<lparr>rl_heap := h2\<rparr>)) (empty_status (re_now env)) = Ret (fl, ra, resa)"
    "apply_added P added fl (df_added diff) ra resa = (rb, resb)"
    "apply_changed P staged (df_changed diff) rb resb = (rc, resc)"
    "rl_staging r1 = rl_staging rc" "c_vips (rl_cur r1) = keep_failed fl (c_vips cfg)"
    "rl_cur_hash r1 = (if fl \<noteq> [] then zero_hash else re_sha256 env raw)" "rl_file_changed r1 = (fl \<noteq> [])"
    "rs_outcome res1 = ReloadApplied \<longrightarrow> fl = []" "rs_removed res1 = rs_removed resa" "rs_added res1 = rs_added resb"
proof -
  obtain r0 where l: "reloadLocked env P r = Ret (r0, res1)"
    and r1: "r1 = (recordLocked res1 r0)\<lparr>rl_on_change := rl_on_change r0 + 1\<rparr>"
    using assms(1) by (auto simp: Reload_def Let_def recordLocked_def split: outcome.splits)
  from l obtain added h1 staged h2 where
    b: "build_staged (re_newChecker env) (re_now env) (df_changed diff) [] h1 = (None, staged, h2)" and
    a: "apply_diff env P cfg (re_sha256 env raw) diff added staged (r\<lparr>rl_heap := h2\<rparr>) (empty_status (re_now env)) = Ret (r0, res1)"
    by (cases rule: reloadLocked_cases) (use assms(2,3) in \<open>auto simp: diff_def\<close>)
  from a obtain fl ra resa rb resb rc resc rd resd where
    rm: "apply_removed P (df_removed diff) [] (dropStagingLocked (r\<lparr>rl_heap := h2\<rparr>)) (empty_status (re_now env)) = Ret (fl, ra, resa)"
    and ad: "apply_added P added fl (df_added diff) ra resa = (rb, resb)"
    and ch: "apply_changed P staged (df_changed diff) rb resb = (rc, resc)"
    and lv: "apply_log_level env cfg rc resc = (rd, resd)"
    and fin: "(r0, res1) = finish_reload cfg (re_sha256 env raw) fl rd resd"
    and outc: "rs_outcome res1 = ReloadApplied \<longrightarrow> fl = []"
    by (rule apply_diff_end) (simp add: empty_status_def)
  have "rs_removed res1 = rs_removed resa" "rs_added res1 = rs_added resb"
    using ad ch lv fin apply_added_removed [of P added fl "df_added diff" ra resa]
      apply_changed_kept [of P staged "df_changed diff" rb resb] apply_log_level_kept [of env cfg rc resc]
    by (simp_all add: finish_reload_def)
  moreover have "rl_staging r1 = rl_staging rc"
    using r1 fin lv staging_ops(5) [of env cfg rc resc] by (simp add: recordLocked_def finish_reload_def)
  ultimately show ?thesis
    using that [OF b rm ad ch] outc r1 fin by (simp add: recordLocked_def finish_reload_def)
qed

text \<open>C22: A removal that failed is not forgotten. When a reload drops a VIP (or changes its prefix) and the
  route could not be withdrawn, the reload is reported as failed, the old definition stays in the running
  config, the new one is not added, the file counts as changed and its hash is forgotten; and a reload of
  the very same file will list the VIP as removed again.\<close>

theorem failed_removal_is_retried:
  assumes "Reload env P r = Ret (r1, res1)" and "rs_outcome res1 = ReloadApplied \<or> rs_outcome res1 = ReloadFailed"
    and "re_LoadRaw env (rl_path r) = Inr (cfg, raw)"
    and "distinct (map v_name (effectiveVIPsLocked r))" and "distinct (map v_name (c_vips cfg))"
    and "v \<in> set (df_removed (DiffVIPs (effectiveVIPsLocked r) (c_vips cfg)))" and "v_name v \<notin> set (rs_removed res1)"
  shows "rs_outcome res1 = ReloadFailed \<and> v \<in> set (c_vips (rl_cur r1)) \<and> v_name v \<notin> set (rs_added res1) \<and>
    rl_cur_hash r1 = zero_hash \<and> rl_file_changed r1 \<and>
    v \<in> set (df_removed (DiffVIPs (effectiveVIPsLocked r1) (c_vips cfg)))"
proof -
  let ?vips = "c_vips cfg"
  let ?diff = "DiffVIPs (effectiveVIPsLocked r) ?vips"
  obtain added h1 staged h2 fl ra resa rb resb rc resc where
    b: "build_staged (re_newChecker env) (re_now env) (df_changed ?diff) [] h1 = (None, staged, h2)"
    and rm: "apply_removed P (df_removed ?diff) [] (dropStagingLocked (r\<lparr>rl_heap := h2\<rparr>)) (empty_status (re_now env)) = Ret (fl, ra, resa)"
    and ad: "apply_added P added fl (df_added ?diff) ra resa = (rb, resb)"
    and ch: "apply_changed P staged (df_changed ?diff) rb resb = (rc, resc)"
    and left: "rl_staging r1 = rl_staging rc" "c_vips (rl_cur r1) = keep_failed fl ?vips"
      "rl_cur_hash r1 = (if fl \<noteq> [] then zero_hash else re_sha256 env raw)" "rl_file_changed r1 = (fl \<noteq> [])"
      "rs_outcome res1 = ReloadApplied \<longrightarrow> fl = []" "rs_removed res1 = rs_removed resa" "rs_added res1 = rs_added resb"
    by (rule Reload_applied [OF assms(1-3)])
  have dist: "distinct (map v_name (df_removed ?diff))" by (rule df_removed_distinct [OF assms(4,5)])
  have e: "rs_removed (empty_status (re_now env)) = []" "rs_added (empty_status (re_now env)) = []" by (simp_all add: empty_status_def)
  note fresh = apply_removed_fresh [OF rm dist e(1)]
  have fv: "map_of fl (v_name v) = Some v" using fresh(3) [OF assms(6)] assms(7) left(6) by simp
  have "\<forall>(n, old) \<in> set fl. v_name old = n"
    using removed_failed_name [OF rm dist e(1)] map_of_mem_iff [OF fresh(1)] by blast
  note kept = keep_failed_set [OF assms(5) fresh(1) this]
  have vin: "v \<in> set (c_vips (rl_cur r1))"
    unfolding left(2) using kept map_of_SomeD [OF fv] by (auto intro: image_eqI [of _ snd "(v_name v, v)"])
  have staged: "\<exists>c \<in> set (df_changed ?diff). v_name (ch_new c) = n \<and> sg_old st = ch_old c"
    if "map_of (rl_staging r1) n = Some st" for n st
    using that left(1) staging_changed [of P staged "df_changed ?diff" rb resb n st] ch ad fresh(2)
      staging_added [of P added fl "df_added ?diff" ra resa] build_staged_entries [OF b, of n st] by (auto simp: staging_ops(1))
  have "v_name (sg_old st) = n" if "map_of (rl_staging r1) n = Some st" for n st
    using staged [OF that] changed_same_vip(3) [OF assms(4)] by (auto simp: same_vip_def)
  then have "distinct (map v_name (effectiveVIPsLocked r1))" using effective_names [of r1] kept left(2) by simp
  note again = df_removed_set [OF this assms(5)]
  have "map_of (rl_staging r1) (v_name v) = None"
    using staged [of "v_name v"] removed_not_changed [OF assms(4-6)] by (cases "map_of (rl_staging r1) (v_name v)") auto
  then have "v \<in> set (effectiveVIPsLocked r1)" by (rule effective_mem [OF vin])
  then have "v \<in> set (df_removed (DiffVIPs (effectiveVIPsLocked r1) ?vips))"
    using assms(6) unfolding df_removed_set [OF assms(4,5)] again by blast
  moreover have "v_name v \<notin> set (rs_added res1)"
    using rs_added_failed [of fl "v_name v" resa P added "df_added ?diff" ra] fv apply_removed_added [OF rm] ad left(7) e(2) by simp
  ultimately show ?thesis using vin left(3-5) fv assms(2) by auto
qed

theorem failed_removal_is_retried_witness:
  "\<exists>r1 res1. Reload (ex_renv (Inr (ex_config, ''v2'')))
       (manager_iface\<lparr>pi_RemoveVIP := (\<lambda>name p. (Some (Errorf ''peer down'' [] None), p))\<rparr>)
       (ex_reloader\<lparr>rl_cur := ex_config_with [ex_vip ''web'' ''192.0.2.1/32'' [''a'']]\<rparr>) = Ret (r1, res1) \<and>
     rs_outcome res1 = ReloadFailed \<and> rl_cur_hash r1 = zero_hash \<and>
     ex_vip ''web'' ''192.0.2.1/32'' [''a''] \<in> set (c_vips (rl_cur r1))"
proof -
  let ?env = "ex_renv (Inr (ex_config, ''v2''))" and ?v = "ex_vip ''web'' ''192.0.2.1/32'' [''a'']"
    and ?P = "manager_iface\<lparr>pi_RemoveVIP := (\<lambda>name p. (Some (Errorf ''peer down'' [] None), p))\<rparr>"
  let ?r = "ex_reloader\<lparr>rl_cur := ex_config_with [?v]\<rparr>"
  obtain r1 res1 where r: "Reload ?env ?P ?r = Ret (r1, res1)" "rs_outcome res1 = ReloadFailed" "rs_removed res1 = []"
    by (simp add: reload_eval)
  have e: "effectiveVIPsLocked ?r = [?v]" by (simp add: effectiveVIPsLocked_def ex_reloader_def reload_New_def ex_config_with_def)
  have l: "re_LoadRaw ?env (rl_path ?r) = Inr (ex_config, ''v2'')" by (simp add: ex_renv_def)
  have c: "c_vips ex_config = []" by (simp add: ex_config_def)
  have "?v \<in> set (df_removed (DiffVIPs (effectiveVIPsLocked ?r) (c_vips ex_config)))"
    unfolding e c by (simp add: DiffVIPs_def Let_def)
  from failed_removal_is_retried [OF r(1) disjI2 [OF r(2)] l _ _ this] r show ?thesis by (auto simp: e c)
qed

section \<open>Staged VIPs\<close>

lemma wrap64_small: "- (2 ^ 63) \<le> x \<Longrightarrow> x < 2 ^ 63 \<Longrightarrow> wrap64 x = x"
  by (simp add: wrap64_def)

lemma window_fold:
  assumes "\<forall>s \<in> set ss. wrap64 (f s) = f s"
  shows "fold (\<lambda>s w. max w (wrap64 (f s))) ss (w :: int) = Max (insert w (f ` set ss))"
  using assms
proof (induction ss arbitrary: w)
  case (Cons s ss)
  have "fold (\<lambda>s w. max w (wrap64 (f s))) (s # ss) w = Max (insert (max w (f s)) (f ` set ss))"
    using Cons by simp
  also have "\<dots> = Max (insert w (insert (f s) (f ` set ss)))"
    by (cases "f ` set ss = {}") (simp_all add: max.assoc)
  finally show ?case by simp
qed simp

text \<open>C23: A staged VIP waits at least four times as long as any of its new checks needs for a verdict, and no
  longer than four times the slowest one's window. It holds while the windows fit: \<open>max (rise, fall)\<close>
  times the interval is not negative and below a quarter of the range of \<open>time.Duration\<close>.\<close>

theorem stagingDeadline_bounds:
  assumes "\<forall>s \<in> set scheds. 0 \<le> max (s_rise s) (s_fall s) * s_interval s \<and> max (s_rise s) (s_fall s) * s_interval s < 2 ^ 61"
  shows "(\<forall>s \<in> set scheds. now + 4 * (max (s_rise s) (s_fall s) * s_interval s) \<le> stagingDeadline now scheds) \<and>
    (scheds = [] \<or> (\<exists>s \<in> set scheds. stagingDeadline now scheds = now + 4 * (max (s_rise s) (s_fall s) * s_interval s)))"
proof -
  let ?w = "\<lambda>s. max (s_rise s) (s_fall s) * s_interval s"
  let ?M = "Max (insert 0 (?w ` set scheds))"
  have small: "\<forall>s \<in> set scheds. wrap64 (?w s) = ?w s"
    using assms by (intro ballI wrap64_small) (force intro: order_trans [of _ 0])+
  have "?M \<in> insert 0 (?w ` set scheds)" by (rule Max_in) simp_all
  then have "0 \<le> ?M \<and> ?M < 2 ^ 61" using assms by auto
  moreover have "wrap64 (4 * M) = 4 * M" if "0 \<le> M \<and> M < 2 ^ 61" for M :: int
    using that by (intro wrap64_small) auto
  ultimately have d: "stagingDeadline now scheds = now + 4 * ?M"
    unfolding stagingDeadline_def Let_def window_fold [OF small] stagingGraceFactor_def by simp
  have up: "?w s \<le> ?M" if "s \<in> set scheds" for s using that by (intro Max_ge) auto
  have "scheds = [] \<or> (\<exists>s \<in> set scheds. ?M = ?w s)"
  proof (cases "?M \<in> ?w ` set scheds")
    case False
    then have zero: "?M = 0" using \<open>?M \<in> insert 0 (?w ` set scheds)\<close> by blast
    show ?thesis
    proof (cases scheds)
      case (Cons s ss)
      then have "?w s = 0" using up [of s] zero assms by force
      then show ?thesis using Cons zero by (metis list.set_intros(1))
    qed simp
  qed blast
  then show ?thesis using d up by auto
qed

theorem stagingDeadline_bounds_witness:
  "stagingDeadline 100 [(ex_obj 0)\<lparr>s_rise := 3, s_fall := 2, s_interval := 1000\<rparr>] = 12100"
  using stagingDeadline_bounds [of "[(ex_obj 0)\<lparr>s_rise := 3, s_fall := 2, s_interval := 1000\<rparr>]" 100]
  by (simp add: ex_obj_def)

text \<open>Beyond that range the product wraps around: the VIP is then committed at once.\<close>

lemma stagingDeadline_overflow:
  "stagingDeadline now [(ex_obj 0)\<lparr>s_rise := 10 ^ 10, s_fall := 3, s_interval := 1000000000\<rparr>] = now"
  by (simp add: stagingDeadline_def Let_def wrap64_def stagingGraceFactor_def)

lemma staging_run [frame_simps]:
  "rl_staging (shadow_result s r) = rl_staging r"
  "rl_staging (deliver P s ev r) = rl_staging r"
  "rl_staging (run_scheduler P s res r) = rl_staging r"
  "rl_staging (promote_shadow s r) = rl_staging r"
  "rl_staging (attach_shadow P vip ok seeds p r) = rl_staging r"
  "rl_staging (commit_outcome vip err r) = rl_staging r"
proof -
  show a: "rl_staging (shadow_result s r) = rl_staging r" for s and r :: "'p reloader"
    by (simp add: shadow_result_def Let_def split: prod.split)
  show b: "rl_staging (deliver P s ev r) = rl_staging r" for P s ev and r :: "'p reloader"
    by (simp add: deliver_def a split: sched_event.split callback.split)
  show "rl_staging (run_scheduler P s res r) = rl_staging r"
    by (auto simp: run_scheduler_def b split: prod.split intro!: fold_frame [of _ rl_staging, THEN trans])
qed (simp_all add: promote_shadow_def attach_shadow_def commit_outcome_def Let_def split: prod.split option.split)

lemma staging_folds [frame_simps]:
  "rl_staging (fold (drop_check v) cs r) = rl_staging r"
  "rl_staging (fold promote_shadow ss r) = rl_staging r"
  "rl_staging (fold (run_scheduler P s) rs r) = rl_staging r"
  "rl_staging (fold (\<lambda>s. fold (run_scheduler P s) (during s)) ss r) = rl_staging r"
  "rl_staging (fold (attach_shadow P vip ok seeds) ps r) = rl_staging r"
proof -
  show *: "rl_staging (fold (run_scheduler P s) rs r) = rl_staging r" for P s rs and r :: "'p reloader"
    by (rule fold_frame) (simp add: frame_simps)
  show "rl_staging (fold (\<lambda>s. fold (run_scheduler P s) (during s)) ss r) = rl_staging r" by (rule fold_frame) (rule *)
qed (rule fold_frame, simp add: frame_simps)+

lemma staging_commit: "rl_staging (commitLocked now during P st r) = gm_del (v_name (sg_cfg st)) (rl_staging r)"
  by (simp add: commitLocked_def Let_def case_prod_beta frame_simps)

lemma staging_expire:
  assumes "\<And>n st. map_of (rl_staging r) n = Some st \<Longrightarrow> v_name (sg_cfg st) = n" and "gm_wf (rl_staging r)"
  shows "map_of (rl_staging (expireStaged now during P r)) n =
    (case map_of (rl_staging r) n of None \<Rightarrow> None | Some st \<Rightarrow> if sg_deadline st \<le> now then None else Some st)"
proof -
  define ex where "ex = filter (\<lambda>(name, st). sg_deadline st \<le> now) (rl_staging r)"
  have del: "map_of (rl_staging (fold (\<lambda>(name, st). commitLocked now during P st) xs r)) n =
      (if n \<in> (v_name \<circ> sg_cfg \<circ> snd) ` set xs then None else map_of (rl_staging r) n)" for xs and r :: "'a reloader"
    by (induction xs arbitrary: r) (auto simp: staging_commit gomap_simps)
  have "rl_staging (expireStaged now during P r) = rl_staging (fold (\<lambda>(name, st). commitLocked now during P st) ex r)"
    by (simp add: expireStaged_def notify_if_def pending_gauge_def ex_def Let_def)
  moreover have "n \<in> (v_name \<circ> sg_cfg \<circ> snd) ` set ex \<longleftrightarrow> (\<exists>st. map_of (rl_staging r) n = Some st \<and> sg_deadline st \<le> now)"
    using assms(1) by (force simp: ex_def map_of_mem_iff [OF assms(2), symmetric] image_iff)
  ultimately show ?thesis by (auto simp: del split: option.split)
qed


definition ex_staged :: "go_time \<Rightarrow> staged_vip" where
  "ex_staged deadline =
     \<lparr>sg_cfg = ex_vip ''web'' ''192.0.2.1/32'' [''a''], sg_old = ex_vip ''web'' ''192.0.2.1/32'' [''a''],
      sg_shadows = [], sg_verdicts = [], sg_removed = [], sg_deadline = deadline\<rparr>"


end
