(* ===== verification/Policy_Health.thy ===== *)
theory Policy_Health
  imports Policy_Wf
begin

text \<open>
  What the policy manager knows about every check: the health it has recorded, as a function of VIP and
  check name, and how each operation changes it. This is the view a reload and the schedulers rely on.
\<close>

definition check_health :: "'b manager \<Rightarrow> string \<Rightarrow> string \<Rightarrow> HealthStatus option" where
  "check_health m v c =
     (case map_of (m_vips m) v of
        None \<Rightarrow> None
      | Some e \<Rightarrow> map_option cks_health (map_of (vs_checks (ve_state e)) c))"

definition vip_prefix :: "'b manager \<Rightarrow> string \<Rightarrow> string option" where
  "vip_prefix m v = map_option (\<lambda>e. v_prefix (ve_cfg e)) (map_of (m_vips m) v)"

lemma check_health_replace:
  assumes "m_vips m' = gm_put n e' (m_vips m)" and "map_of (m_vips m) n = Some e"
  shows "check_health m' v c =
    (if v = n then map_option cks_health (map_of (vs_checks (ve_state e')) c) else check_health m v c)"
  using assms by (simp add: check_health_def gomap_simps)

lemma vip_prefix_replace:
  assumes "m_vips m' = gm_put n e' (m_vips m)" and "map_of (m_vips m) n = Some e"
    and "v_prefix (ve_cfg e') = v_prefix (ve_cfg e)"
  shows "vip_prefix m' = vip_prefix m"
  using assms by (auto simp: vip_prefix_def gomap_simps fun_eq_iff)

text \<open>A transition of a known check records its health and nothing else.\<close>

lemma check_health_transition:
  assumes "check_health m (ht_vip_name t) (ht_check_name t) \<noteq> None"
  shows "check_health (OnHealthTransition env t m) v c =
    (if v = ht_vip_name t \<and> c = ht_check_name t
     then Some (if ht_healthy t then HealthHealthy else HealthUnhealthy) else check_health m v c)"
    and "vip_prefix (OnHealthTransition env t m) = vip_prefix m"
proof -
  obtain e cs where e: "map_of (m_vips m) (ht_vip_name t) = Some e"
    and cs: "map_of (vs_checks (ve_state e)) (ht_check_name t) = Some cs"
    using assms by (auto simp: check_health_def split: option.splits)
  have r: "resolve_check (vs_checks (ve_state e)) (ht_check_name t) = Some (ht_check_name t, cs)"
    using cs by (simp add: resolve_check_def)
  obtain e' where e': "m_vips (OnHealthTransition env t m) = gm_put (ht_vip_name t) e' (m_vips m)" "ve_cfg e' = ve_cfg e"
    "vs_checks (ve_state e') = gm_put (ht_check_name t)
       (cs\<lparr>cks_health := (if ht_healthy t then HealthHealthy else HealthUnhealthy)\<rparr>) (vs_checks (ve_state e))"
  proof (cases rule: OnHealthTransition_cases [of env t m])
    case same
    then show ?thesis using e r by auto
  next
    case (recorded e0 key cs0 vs1)
    then show ?thesis using e r that [of "e\<lparr>ve_state := vs1\<rparr>"] by simp
  next
    case (evaluated e0 key cs0 vs1 vs2 drain reason m1 vs3)
    then show ?thesis
      using e r that [of "e\<lparr>ve_state := vs3\<rparr>"] transitionStateLocked_vs [OF evaluated(7)]
        transitionStateLocked_frame [OF evaluated(7)] by simp
  qed
  show "check_health (OnHealthTransition env t m) v c =
    (if v = ht_vip_name t \<and> c = ht_check_name t
     then Some (if ht_healthy t then HealthHealthy else HealthUnhealthy) else check_health m v c)"
    using check_health_replace [OF e'(1) e] e by (simp add: e'(3) gomap_simps check_health_def)
  show "vip_prefix (OnHealthTransition env t m) = vip_prefix m"
    by (rule vip_prefix_replace [OF e'(1) e]) (simp add: e'(2))
qed

text \<open>A check result changes no recorded health.\<close>

lemma check_health_result:
  assumes wf: "mgr_wf m"
  shows "check_health (OnCheckResult env v ck result m) = check_health m"
    and "vip_prefix (OnCheckResult env v ck result m) = vip_prefix m"
proof -
  have "check_health (OnCheckResult env v ck result m) = check_health m \<and>
      vip_prefix (OnCheckResult env v ck result m) = vip_prefix m"
  proof (cases rule: OnCheckResult_cases [of env v ck result m])
    case (recorded e key cs drain vs1 m1 vs2 m2 vs3)
    have "gm_wf (vs_checks (ve_state e))" using mgr_wfD(4) [OF wf recorded(1)] by (simp add: entry_wf_def)
    then have k: "map_of (vs_checks (ve_state e)) key = Some cs" by (rule resolve_check_Some [OF recorded(2)])
    have vs: "vs_checks vs3 = vs_checks vs1" "m_vips m2 = m_vips m"
      using reevaluate_policy_vs [OF recorded(5)] retry_pending_frame [OF recorded(6)] by auto
    then have m': "m_vips (OnCheckResult env v ck result m) = gm_put v (e\<lparr>ve_state := vs3\<rparr>) (m_vips m)"
      using recorded(7) by simp
    have "check_health (OnCheckResult env v ck result m) v' c = check_health m v' c" for v' c
      using check_health_replace [OF m' recorded(1)] recorded(1,4) k vs(1) by (simp add: check_health_def gomap_simps)
    moreover have "vip_prefix (OnCheckResult env v ck result m) = vip_prefix m"
      by (rule vip_prefix_replace [OF m' recorded(1)]) simp
    ultimately show ?thesis by (simp add: fun_eq_iff)
  qed simp
  then show "check_health (OnCheckResult env v ck result m) = check_health m"
    "vip_prefix (OnCheckResult env v ck result m) = vip_prefix m" by auto
qed

lemma check_health_add:
  assumes "vip_prefix m (v_name cfg) = None"
  shows "check_health (AddVIP env cfg m) v c =
    (if v = v_name cfg then (if c \<in> check_EffectiveName ` set (CheckList cfg) then Some HealthUnknown else None)
     else check_health m v c)"
    and "vip_prefix (AddVIP env cfg m) v = (if v = v_name cfg then Some (v_prefix cfg) else vip_prefix m v)"
proof -
  have new: "map_of (m_vips m) (v_name cfg) = None" using assms by (simp add: vip_prefix_def)
  let ?cs = "vs_checks (ve_state (newVIPEntry env cfg))"
  have keys: "map_of ?cs c = None \<longleftrightarrow> c \<notin> check_EffectiveName ` set (CheckList cfg)"
    using newVIPEntry_wf(1) [of cfg env] by (auto simp: entry_wf_def map_of_eq_None_iff newVIPEntry_fields)
  have unk: "map_of ?cs c = Some cs \<Longrightarrow> cks_health cs = HealthUnknown" for cs
    using newVIPEntry_checks [of c cs env cfg] by (auto dest: map_of_SomeD)
  show "check_health (AddVIP env cfg m) v c =
    (if v = v_name cfg then (if c \<in> check_EffectiveName ` set (CheckList cfg) then Some HealthUnknown else None)
     else check_health m v c)"
    using new keys unk by (cases "map_of ?cs c") (auto simp: check_health_def AddVIP_def gomap_simps)
  show "vip_prefix (AddVIP env cfg m) v = (if v = v_name cfg then Some (v_prefix cfg) else vip_prefix m v)"
    using new by (simp add: vip_prefix_def AddVIP_def gomap_simps newVIPEntry_fields)
qed

lemma check_health_remove:
  assumes "RemoveVIP name m = (err, m')"
  shows "check_health m' v c = (if err = None \<and> v = name then None else check_health m v c)"
    and "vip_prefix m' v = (if err = None \<and> v = name then None else vip_prefix m v)"
  using assms
  by (auto simp: RemoveVIP_def forget_vip_def check_health_def vip_prefix_def gomap_simps Let_def
      split: option.splits if_splits prod.splits)

lemma commit_checks_health:
  assumes "commit_checks seeds cs (running, nxt) = (miss, running', nxt')"
  shows "miss = None \<longleftrightarrow> (\<forall>c \<in> check_EffectiveName ` set cs. map_of seeds c \<noteq> None \<or> map_of running c \<noteq> None)"
    and "miss = None \<Longrightarrow> map_option cks_health (map_of nxt' c) =
      (if c \<in> check_EffectiveName ` set cs
       then (case map_of seeds c of Some s \<Rightarrow> Some (seed_health s) | None \<Rightarrow> map_option cks_health (map_of running c))
       else map_option cks_health (map_of nxt c))"
proof -
  have "(miss = None \<longleftrightarrow> (\<forall>c \<in> check_EffectiveName ` set cs. map_of seeds c \<noteq> None \<or> map_of running c \<noteq> None)) \<and>
    (miss = None \<longrightarrow> map_option cks_health (map_of nxt' c) =
      (if c \<in> check_EffectiveName ` set cs
       then (case map_of seeds c of Some s \<Rightarrow> Some (seed_health s) | None \<Rightarrow> map_option cks_health (map_of running c))
       else map_option cks_health (map_of nxt c)))"
    using assms
  proof (induction cs arbitrary: running nxt)
    case (Cons x cs)
    let ?n = "check_EffectiveName x"
    show ?case
    proof (cases "map_of seeds ?n")
      case (Some seed)
      let ?c = "\<lparr>cks_cfg = x, cks_health = seed_health seed, cks_last_result = seed_last_result seed,
        cks_last_time = seed_last_time seed\<rparr>"
      have "commit_checks seeds cs (running, gm_put ?n ?c nxt) = (miss, running', nxt')"
        using Cons.prems Some by (simp add: Let_def)
      from Cons.IH [OF this] show ?thesis using Some by (simp add: gomap_simps)
    next
      case None
      show ?thesis
      proof (cases "map_of running ?n")
        case none: None
        then show ?thesis using Cons.prems None by auto
      next
        case (Some old)
        let ?old = "old\<lparr>cks_cfg := x\<rparr>"
        have step: "commit_checks seeds cs (gm_put ?n ?old running, gm_put ?n ?old nxt) = (miss, running', nxt')"
          using Cons.prems None Some by (simp add: Let_def)
        have same: "map_option cks_health (map_of (gm_put ?n ?old running) q) = map_option cks_health (map_of running q)"
          "map_of (gm_put ?n ?old running) q \<noteq> None \<longleftrightarrow> map_of running q \<noteq> None" for q
          using Some by (auto simp: gomap_simps)
        from Cons.IH [OF step] show ?thesis
          unfolding same using None Some by (simp add: gomap_simps)
      qed
    qed
  qed simp
  then show "miss = None \<longleftrightarrow> (\<forall>c \<in> check_EffectiveName ` set cs. map_of seeds c \<noteq> None \<or> map_of running c \<noteq> None)"
    "miss = None \<Longrightarrow> map_option cks_health (map_of nxt' c) =
      (if c \<in> check_EffectiveName ` set cs
       then (case map_of seeds c of Some s \<Rightarrow> Some (seed_health s) | None \<Rightarrow> map_option cks_health (map_of running c))
       else map_option cks_health (map_of nxt c))" by blast+
qed

text \<open>
  A commit of a known VIP succeeds when every check has a seed or a running state and the policy compiles.
  Its checks are then those of the new definition, each with its seed's health or the one it had.
\<close>

lemma check_health_commit:
  assumes "vip_prefix m (v_name cfg) = Some (v_prefix cfg)"
    and "CompileChecksPolicy (pe_expr env) (EffectiveChecksPolicy cfg) (map check_EffectiveName (CheckList cfg)) = Inr ev"
    and "\<forall>c \<in> check_EffectiveName ` set (CheckList cfg). map_of seeds c \<noteq> None \<or> check_health m (v_name cfg) c \<noteq> None"
    and "CommitVIP env cfg seeds m = (err, m')"
  shows "err = None" and "vip_prefix m' = vip_prefix m"
    and "check_health m' v c =
      (if v \<noteq> v_name cfg then check_health m v c
       else if c \<in> check_EffectiveName ` set (CheckList cfg)
       then (case map_of seeds c of Some s \<Rightarrow> Some (seed_health s) | None \<Rightarrow> check_health m v c)
       else None)"
proof -
  obtain e where e: "map_of (m_vips m) (v_name cfg) = Some e" "v_prefix (ve_cfg e) = v_prefix cfg"
    using assms(1) by (auto simp: vip_prefix_def)
  have h: "check_health m (v_name cfg) c = map_option cks_health (map_of (vs_checks (ve_state e)) c)" for c
    using e(1) by (simp add: check_health_def)
  have "err = None \<and> vip_prefix m' = vip_prefix m \<and> check_health m' v c =
      (if v \<noteq> v_name cfg then check_health m v c
       else if c \<in> check_EffectiveName ` set (CheckList cfg)
       then (case map_of seeds c of Some s \<Rightarrow> Some (seed_health s) | None \<Rightarrow> check_health m v c)
       else None)"
  proof (cases rule: CommitVIP_cases [of env cfg seeds m])
    case (refused err)
    then show ?thesis using e by auto
  next
    case (failed e0 missing running nxt err0 ops)
    then show ?thesis using e assms(2,3) commit_checks_health(1) [OF failed(3)] by (auto simp: h)
  next
    case (switched e0 running nxt eval vs1 m2 m3 vs2)
    have e0: "e0 = e" using switched(1) e by simp
    define new where "new = \<lparr>ve_cfg = cfg, ve_eval = eval, ve_state = vs2\<rparr>"
    have out: "err = None" "m' = put_entry (v_name cfg) new m3" using switched(8) assms(4) by (simp_all add: new_def)
    have "m_vips m3 = m_vips m2" "vs_checks vs2 = nxt" using commit_switch_vs [OF switched(7)] by auto
    then have look: "map_of (m_vips m') n = (if n = v_name cfg then Some new else map_of (m_vips m) n)" for n
      using out(2) switched(6) by (simp add: gomap_simps)
    have "map_option cks_health (map_of nxt c) =
      (if c \<in> check_EffectiveName ` set (CheckList cfg)
       then (case map_of seeds c of Some s \<Rightarrow> Some (seed_health s) | None \<Rightarrow> check_health m (v_name cfg) c) else None)"
      using commit_checks_health(2) [OF switched(3) refl, of c] unfolding h e0 by simp
    then have "check_health m' v c =
      (if v \<noteq> v_name cfg then check_health m v c
       else if c \<in> check_EffectiveName ` set (CheckList cfg)
       then (case map_of seeds c of Some s \<Rightarrow> Some (seed_health s) | None \<Rightarrow> check_health m v c)
       else None)"
      using \<open>vs_checks vs2 = nxt\<close>
      by (cases "v = v_name cfg") (simp_all add: check_health_def [of m'] check_health_def [of m v] look new_def split: option.split)
    moreover have "vip_prefix m' = vip_prefix m"
      using e by (auto simp: vip_prefix_def look new_def fun_eq_iff)
    ultimately show ?thesis using out(1) by simp
  qed
  then show "err = None" "vip_prefix m' = vip_prefix m" "check_health m' v c =
      (if v \<noteq> v_name cfg then check_health m v c
       else if c \<in> check_EffectiveName ` set (CheckList cfg)
       then (case map_of seeds c of Some s \<Rightarrow> Some (seed_health s) | None \<Rightarrow> check_health m v c)
       else None)" by blast+
qed

end
