(* ===== verification/Checkers_Net.thy ===== *)
theory Checkers_Net
  imports Model Go_Net
begin

text \<open>
  The checkers that speak no application protocol: \<open>tcp.go\<close>, \<open>udp.go\<close>, \<open>dns.go\<close>, \<open>ping.go\<close> and \<open>listen.go\<close> of
  \<open>internal/checks\<close>, each as the function from what the network, the kernel and the clock answer to the
  \<open>Result\<close> of \<open>Check\<close>.

  The answers are arguments, taken in the order the code asks: an argument is only used when the code gets as
  far. \<open>elapsed\<close> is \<open>time.Since (start)\<close> where the result is built and \<open>ctx\<close> is \<open>ctx.Err ()\<close> at that time.
  The DNS, ICMP and procfs packages are third-party; what they return are arguments as well.
\<close>

section \<open>Shared parts\<close>

datatype ctx_err = CtxNone | CtxDeadlineExceeded | CtxCanceled

text \<open>The two shapes of \<open>Result\<close> literals: a failure and a success.\<close>

definition failed :: "go_duration \<Rightarrow> go_error option \<Rightarrow> string \<Rightarrow> check_result" where
  "failed dur err detail = zero_result\<lparr>res_duration := dur, res_err := err, res_detail := detail\<rparr>"

definition passed :: "go_duration \<Rightarrow> string \<Rightarrow> check_result" where
  "passed dur detail = zero_result\<lparr>res_success := True, res_duration := dur, res_detail := detail\<rparr>"

definition failed_err :: "go_duration \<Rightarrow> go_error \<Rightarrow> check_result" where
  "failed_err dur err = failed dur (Some err) (error_text err)"

definition uint_text :: "uint16 \<Rightarrow> string" where
  "uint_text p = show_nat (unat p)"

definition JoinHostPort :: "string \<Rightarrow> string \<Rightarrow> string" where
  "JoinHostPort host port =
     (if CHR '':'' \<in> set host then ''['' @ host @ '']:'' @ port else host @ '':'' @ port)"

section \<open>TCP\<close>

definition tcp_Check :: "tcp_check_config \<Rightarrow> go_error option \<Rightarrow> ctx_err \<Rightarrow> go_duration \<Rightarrow> check_result" where
  "tcp_Check cfg dial ctx elapsed =
     (if tcp_host cfg = [] then failed_err elapsed (Errorf ''tcp check: host is required'' [] None)
      else if tcp_port cfg = 0 then failed_err elapsed (Errorf ''tcp check: port is required'' [] None)
      else
        let addr = JoinHostPort (tcp_host cfg) (uint_text (tcp_port cfg)) in
        case dial of
          Some err \<Rightarrow>
            (failed elapsed (Some err) (sprintf ''dial tcp %s: %v'' [FStr addr, FStr (error_text err)] []))
              \<lparr>res_timed_out := ctx \<noteq> CtxNone\<rparr>
        | None \<Rightarrow> passed elapsed (sprintf ''tcp %s: connection accepted'' [FStr addr] []))"

section \<open>UDP\<close>

text \<open>
  What reading from the connected socket gives: data, or an error that is a timeout, a refused connection
  (ICMP port unreachable) or something else.
\<close>

datatype udp_read = UDPData | UDPTimeout | UDPRefused go_error | UDPError go_error

record udp_env =
  ue_resolve :: "string \<Rightarrow> go_error option"
  ue_dial :: "go_error option"
  ue_set_deadline :: "go_error option"
  ue_write :: "string \<Rightarrow> go_error option"
  ue_set_read_deadline :: "go_duration \<Rightarrow> go_error option"
  ue_read :: "go_duration \<Rightarrow> udp_read"

definition udp_payload_of :: "udp_check_config \<Rightarrow> string" where
  "udp_payload_of cfg = (if udp_payload cfg = [] then [CHR 0x00] else udp_payload cfg)"

text \<open>\<open>deadline\<close> is the time left until the deadline of the context, when it has one.\<close>

definition udp_read_timeout :: "go_duration option \<Rightarrow> go_duration" where
  "udp_read_timeout deadline =
     (case deadline of None \<Rightarrow> 500000000 | Some remaining \<Rightarrow> if remaining < 500000000 then remaining else 500000000)"

definition udp_Check :: "udp_check_config \<Rightarrow> udp_env \<Rightarrow> go_duration option \<Rightarrow> go_duration \<Rightarrow> check_result" where
  "udp_Check cfg env deadline elapsed =
     (if udp_host cfg = [] then failed_err elapsed (Errorf ''udp check: host is required'' [] None)
      else if udp_port cfg = 0 then failed_err elapsed (Errorf ''udp check: port is required'' [] None)
      else
        let addr = JoinHostPort (udp_host cfg) (uint_text (udp_port cfg)) in
        case ue_resolve env addr of
          Some err \<Rightarrow> failed elapsed (Some err) (sprintf ''resolve %s: %v'' [FStr addr, FStr (error_text err)] [])
        | None \<Rightarrow>
        (case ue_dial env of
          Some err \<Rightarrow> failed elapsed (Some err) (sprintf ''dial udp %s: %v'' [FStr addr, FStr (error_text err)] [])
        | None \<Rightarrow>
        (case (if deadline = None then None else ue_set_deadline env) of
          Some err \<Rightarrow> failed_err elapsed err
        | None \<Rightarrow>
        (case ue_write env (udp_payload_of cfg) of
          Some err \<Rightarrow> failed elapsed (Some err) (sprintf ''write: %v'' [FStr (error_text err)] [])
        | None \<Rightarrow>
        (let window = udp_read_timeout deadline in
         case ue_set_read_deadline env window of
          Some err \<Rightarrow> failed_err elapsed err
        | None \<Rightarrow>
        (case ue_read env window of
          UDPData \<Rightarrow> passed elapsed (sprintf ''udp %s: received response'' [FStr addr] [])
        | UDPTimeout \<Rightarrow> passed elapsed (sprintf ''udp %s: no ICMP port-unreachable (port open)'' [FStr addr] [])
        | UDPRefused _ \<Rightarrow> failed elapsed None (sprintf ''udp %s: ICMP port unreachable (port closed)'' [FStr addr] [])
        | UDPError err \<Rightarrow> failed elapsed (Some err) (sprintf ''udp %s: %v'' [FStr addr, FStr (error_text err)] [])))))))"

section \<open>DNS\<close>

text \<open>A response: its code and the number of answers. \<open>RcodeToString\<close> is the table of the DNS package.\<close>

record dns_reply =
  dr_rcode :: int
  dr_answers :: int

record dns_env =
  de_exchange :: "string \<Rightarrow> string \<Rightarrow> string \<Rightarrow> go_error + dns_reply"
  de_rcode_text :: "int \<Rightarrow> string"

definition NewDNSChecker :: "dns_check_config \<Rightarrow> dns_check_config" where
  "NewDNSChecker cfg = cfg\<lparr>dns_query_type := to_upper (dns_query_type cfg)\<rparr>"

text \<open>The loop over the names with the details collected so far; the query is the server, the name and the type.\<close>

fun dns_queries ::
    "dns_env \<Rightarrow> string \<Rightarrow> string \<Rightarrow> ctx_err \<Rightarrow> go_duration \<Rightarrow> dns_name_details list \<Rightarrow> string list \<Rightarrow>
     check_result + dns_name_details list" where
  "dns_queries env server qtype ctx elapsed details [] = Inr details"
| "dns_queries env server qtype ctx elapsed details (name # names) =
     (case de_exchange env server name qtype of
        Inl err \<Rightarrow>
          Inl ((failed elapsed (Some err) (sprintf ''query %s: %v'' [FStr name, FStr (error_text err)] []))
            \<lparr>res_timed_out := ctx = CtxDeadlineExceeded, res_details := Some (DNSDetails details)\<rparr>)
      | Inr resp \<Rightarrow>
          (let details' = details @ [\<lparr>dn_name = name, dn_rcode = dr_rcode resp, dn_answers = dr_answers resp\<rparr>] in
           if dr_rcode resp \<noteq> 0 then
             Inl ((failed elapsed None (sprintf ''query %s: %s'' [FStr name, FStr (de_rcode_text env (dr_rcode resp))] []))
               \<lparr>res_details := Some (DNSDetails details')\<rparr>)
           else if dr_answers resp = 0 then
             Inl ((failed elapsed None (sprintf ''query %s: no answers'' [FStr name] []))
               \<lparr>res_details := Some (DNSDetails details')\<rparr>)
           else dns_queries env server qtype ctx elapsed details' names))"

definition dns_Check :: "dns_check_config \<Rightarrow> dns_env \<Rightarrow> ctx_err \<Rightarrow> go_duration \<Rightarrow> check_result" where
  "dns_Check cfg env ctx elapsed =
     (let server = JoinHostPort (dns_resolver cfg) (uint_text (dns_port cfg)) in
      case dns_queries env server (dns_query_type cfg) ctx elapsed [] (dns_names cfg) of
        Inl r \<Rightarrow> r
      | Inr details \<Rightarrow>
          (passed elapsed (sprintf ''DNS OK: %s'' [FStr (str_join (dns_names cfg) '', '')] []))
            \<lparr>res_details := Some (DNSDetails details)\<rparr>)"

section \<open>Ping\<close>

text \<open>
  The statistics of a run. \<open>float64\<close> values are rationals; the two operations the code does on them round, so
  they are arguments (\<open>float_ops\<close>).
\<close>

record ping_stats =
  pst_rtts :: "go_duration list"
  pst_packet_loss :: rat
  pst_packets_sent :: int
  pst_packets_recv :: int

record float_ops =
  fl_div :: "rat \<Rightarrow> rat \<Rightarrow> rat"
  fl_mul :: "rat \<Rightarrow> rat \<Rightarrow> rat"

record pinger =
  pg_addr :: string
  pg_count :: int
  pg_privileged :: bool
  pg_source :: string
  pg_timeout :: "go_duration option"
  pg_interval :: "go_duration option"

text \<open>\<open>None\<close> in timeout and interval is the default of the package.\<close>

definition newConfiguredPinger :: "ping_check_config \<Rightarrow> (string \<Rightarrow> go_error option) \<Rightarrow> go_error + pinger" where
  "newConfiguredPinger cfg new =
     (if ping_dst_ip cfg = [] then Inl (Errorf ''dst_ip is required'' [] None)
      else case new (ping_dst_ip cfg) of
             Some err \<Rightarrow> Inl err
           | None \<Rightarrow>
               Inr \<lparr>pg_addr = ping_dst_ip cfg, pg_count = ping_count cfg, pg_privileged = ping_privileged cfg,
                    pg_source = ping_src_ip cfg, pg_timeout = ping_timeout cfg, pg_interval = ping_interval cfg\<rparr>)"

text \<open>The verb \<open>%.1f\<close>.\<close>

definition tenths_text :: "rat \<Rightarrow> string" where
  "tenths_text r =
     (let n = round_even (abs r * 10)
      in (if r < 0 then ''-'' else []) @ show_nat (n div 10) @ ''.'' @ show_nat (n mod 10))"

text \<open>\<open>run\<close> is what the pinger delivers before the context is done, \<open>None\<close> when the context is done first.\<close>

definition ping_Check ::
    "ping_check_config \<Rightarrow> (string \<Rightarrow> go_error option) \<Rightarrow> (pinger \<Rightarrow> (go_error + ping_stats) option) \<Rightarrow> float_ops \<Rightarrow>
     go_duration \<Rightarrow> check_result" where
  "ping_Check cfg new run fl elapsed =
     (case newConfiguredPinger cfg new of
        Inl err \<Rightarrow> failed_err elapsed err
      | Inr pinger \<Rightarrow>
          (case run pinger of
             None \<Rightarrow> (failed elapsed None ''ping timed out'')\<lparr>res_timed_out := True\<rparr>
           | Some (Inl err) \<Rightarrow> failed_err elapsed err
           | Some (Inr stats) \<Rightarrow>
               (let lossRatio = fl_div fl (pst_packet_loss stats) 100;
                    details = PingDetails \<lparr>pd_rtts = pst_rtts stats, pd_packet_loss = lossRatio,
                                pd_packets_sent = pst_packets_sent stats, pd_packets_recv = pst_packets_recv stats\<rparr>
                in if ping_max_loss_ratio cfg < lossRatio then
                     (failed elapsed None (''loss '' @ tenths_text (pst_packet_loss stats) @ ''% > max '' @
                        tenths_text (fl_mul fl (ping_max_loss_ratio cfg) 100) @ ''%''))\<lparr>res_details := Some details\<rparr>
                   else
                     (passed elapsed (''ping OK '' @ show_int (pst_packets_recv stats) @ ''/'' @
                        show_int (pst_packets_sent stats) @ '' loss='' @ tenths_text (pst_packet_loss stats) @ ''%''))
                       \<lparr>res_details := Some details\<rparr>)))"

section \<open>Listen\<close>

text \<open>A line of a socket table (\<open>nil\<close> entries are \<open>None\<close>), and what reading a table gives.\<close>

record net_ip_socket =
  sk_local_addr :: "8 word list"
  sk_local_port :: nat
  sk_st :: nat

datatype table_read = TableMissing | TableError go_error | TableLines "net_ip_socket option list"

record procfs_env =
  pf_NewFS :: "string \<Rightarrow> go_error option"
  pf_table :: "string \<Rightarrow> string \<Rightarrow> table_read"

definition NewListenChecker :: "listen_check_config \<Rightarrow> listen_check_config" where
  "NewListenChecker cfg = (if ls_procfs cfg = [] then cfg\<lparr>ls_procfs := ''/proc''\<rparr> else cfg)"

text \<open>\<open>filepath.Clean\<close> on slash-separated paths, element by element with the elements kept so far, last one first.\<close>

fun clean_elems :: "bool \<Rightarrow> string list \<Rightarrow> string list \<Rightarrow> string list" where
  "clean_elems rooted kept [] = rev kept"
| "clean_elems rooted kept (e # es) =
     (if e = [] \<or> e = ''.'' then clean_elems rooted kept es
      else if e = ''..'' then
        (case kept of
           k # ks \<Rightarrow> if k \<noteq> ''..'' then clean_elems rooted ks es else clean_elems rooted (e # kept) es
         | [] \<Rightarrow> clean_elems rooted (if rooted then [] else [e]) es)
      else clean_elems rooted (e # kept) es)"

definition path_Clean :: "string \<Rightarrow> string" where
  "path_Clean p =
     (let rooted = has_prefix p ''/'';
          body = str_join (clean_elems rooted [] (split_all CHR ''/'' p)) ''/''
      in if rooted then ''/'' @ body else if body = [] then ''.'' else body)"

definition procRoot :: "listen_check_config \<Rightarrow> string" where
  "procRoot cfg =
     (if 0 < ls_netns_pid cfg then path_Clean (ls_procfs cfg @ ''/'' @ show_nat (nat (ls_netns_pid cfg)))
      else ls_procfs cfg)"

definition tcpListen :: nat where "tcpListen = 10"

definition IsUnspecified :: "ip_addr \<Rightarrow> bool" where
  "IsUnspecified a = (a = IP4 0 \<or> a = IP6 0 [])"

definition addr_port_text :: "ip_addr \<Rightarrow> uint16 \<Rightarrow> string" where
  "addr_port_text a p =
     (if Is4 a then addr_String a @ '':'' @ uint_text p else ''['' @ addr_String a @ '']:'' @ uint_text p)"

text \<open>The address of a line the check accepts: the guards of \<open>match\<close> in order. An invalid host is \<open>None\<close>.\<close>

definition match_line :: "listen_check_config \<Rightarrow> bool \<Rightarrow> ip_addr option \<Rightarrow> net_ip_socket option \<Rightarrow> ip_addr option" where
  "match_line cfg tcp host line =
     (case line of
        None \<Rightarrow> None
      | Some l \<Rightarrow>
          if sk_local_port l \<noteq> unat (ls_port cfg) then None
          else if tcp \<and> sk_st l \<noteq> tcpListen then None
          else
            (case AddrFromSlice (sk_local_addr l) of
               None \<Rightarrow> None
             | Some a0 \<Rightarrow>
                 (let addr = Unmap a0 in
                  case host of
                    None \<Rightarrow> Some addr
                  | Some h \<Rightarrow>
                      if \<not> IsUnspecified addr \<and> addr \<noteq> h then None
                      else if Is6 h \<and> IsUnspecified addr \<and> Is4 addr then None
                      else Some addr)))"

definition listen_match :: "listen_check_config \<Rightarrow> net_ip_socket option list \<Rightarrow> bool \<Rightarrow> ip_addr option \<Rightarrow> string list" where
  "listen_match cfg lines tcp host =
     map (\<lambda>a. addr_port_text a (ls_port cfg)) (List.map_filter (match_line cfg tcp host) lines)"

text \<open>The loop over the two tables.\<close>

fun read_tables ::
    "listen_check_config \<Rightarrow> bool \<Rightarrow> ip_addr option \<Rightarrow> string list \<Rightarrow> table_read list \<Rightarrow> go_error + string list" where
  "read_tables cfg tcp host sockets [] = Inr sockets"
| "read_tables cfg tcp host sockets (t # ts) =
     (case t of
        TableMissing \<Rightarrow> read_tables cfg tcp host sockets ts
      | TableError err \<Rightarrow> Inl err
      | TableLines ls \<Rightarrow> read_tables cfg tcp host (sockets @ listen_match cfg ls tcp host) ts)"

definition listen_host :: "listen_check_config \<Rightarrow> go_error + ip_addr option" where
  "listen_host cfg =
     (if ls_host cfg = [] then Inr None
      else case ParseAddr (ls_host cfg) of Inl err \<Rightarrow> Inl err | Inr a \<Rightarrow> Inr (Some (Unmap a)))"

definition listen_tables :: "listen_check_config \<Rightarrow> procfs_env \<Rightarrow> table_read list" where
  "listen_tables cfg env =
     map (pf_table env (procRoot cfg)) (if ls_proto cfg = ''tcp'' then [''tcp'', ''tcp6''] else [''udp'', ''udp6''])"

definition listen_Check :: "listen_check_config \<Rightarrow> procfs_env \<Rightarrow> go_duration \<Rightarrow> check_result" where
  "listen_Check cfg env elapsed =
     (let proto = ls_proto cfg in
      if ls_port cfg = 0 then failed_err elapsed (Errorf ''listen check: port is required'' [] None)
      else if proto \<noteq> ''tcp'' \<and> proto \<noteq> ''udp'' then
        failed_err elapsed (Errorf ''listen check: proto must be tcp or udp, got %q'' [FStr proto] None)
      else
        case listen_host cfg of
          Inl err \<Rightarrow>
            failed elapsed (Some err) (sprintf ''listen check: host %q: %v'' [FStr (ls_host cfg), FStr (error_text err)] [])
        | Inr host \<Rightarrow>
        (case pf_NewFS env (procRoot cfg) of
          Some err \<Rightarrow>
            failed elapsed (Some err)
              (sprintf ''listen check: procfs %s: %v'' [FStr (procRoot cfg), FStr (error_text err)] [])
        | None \<Rightarrow>
        (case read_tables cfg (proto = ''tcp'') host [] (listen_tables cfg env) of
          Inl err \<Rightarrow> failed elapsed (Some err) (sprintf ''listen check: %v'' [FStr (error_text err)] [])
        | Inr sockets \<Rightarrow>
            (let port = uint_text (ls_port cfg);
                 target = (if ls_host cfg \<noteq> [] then ls_host cfg @ '':'' @ port else port) in
             if sockets = [] then
               (failed elapsed (Some (Errorf ''listen %s %s: no socket bound'' [FStr proto, FStr target] None))
                  (sprintf ''listen %s %s: no socket bound'' [FStr proto, FStr target] []))
                 \<lparr>res_details := Some (ListenDetails sockets)\<rparr>
             else
               (passed elapsed (sprintf ''listen %s %s: bound on %s''
                  [FStr proto, FStr target, FStr (str_join sockets '', '')] []))
                 \<lparr>res_details := Some (ListenDetails sockets)\<rparr>))))"

end
