(* ===== verification/Defaults.thy ===== *)
theory Defaults
  imports Config Go_Net Example_Data "HOL-Library.List_Lexorder" "HOL-Library.Char_ord"
begin

text \<open>
  Filling in defaults (\<open>internal/config/defaults.go\<close>). The code writes through pointers into the
  configuration; here every function returns the record it would leave behind.

  \<open>url.Parse\<close> is an argument of the definitions that use it; a parsed URL is the record of what its accessors
  return. \<open>net.LookupPort\<close> is called with the digits \<open>URL.Port\<close> returns only, so it is a number of 16 bits.
  Header maps are kept sorted by key, like all maps of the configuration; when two header names have the same
  canonical form the source keeps either (map order), the model the one of the greater name.
\<close>

section \<open>Library functions\<close>

record url =
  u_scheme :: string
  u_host :: string
  u_hostname :: string
  u_port :: string
  u_request_uri :: string

type_synonym url_parser = "string \<Rightarrow> go_error + url"

text \<open>\<open>net.ParseIP\<close> with \<open>To4\<close>: an address without zone, and whether it has a 4-byte form.\<close>

definition ParseIP :: "string \<Rightarrow> ip_addr option" where
  "ParseIP s = (case ParseAddr s of Inl _ \<Rightarrow> None | Inr a \<Rightarrow> if addr_zone a = [] then Some a else None)"

definition has_To4 :: "ip_addr \<Rightarrow> bool" where
  "has_To4 a = Is4 (Unmap a)"

text \<open>\<open>http.CanonicalHeaderKey\<close>: a name with a byte that is no token character stays as it is.\<close>

definition token_char :: "char \<Rightarrow> bool" where
  "token_char c =
     (let n = of_char c :: nat in
      (48 \<le> n \<and> n \<le> 57) \<or> (65 \<le> n \<and> n \<le> 90) \<or> (97 \<le> n \<and> n \<le> 122) \<or>
      List.member [33, 35, 36, 37, 38, 39, 42, 43, 45, 46, 94, 95, 96, 124, 126] n)"

fun canonical_bytes :: "bool \<Rightarrow> string \<Rightarrow> string" where
  "canonical_bytes upper [] = []"
| "canonical_bytes upper (c # cs) =
     (if upper then upper_char c else lower_char c) # canonical_bytes (c = CHR ''-'') cs"

definition CanonicalHeaderKey :: "string \<Rightarrow> string" where
  "CanonicalHeaderKey s = (if list_all token_char s then canonical_bytes True s else s)"

definition sort_map :: "(string, 'v) gomap \<Rightarrow> (string, 'v) gomap" where
  "sort_map m = sort_key fst m"

section \<open>Helpers\<close>

text \<open>\<open>vipHostIP\<close> and \<open>isSingleHost\<close> share the test for a host prefix.\<close>

definition vipHostIP :: "string \<Rightarrow> string" where
  "vipHostIP prefix =
     (case ParseCIDR prefix of
        None \<Rightarrow> []
      | Some (ip, ones) \<Rightarrow> if ones = BitLen ip then addr_String (Unmap ip) else [])"

definition default_string :: "string \<Rightarrow> string \<Rightarrow> string" where
  "default_string s d = (if s = [] then d else s)"

definition default_some :: "'a option \<Rightarrow> 'a \<Rightarrow> 'a option" where
  "default_some x d = (case x of None \<Rightarrow> Some d | Some v \<Rightarrow> Some v)"

definition default_zero :: "'a::zero \<Rightarrow> 'a \<Rightarrow> 'a" where
  "default_zero x d = (if x = 0 then d else x)"

section \<open>Sections of the configuration\<close>

definition SQLDriverMySQL :: string where "SQLDriverMySQL = ''mysql''"
definition SQLDriverPostgres :: string where "SQLDriverPostgres = ''postgres''"

definition applySQLDefaults :: "sql_check_config \<Rightarrow> string \<Rightarrow> sql_check_config" where
  "applySQLDefaults s vipPrefix =
     s\<lparr>sql_host := default_string (sql_host s) (vipHostIP vipPrefix),
       sql_port := (if sql_port s = 0 then
                      (if sql_driver s = SQLDriverMySQL then 3306
                       else if sql_driver s = SQLDriverPostgres then 5432 else 0)
                    else sql_port s),
       sql_queries := (if sql_queries s = [] then [\<lparr>q_name = [], q_sql = ''SELECT 1'', q_result_jq = []\<rparr>]
                       else sql_queries s),
       sql_max_rows := default_zero (sql_max_rows s) 100\<rparr>"

definition applyKafkaDefaults :: "kafka_check_config \<Rightarrow> string \<Rightarrow> kafka_check_config" where
  "applyKafkaDefaults k vipPrefix =
     k\<lparr>kf_host := default_string (kf_host k) (vipHostIP vipPrefix),
       kf_port := default_zero (kf_port k) 9092,
       kf_client_id := default_string (kf_client_id k) ''pathosd'',
       kf_min_brokers := default_zero (kf_min_brokers k) 1\<rparr>"

definition applyPathsDefaults :: "paths_config \<Rightarrow> paths_config" where
  "applyPathsDefaults p = p\<lparr>paths_procfs := default_string (paths_procfs p) ''/proc''\<rparr>"

definition default_signal :: "otel_signal_config \<Rightarrow> otel_signal_config" where
  "default_signal s = s\<lparr>sig_enabled := default_some (sig_enabled s) True\<rparr>"

definition applyOTelDefaults :: "otel_config \<Rightarrow> otel_config" where
  "applyOTelDefaults o' =
     o'\<lparr>otel_enabled := default_some (otel_enabled o') True,
        otel_service_name := default_string (otel_service_name o') ''pathosd'',
        otel_traces := default_signal (otel_traces o'),
        otel_metrics := default_signal (otel_metrics o'),
        otel_logs := default_signal (otel_logs o')\<rparr>"

definition applyDNSDefaults :: "dns_check_config \<Rightarrow> string \<Rightarrow> dns_check_config" where
  "applyDNSDefaults d vipPrefix =
     d\<lparr>dns_port := default_zero (dns_port d) 53,
       dns_query_type := default_string (to_upper (dns_query_type d)) ''A'',
       dns_resolver := default_string (dns_resolver d) (vipHostIP vipPrefix)\<rparr>"

definition applyUDPDefaults :: "udp_check_config \<Rightarrow> string \<Rightarrow> udp_check_config" where
  "applyUDPDefaults u vipPrefix =
     u\<lparr>udp_host := default_string (udp_host u) (vipHostIP vipPrefix),
       udp_payload := default_string (udp_payload u) [CHR 0x00]\<rparr>"

definition applyPolicyDefaults :: "policy_config \<Rightarrow> policy_config" where
  "applyPolicyDefaults p =
     (let lp = (case pc_lower_priority p of
                  None \<Rightarrow> \<lparr>lp_as_path_prepend = None, lp_communities = []\<rparr> | Some l \<Rightarrow> l);
          an = (case pc_announce p of
                  None \<Rightarrow> \<lparr>an_as_path_prepend = None, an_communities = []\<rparr> | Some a \<Rightarrow> a)
      in p\<lparr>pc_fail_action := default_string (pc_fail_action p) ''lower_priority'',
           pc_lower_priority := Some (lp\<lparr>lp_as_path_prepend := default_some (lp_as_path_prepend lp) 6\<rparr>),
           pc_announce := Some (an\<lparr>an_as_path_prepend := default_some (an_as_path_prepend an) 0\<rparr>)\<rparr>)"

section \<open>HTTP checks\<close>

definition put_if_absent :: "string \<Rightarrow> string \<Rightarrow> (string, string) gomap \<Rightarrow> (string, string) gomap" where
  "put_if_absent k v m = (if map_of m k = None then gm_put k v m else m)"

text \<open>The block for a full URL: protocol, port and Host header from it, and the URL cut to path and query.\<close>

definition from_full_url :: "url \<Rightarrow> http_check_config \<Rightarrow> http_check_config" where
  "from_full_url u h =
     h\<lparr>http_proto := default_string (http_proto h) (u_scheme u),
       http_port := (if http_port h = 0 \<and> u_port u \<noteq> [] then
                       (case parse_uint 16 (u_port u) of None \<Rightarrow> 0 | Some p \<Rightarrow> of_nat p)
                     else http_port h),
       http_headers := (if u_hostname u \<noteq> [] then put_if_absent ''Host'' (u_host u) (http_headers h)
                        else http_headers h),
       http_url := default_string (u_request_uri u) ''/''\<rparr>"

definition full_url :: "url_parser \<Rightarrow> http_check_config \<Rightarrow> url option" where
  "full_url parse h = (case parse (http_url h) of Inl _ \<Rightarrow> None | Inr u \<Rightarrow> if u_scheme u \<noteq> [] then Some u else None)"

definition applyHTTPDefaults :: "url_parser \<Rightarrow> http_check_config \<Rightarrow> string \<Rightarrow> http_check_config" where
  "applyHTTPDefaults parse h vipPrefix =
     (let h1 = h\<lparr>http_url := default_string (http_url h) ''/'',
                 http_headers := fold (\<lambda>(k, v) m. gm_put (CanonicalHeaderKey k) v m) (http_headers h) []\<rparr>;
          u = full_url parse h1;
          urlHostname = (case u of None \<Rightarrow> []
                         | Some u \<Rightarrow> if u_hostname u \<noteq> [] \<and> ParseIP (u_hostname u) = None then u_hostname u else []);
          h2 = (case u of None \<Rightarrow> h1 | Some u \<Rightarrow> from_full_url u h1);
          h3 = h2\<lparr>http_proto := default_string (http_proto h2) ''http''\<rparr>;
          h4 = (if http_proxy h3 \<noteq> [] \<and> http_host h3 = [] \<and> urlHostname \<noteq> []
                then h3\<lparr>http_host := urlHostname\<rparr> else h3);
          h5 = h4\<lparr>http_host := default_string (http_host h4) (vipHostIP vipPrefix)\<rparr>;
          h6 = (if http_proxy h5 = [] \<and> http_tls_server_name h5 = [] \<and> urlHostname \<noteq> [] \<and>
                   http_proto h5 = ''https'' \<and> http_host h5 \<noteq> urlHostname
                then h5\<lparr>http_tls_server_name := urlHostname\<rparr> else h5);
          h7 = h6\<lparr>http_port := default_zero (http_port h6) (if http_proto h6 = ''https'' then 443 else 80),
                  http_method := default_string (http_method h6) ''GET'',
                  http_response_codes := (if http_response_codes h6 = [] then [200] else http_response_codes h6),
                  http_headers := put_if_absent ''User-Agent'' ''pathosd-check/1.0'' (http_headers h6)\<rparr>;
          h8 = (if http_response_jq h7 \<noteq> []
                then h7\<lparr>http_headers := put_if_absent ''Accept'' ''application/json'' (http_headers h7)\<rparr> else h7)
      in h8\<lparr>http_headers := sort_map (http_headers h8)\<rparr>)"

section \<open>Checks\<close>

text \<open>The zero values the code allocates for a missing block.\<close>

definition zero_http :: http_check_config where
  "zero_http = \<lparr>http_url = [], http_proto = [], http_host = [], http_port = 0, http_method = [],
     http_response_codes = [], http_response_text = [], http_response_regex = [], http_response_jq = [],
     http_tls_insecure = False, http_tls_ca_cert = [], http_tls_server_name = [], http_proxy = [],
     http_headers = [], http_keep_alive = False\<rparr>"

definition zero_dns :: dns_check_config where
  "zero_dns = \<lparr>dns_names = [], dns_resolver = [], dns_port = 0, dns_query_type = []\<rparr>"

definition zero_ping :: ping_check_config where
  "zero_ping = \<lparr>ping_dst_ip = [], ping_src_ip = [], ping_privileged = False, ping_count = 0, ping_timeout = None,
     ping_interval = None, ping_max_loss_ratio = 0\<rparr>"

definition zero_udp :: udp_check_config where
  "zero_udp = \<lparr>udp_host = [], udp_port = 0, udp_payload = []\<rparr>"

definition zero_listen :: listen_check_config where
  "zero_listen = \<lparr>ls_proto = [], ls_port = 0, ls_host = [], ls_netns_pid = 0, ls_procfs = []\<rparr>"

definition zero_sql :: sql_check_config where
  "zero_sql = \<lparr>sql_driver = [], sql_host = [], sql_port = 0, sql_user = [], sql_password = [], sql_database = [],
     sql_tls = False, sql_tls_insecure = False, sql_tls_ca_cert = [], sql_tls_server_name = [],
     sql_keep_alive = False, sql_queries = [], sql_max_rows = 0\<rparr>"

definition zero_kafka :: kafka_check_config where
  "zero_kafka = \<lparr>kf_host = [], kf_port = 0, kf_client_id = [], kf_tls = False, kf_tls_insecure = False,
     kf_tls_ca_cert = [], kf_tls_server_name = [], kf_sasl = None, kf_topic = [], kf_min_brokers = 0\<rparr>"

definition zero_tcp :: tcp_check_config where
  "zero_tcp = \<lparr>tcp_host = [], tcp_port = 0\<rparr>"

definition zero_grpc :: grpc_check_config where
  "zero_grpc = \<lparr>grpc_host = [], grpc_port = 0, grpc_tls = False, grpc_tls_insecure = False, grpc_tls_ca_cert = [],
     grpc_tls_server_name = [], grpc_method = [], grpc_service = [], grpc_ok_codes = [], grpc_metadata = []\<rparr>"

definition or_zero :: "'a option \<Rightarrow> 'a \<Rightarrow> 'a" where
  "or_zero x z = (case x of None \<Rightarrow> z | Some v \<Rightarrow> v)"

definition applyCheckDefaults :: "url_parser \<Rightarrow> check_config \<Rightarrow> string \<Rightarrow> check_config" where
  "applyCheckDefaults parse c0 vipPrefix =
     (let c = c0\<lparr>ck_interval := default_some (ck_interval c0) 1000000000,
                 ck_timeout := default_some (ck_timeout c0) 100000000,
                 ck_rise := default_some (ck_rise c0) 1,
                 ck_fall := default_some (ck_fall c0) 3\<rparr> in
      if ck_type c = CheckTypeHTTP then
        c\<lparr>ck_http := Some (applyHTTPDefaults parse (or_zero (ck_http c) zero_http) vipPrefix)\<rparr>
      else if ck_type c = CheckTypeDNS then
        c\<lparr>ck_dns := Some (applyDNSDefaults (or_zero (ck_dns c) zero_dns) vipPrefix)\<rparr>
      else if ck_type c = CheckTypePing then
        (let p = or_zero (ck_ping c) zero_ping
         in c\<lparr>ck_ping := Some (p\<lparr>ping_count := default_zero (ping_count p) 1,
                                 ping_dst_ip := default_string (ping_dst_ip p) (vipHostIP vipPrefix)\<rparr>)\<rparr>)
      else if ck_type c = CheckTypeUDP then
        c\<lparr>ck_udp := Some (applyUDPDefaults (or_zero (ck_udp c) zero_udp) vipPrefix)\<rparr>
      else if ck_type c = CheckTypeListen then
        (let l = or_zero (ck_listen c) zero_listen
         in c\<lparr>ck_listen := Some (l\<lparr>ls_host := default_string (ls_host l) (vipHostIP vipPrefix)\<rparr>)\<rparr>)
      else if ck_type c = CheckTypeSQL then
        c\<lparr>ck_sql := Some (applySQLDefaults (or_zero (ck_sql c) zero_sql) vipPrefix)\<rparr>
      else if ck_type c = CheckTypeKafka then
        c\<lparr>ck_kafka := Some (applyKafkaDefaults (or_zero (ck_kafka c) zero_kafka) vipPrefix)\<rparr>
      else if ck_type c = CheckTypeTCP then
        (let t = or_zero (ck_tcp c) zero_tcp
         in c\<lparr>ck_tcp := Some (t\<lparr>tcp_host := default_string (tcp_host t) (vipHostIP vipPrefix)\<rparr>)\<rparr>)
      else if ck_type c = CheckTypeGRPC then
        (let g = or_zero (ck_grpc c) zero_grpc
         in c\<lparr>ck_grpc := Some (g\<lparr>grpc_host := default_string (grpc_host g) (vipHostIP vipPrefix)\<rparr>)\<rparr>)
      else c)"

section \<open>The whole configuration\<close>

definition default_neighbor :: "neighbor_config \<Rightarrow> neighbor_config" where
  "default_neighbor n = n\<lparr>nb_port := default_zero (nb_port n) 179, nb_required := default_some (nb_required n) True\<rparr>"

text \<open>One check of a VIP: its own defaults, then the procfs path of a listen block.\<close>

definition default_check :: "url_parser \<Rightarrow> string \<Rightarrow> string \<Rightarrow> check_config \<Rightarrow> check_config" where
  "default_check parse procfs prefix c0 =
     (let c = applyCheckDefaults parse c0 prefix
      in case ck_listen c of
           Some l \<Rightarrow> (if ls_procfs l = [] then c\<lparr>ck_listen := Some (l\<lparr>ls_procfs := procfs\<rparr>)\<rparr> else c)
         | None \<Rightarrow> c)"

text \<open>The loop body over the VIPs; \<open>CheckList\<close> gives pointers, so the defaults land in the list or in the single check.\<close>

definition default_vip :: "url_parser \<Rightarrow> string \<Rightarrow> vip_config \<Rightarrow> vip_config" where
  "default_vip parse procfs v =
     (if v_checks v = [] \<and> ck_type (v_check v) = [] then v
      else
        (let f = default_check parse procfs (v_prefix v);
             v1 = (if v_checks v \<noteq> [] then v\<lparr>v_checks := map f (v_checks v)\<rparr> else v\<lparr>v_check := f (v_check v)\<rparr>)
         in v1\<lparr>v_checks_policy := default_string (v_checks_policy v1) ChecksPolicyAll,
               v_policy := applyPolicyDefaults (v_policy v1)\<rparr>))"

definition default_api :: "api_config \<Rightarrow> api_config" where
  "default_api a =
     a\<lparr>api_listen := default_string (api_listen a) '':59179'',
       api_read_header_timeout := default_some (api_read_header_timeout a) 10000000000,
       api_read_timeout := default_some (api_read_timeout a) 30000000000,
       api_write_timeout := default_some (api_write_timeout a) 60000000000,
       api_idle_timeout := default_some (api_idle_timeout a) 120000000000\<rparr>"

definition default_bgp :: "bgp_config \<Rightarrow> bgp_config" where
  "default_bgp b =
     (let g = bgp_gobgp_api b
      in b\<lparr>bgp_graceful_restart := default_some (bgp_graceful_restart b) True,
           bgp_listen_port := default_zero (bgp_listen_port b) 179,
           bgp_gobgp_api := (if gapi_enabled g \<and> gapi_listen g = [] then g\<lparr>gapi_listen := DefaultGoBGPAPIListen\<rparr> else g),
           bgp_neighbors := map default_neighbor (bgp_neighbors b)\<rparr>)"

definition ApplyDefaults :: "url_parser \<Rightarrow> config \<Rightarrow> config" where
  "ApplyDefaults parse cfg =
     (let paths = applyPathsDefaults (c_paths cfg)
      in cfg\<lparr>c_api := default_api (c_api cfg),
             c_logging := (c_logging cfg)\<lparr>log_level := default_string (log_level (c_logging cfg)) ''info'',
                                          log_format := default_string (log_format (c_logging cfg)) ''text''\<rparr>,
             c_bgp := default_bgp (c_bgp cfg),
             c_paths := paths,
             c_vips := map (default_vip parse (paths_procfs paths)) (c_vips cfg),
             c_otel := applyOTelDefaults (c_otel cfg)\<rparr>)"

end
