(* ===== verification/Checkers_App.thy ===== *)
theory Checkers_App
  imports Checkers_Net Defaults
begin

text \<open>
  The checkers that speak an application protocol: \<open>http.go\<close>, \<open>sql.go\<close>, \<open>grpc.go\<close> and \<open>kafka.go\<close> of
  \<open>internal/checks\<close>.

  Network clients, TLS, regular expressions, jq, JSON and database drivers are third-party or system code: what
  their calls return are arguments. A compiled regular expression is its match function, a compiled jq
  expression what \<open>iter.Next\<close> returns first on a value; JSON values are an abstract type \<open>'j\<close>.
\<close>

section \<open>TLS settings\<close>

record tls_config =
  tc_insecure :: bool
  tc_server_name :: string
  tc_root_cas :: "string option"

text \<open>Reading a CA file, the system pool, and whether PEM data holds a certificate.\<close>

record tls_env =
  te_ReadFile :: "string \<Rightarrow> go_error + string"
  te_system_pool :: "go_error option"
  te_has_certs :: "string \<Rightarrow> bool"

definition ca_error :: "string \<Rightarrow> go_error" where
  "ca_error path = Errorf ''parsing tls_ca_cert %q: no certificates found'' [FStr path] None"

text \<open>The block that adds a CA file; with \<open>strict\<close> an error of the system pool is returned, otherwise a new pool is used.\<close>

definition load_ca :: "tls_env \<Rightarrow> bool \<Rightarrow> string \<Rightarrow> go_error + string" where
  "load_ca env strict path =
     (case te_ReadFile env path of
        Inl err \<Rightarrow> Inl (Errorf ''reading tls_ca_cert: %w'' [] (Some err))
      | Inr pem \<Rightarrow>
          (case (if strict then te_system_pool env else None) of
             Some err \<Rightarrow> Inl (Errorf ''loading system cert pool: %w'' [] (Some err))
           | None \<Rightarrow> if te_has_certs env pem then Inr pem else Inl (ca_error path)))"

section \<open>jq\<close>

text \<open>The first output: none, an error, or a value: whether it is \<open>true\<close>, and its text.\<close>

datatype jq_out = JqNone | JqError go_error | JqValue bool string

section \<open>HTTP\<close>

record 'j http_libs =
  hl_url :: url_parser
  hl_tls :: tls_env
  hl_regexp :: "string \<Rightarrow> go_error + (string \<Rightarrow> bool)"
  hl_jq :: "string \<Rightarrow> go_error + ('j \<Rightarrow> jq_out)"
  hl_json :: "string \<Rightarrow> go_error + 'j"

text \<open>
  The transport of the client: \<open>tr_connect\<close> is the host every connection goes to instead of the one in the
  URL. \<open>hc_re\<close> and \<open>hc_jq\<close> are nil when not configured.
\<close>

record http_transport =
  tr_tls :: tls_config
  tr_disable_keep_alives :: bool
  tr_proxy :: "url option"
  tr_connect :: "string option"

record 'j http_checker =
  hc_cfg :: http_check_config
  hc_transport :: http_transport
  hc_re :: "(string \<Rightarrow> bool) option"
  hc_jq :: "('j \<Rightarrow> jq_out) option"
  hc_sni_host :: string

definition maxBodyBytes :: nat where "maxBodyBytes = 1048576"

definition userAgent :: "string \<Rightarrow> string" where
  "userAgent version = ''pathosd/'' @ (if version = [] then ''dev'' else version)"

definition http_matchers ::
    "'j http_libs \<Rightarrow> http_check_config \<Rightarrow> go_error + (string \<Rightarrow> bool) option \<times> ('j \<Rightarrow> jq_out) option" where
  "http_matchers libs cfg =
     (case (if http_response_regex cfg = [] then Inr None
            else map_sum id Some (hl_regexp libs (http_response_regex cfg))) of
        Inl err \<Rightarrow> Inl (Errorf ''invalid response_regex: %w'' [] (Some err))
      | Inr re \<Rightarrow>
          (case (if http_response_jq cfg = [] then Inr None else map_sum id Some (hl_jq libs (http_response_jq cfg))) of
             Inl err \<Rightarrow> Inl (Errorf ''invalid response_jq: %w'' [] (Some err))
           | Inr jq \<Rightarrow> Inr (re, jq)))"

definition NewHTTPChecker :: "'j http_libs \<Rightarrow> http_check_config \<Rightarrow> go_error + 'j http_checker" where
  "NewHTTPChecker libs cfg =
     (if http_tls_insecure cfg \<and> http_tls_ca_cert cfg \<noteq> [] then
        Inl (Errorf ''tls_ca_cert cannot be set together with tls_insecure'' [] None)
      else
        case (if http_proxy cfg = [] then Inr None else map_sum id Some (hl_url libs (http_proxy cfg))) of
          Inl err \<Rightarrow> Inl (Errorf ''invalid proxy: %w'' [] (Some err))
        | Inr proxy \<Rightarrow>
        (case (if http_tls_ca_cert cfg = [] then Inr None
               else map_sum id Some (load_ca (hl_tls libs) True (http_tls_ca_cert cfg))) of
          Inl err \<Rightarrow> Inl err
        | Inr cas \<Rightarrow>
            (let sniHost = (if http_proxy cfg = [] then http_tls_server_name cfg else []) in
             case http_matchers libs cfg of
               Inl err \<Rightarrow> Inl err
             | Inr (re, jq) \<Rightarrow>
                 Inr \<lparr>hc_cfg = cfg,
                      hc_transport = \<lparr>tr_tls = \<lparr>tc_insecure = http_tls_insecure cfg, tc_server_name = sniHost,
                                                tc_root_cas = cas\<rparr>,
                                      tr_disable_keep_alives = \<not> http_keep_alive cfg, tr_proxy = proxy,
                                      tr_connect = (if sniHost = [] then None else Some (http_host cfg))\<rparr>,
                      hc_re = re, hc_jq = jq, hc_sni_host = sniHost\<rparr>)))"

text \<open>A response: its body is the bytes that arrive, and the error that ends them, if any.\<close>

record http_response =
  rp_status :: int
  rp_cert_not_after :: "go_time option"
  rp_body :: string
  rp_body_err :: "go_error option"

record http_request =
  rq_method :: string
  rq_url :: string
  rq_host :: string
  rq_headers :: "(string, string) gomap"

text \<open>\<open>io.ReadAll (io.LimitReader (body, n))\<close>: an error beyond the limit is not seen.\<close>

definition read_limited :: "nat \<Rightarrow> http_response \<Rightarrow> go_error + string" where
  "read_limited n r =
     (if n \<le> length (rp_body r) then Inr (take n (rp_body r))
      else case rp_body_err r of Some err \<Rightarrow> Inl err | None \<Rightarrow> Inr (rp_body r))"

fun contains :: "string \<Rightarrow> string \<Rightarrow> bool" where
  "contains [] sub = (sub = [])"
| "contains (c # cs) sub = (has_prefix (c # cs) sub \<or> contains cs sub)"

text \<open>The verb \<open>%v\<close> on a slice of integers.\<close>

definition ints_text :: "int list \<Rightarrow> string" where
  "ints_text xs = ''['' @ str_join (map show_int xs) '' '' @ '']''"

definition jq_failure :: "'j http_libs \<Rightarrow> ('j \<Rightarrow> jq_out) \<Rightarrow> string \<Rightarrow> go_duration \<Rightarrow> check_result option" where
  "jq_failure libs jq body dur =
     (case hl_json libs body of
        Inl err \<Rightarrow> Some (failed dur (Some err) (sprintf ''response is not valid JSON: %v'' [FStr (error_text err)] []))
      | Inr parsed \<Rightarrow>
          (case jq parsed of
             JqNone \<Rightarrow> Some (failed dur None ''jq expression produced no output'')
           | JqError err \<Rightarrow> Some (failed dur (Some err) (sprintf ''jq error: %v'' [FStr (error_text err)] []))
           | JqValue is_true text \<Rightarrow>
               if is_true then None else Some (failed dur None (sprintf ''jq expression is not true: %v'' [FStr text] []))))"

text \<open>The matchers on a body, in order: the first that fails.\<close>

definition body_failure :: "'j http_libs \<Rightarrow> 'j http_checker \<Rightarrow> string \<Rightarrow> go_duration \<Rightarrow> check_result option" where
  "body_failure libs c body dur =
     (if http_response_text (hc_cfg c) \<noteq> [] \<and> \<not> contains body (http_response_text (hc_cfg c)) then
        Some (failed dur None (sprintf ''body missing %q'' [FStr (http_response_text (hc_cfg c))] []))
      else if (case hc_re c of None \<Rightarrow> False | Some re \<Rightarrow> \<not> re body) then
        Some (failed dur None (sprintf ''body does not match regex %q'' [FStr (http_response_regex (hc_cfg c))] []))
      else case hc_jq c of None \<Rightarrow> None | Some jq \<Rightarrow> jq_failure libs jq body dur)"

definition evaluateResponse :: "'j http_libs \<Rightarrow> 'j http_checker \<Rightarrow> http_response \<Rightarrow> go_duration \<Rightarrow> check_result" where
  "evaluateResponse libs c resp dur =
     (let cfg = hc_cfg c; ok = passed dur (sprintf ''HTTP %d OK'' [FInt (rp_status resp)] []) in
      if \<not> List.member (http_response_codes cfg) (rp_status resp) then
        failed dur None (sprintf ''unexpected status %d (want %v)''
          [FInt (rp_status resp), FStr (ints_text (http_response_codes cfg))] [])
      else if http_response_text cfg \<noteq> [] \<or> hc_re c \<noteq> None \<or> hc_jq c \<noteq> None then
        (case read_limited maxBodyBytes resp of
           Inl err \<Rightarrow> failed dur (Some err) ''error reading body''
         | Inr body \<Rightarrow> (case body_failure libs c body dur of Some r \<Rightarrow> r | None \<Rightarrow> ok))
      else ok)"

text \<open>
  \<open>HTTPChecker.Check\<close>. The headers are applied in the order of the map; two keys that differ in case only are
  the same header, the later one wins. \<open>Host\<close> goes to the request line.
\<close>

definition http_url_of :: "'j http_checker \<Rightarrow> string" where
  "http_url_of c =
     (let cfg = hc_cfg c;
          urlHost = (if hc_sni_host c \<noteq> [] then hc_sni_host c else http_host cfg);
          host = (case ParseIP urlHost of
                    Some ip \<Rightarrow> if has_To4 ip then urlHost else ''['' @ urlHost @ '']'' | None \<Rightarrow> urlHost)
      in http_proto cfg @ ''://'' @ host @ '':'' @ uint_text (http_port cfg) @ http_url cfg)"

definition set_header :: "string \<times> string \<Rightarrow> http_request \<Rightarrow> http_request" where
  "set_header kv rq =
     (if to_lower (fst kv) = ''host'' then rq\<lparr>rq_host := snd kv\<rparr>
      else rq\<lparr>rq_headers := gm_put (CanonicalHeaderKey (fst kv)) (snd kv) (rq_headers rq)\<rparr>)"

definition http_request_of :: "'j http_checker \<Rightarrow> string \<Rightarrow> string \<Rightarrow> http_request" where
  "http_request_of c version urlHost =
     fold set_header (http_headers (hc_cfg c))
       \<lparr>rq_method = http_method (hc_cfg c), rq_url = http_url_of c, rq_host = urlHost,
        rq_headers = [(''User-Agent'', userAgent version)]\<rparr>"

text \<open>\<open>new\<close> is \<open>http.NewRequestWithContext\<close>: the host of the URL or an error.\<close>

definition http_Check ::
    "'j http_libs \<Rightarrow> 'j http_checker \<Rightarrow> string \<Rightarrow> (string \<Rightarrow> string \<Rightarrow> go_error + string) \<Rightarrow>
     (http_request \<Rightarrow> go_error + http_response) \<Rightarrow> ctx_err \<Rightarrow> go_duration \<Rightarrow> check_result" where
  "http_Check libs c version new send ctx elapsed =
     (case new (http_method (hc_cfg c)) (http_url_of c) of
        Inl err \<Rightarrow> failed_err elapsed err
      | Inr urlHost \<Rightarrow>
          (case send (http_request_of c version urlHost) of
             Inl err \<Rightarrow> (failed_err elapsed err)\<lparr>res_timed_out := ctx = CtxDeadlineExceeded\<rparr>
           | Inr resp \<Rightarrow>
               (evaluateResponse libs c resp elapsed)
                 \<lparr>res_details := Some (HTTPDetails \<lparr>hd_status_code = rp_status resp,
                    hd_tls_cert_not_after = (case rp_cert_not_after resp of None \<Rightarrow> 0 | Some t \<Rightarrow> t)\<rparr>)\<rparr>))"

section \<open>SQL\<close>

text \<open>\<open>'r\<close> is the type of the rows an expression is run on.\<close>

record 'r sql_query =
  sqq_name :: string
  sqq_sql :: string
  sqq_jq :: "('r \<Rightarrow> jq_out) option"

fun compile_queries ::
    "(string \<Rightarrow> go_error + ('r \<Rightarrow> jq_out)) \<Rightarrow> nat \<Rightarrow> sql_query_config list \<Rightarrow> go_error + 'r sql_query list" where
  "compile_queries jq i [] = Inr []"
| "compile_queries jq i (q # qs) =
     (case (if q_result_jq q = [] then Inr None else map_sum id Some (jq (q_result_jq q))) of
        Inl err \<Rightarrow>
          Inl (Errorf ''query %s: invalid result_jq: %w'' [FStr (query_EffectiveName q i)] (Some err))
      | Inr prog \<Rightarrow>
          (case compile_queries jq (i + 1) qs of
             Inl err \<Rightarrow> Inl err
           | Inr rest \<Rightarrow> Inr (\<lparr>sqq_name = query_EffectiveName q i, sqq_sql = q_sql q, sqq_jq = prog\<rparr> # rest)))"

record 'r sql_checker =
  sc_cfg :: sql_check_config
  sc_queries :: "'r sql_query list"
  sc_target :: string
  sc_max_idle :: nat

definition newSQLChecker ::
    "(string \<Rightarrow> go_error + ('r \<Rightarrow> jq_out)) \<Rightarrow> sql_check_config \<Rightarrow> go_error + 'r sql_checker" where
  "newSQLChecker jq cfg =
     (case compile_queries jq 0 (if sql_queries cfg = [] then [\<lparr>q_name = [], q_sql = ''SELECT 1'', q_result_jq = []\<rparr>]
                                 else sql_queries cfg) of
        Inl err \<Rightarrow> Inl err
      | Inr qs \<Rightarrow> Inr \<lparr>sc_cfg = cfg, sc_queries = qs, sc_target = [], sc_max_idle = (if sql_keep_alive cfg then 1 else 0)\<rparr>)"

definition sqlTLSConfig :: "tls_env \<Rightarrow> sql_check_config \<Rightarrow> go_error + tls_config option" where
  "sqlTLSConfig env cfg =
     (if \<not> sql_tls cfg then Inr None
      else
        let tc = \<lparr>tc_insecure = sql_tls_insecure cfg,
                  tc_server_name = (if sql_tls_server_name cfg = [] then sql_host cfg else sql_tls_server_name cfg),
                  tc_root_cas = None\<rparr> in
        if sql_tls_ca_cert cfg = [] then Inr (Some tc)
        else case load_ca env False (sql_tls_ca_cert cfg) of
               Inl err \<Rightarrow> Inl err
             | Inr pem \<Rightarrow> Inr (Some (tc\<lparr>tc_root_cas := Some pem\<rparr>)))"

text \<open>The connector: whether the driver accepts its configuration (\<open>mysql\<close>, \<open>pgx\<close>) is an argument.\<close>

definition sqlConnector ::
    "tls_env \<Rightarrow> (sql_check_config \<Rightarrow> go_error option) \<Rightarrow> sql_check_config \<Rightarrow> go_error + string" where
  "sqlConnector env accept cfg =
     (case sqlTLSConfig env cfg of
        Inl err \<Rightarrow> Inl err
      | Inr _ \<Rightarrow>
          (let addr = JoinHostPort (sql_host cfg) (uint_text (sql_port cfg)) in
           if sql_driver cfg = SQLDriverMySQL then
             (case accept cfg of Some err \<Rightarrow> Inl (Errorf ''mysql connector: %w'' [] (Some err))
              | None \<Rightarrow> Inr (''mysql '' @ addr))
           else if sql_driver cfg = SQLDriverPostgres then
             (case accept cfg of Some err \<Rightarrow> Inl (Errorf ''postgres config: %w'' [] (Some err))
              | None \<Rightarrow> Inr (''postgres '' @ addr))
           else Inl (Errorf ''unsupported sql driver %q'' [FStr (sql_driver cfg)] None)))"

definition NewSQLChecker ::
    "tls_env \<Rightarrow> (sql_check_config \<Rightarrow> go_error option) \<Rightarrow> (string \<Rightarrow> go_error + ('r \<Rightarrow> jq_out)) \<Rightarrow> sql_check_config \<Rightarrow>
     go_error + 'r sql_checker" where
  "NewSQLChecker env accept jq cfg =
     (case sqlConnector env accept cfg of
        Inl err \<Rightarrow> Inl err
      | Inr target \<Rightarrow> map_sum id (\<lambda>c. c\<lparr>sc_target := target\<rparr>) (newSQLChecker jq cfg))"

text \<open>Values as the driver delivers them, and as jq takes them; \<open>'d\<close> are the types only a driver knows.\<close>

datatype 'd sql_value =
    SqlNil | SqlBytes string | SqlString string | SqlInt64 int | SqlInt32 int | SqlInt int
  | SqlFloat32 rat | SqlFloat64 rat | SqlBool bool | SqlTime go_time | SqlOther 'd

datatype 'j jq_value = JNull | JText string | JInt int | JFloat rat | JBool bool | JOther 'j

definition isNumericSQLType :: "string \<Rightarrow> bool" where
  "isNumericSQLType name =
     (let base = to_upper (if has_prefix name ''UNSIGNED '' then drop (length ''UNSIGNED '') name else name)
      in List.member [''TINYINT'', ''SMALLINT'', ''MEDIUMINT'', ''INT'', ''INTEGER'', ''BIGINT'', ''DECIMAL'', ''NUMERIC'',
           ''FLOAT'', ''DOUBLE'', ''REAL'', ''INT2'', ''INT4'', ''INT8'', ''FLOAT4'', ''FLOAT8'', ''OID'', ''YEAR''] base)"

text \<open>\<open>strconv.ParseInt (s, 10, 0)\<close>: an optional sign and digits, within 64 bits.\<close>

definition parse_int64 :: "string \<Rightarrow> int option" where
  "parse_int64 s =
     (let neg = has_prefix s ''-''; body = (if neg \<or> has_prefix s ''+'' then tl s else s) in
      if body = [] then None
      else case digits_from 0 body of
             None \<Rightarrow> None
           | Some n \<Rightarrow>
               if neg then (if int n \<le> 2 ^ 63 then Some (- int n) else None)
               else if int n < 2 ^ 63 then Some (int n) else None)"

definition normalizeSQLString :: "(string \<Rightarrow> rat option) \<Rightarrow> string \<Rightarrow> bool \<Rightarrow> 'j jq_value" where
  "normalizeSQLString parse_float s numeric =
     (if \<not> numeric then JText s
      else case parse_int64 s of
             Some i \<Rightarrow> JInt i
           | None \<Rightarrow> (case parse_float s of Some f \<Rightarrow> JFloat f | None \<Rightarrow> JText s))"

text \<open>\<open>time_text\<close> is the RFC 3339 text in UTC, \<open>json_of\<close> the round trip through JSON of a driver's own type.\<close>

definition normalizeSQLValue ::
    "(string \<Rightarrow> rat option) \<Rightarrow> (go_time \<Rightarrow> string) \<Rightarrow> ('d \<Rightarrow> 'j jq_value) \<Rightarrow> 'd sql_value \<Rightarrow> bool \<Rightarrow> 'j jq_value" where
  "normalizeSQLValue parse_float time_text json_of v numeric =
     (case v of
        SqlNil \<Rightarrow> JNull
      | SqlBytes s \<Rightarrow> normalizeSQLString parse_float s numeric
      | SqlString s \<Rightarrow> normalizeSQLString parse_float s numeric
      | SqlInt64 i \<Rightarrow> JInt i
      | SqlInt32 i \<Rightarrow> JInt i
      | SqlInt i \<Rightarrow> JInt i
      | SqlFloat32 f \<Rightarrow> JFloat f
      | SqlFloat64 f \<Rightarrow> JFloat f
      | SqlBool b \<Rightarrow> JBool b
      | SqlTime t \<Rightarrow> JText (time_text t)
      | SqlOther d \<Rightarrow> json_of d)"

text \<open>
  What a statement returns: an error, or columns with their database types and the rows; a row is the error of
  scanning it or its values, and \<open>rw_err\<close> is \<open>rows.Err\<close> after the loop.
\<close>

record 'd sql_rows =
  rw_cols :: "go_error + string list"
  rw_types :: "go_error + string list"
  rw_rows :: "(go_error + 'd sql_value list) list"
  rw_err :: "go_error option"

record ('d, 'j) sql_conv =
  cv_float :: "string \<Rightarrow> rat option"
  cv_time :: "go_time \<Rightarrow> string"
  cv_json :: "'d \<Rightarrow> 'j jq_value"

definition sql_row :: "('d, 'j) sql_conv \<Rightarrow> string list \<Rightarrow> bool list \<Rightarrow> 'd sql_value list \<Rightarrow> (string, 'j jq_value) gomap" where
  "sql_row cv cols numeric raw =
     fold (\<lambda>(col, num, v). gm_put col (normalizeSQLValue (cv_float cv) (cv_time cv) (cv_json cv) v num))
       (zip cols (zip numeric raw)) []"

text \<open>The loop \<open>for rows.Next () && len (out) < maxRows\<close>; \<open>n\<close> is how many more rows are taken.\<close>

fun scan_rows ::
    "('d, 'j) sql_conv \<Rightarrow> string list \<Rightarrow> bool list \<Rightarrow> nat \<Rightarrow> (go_error + 'd sql_value list) list \<Rightarrow>
     go_error + (string, 'j jq_value) gomap list" where
  "scan_rows cv cols numeric n [] = Inr []"
| "scan_rows cv cols numeric 0 (r # rs) = Inr []"
| "scan_rows cv cols numeric (Suc n) (r # rs) =
     (case r of
        Inl err \<Rightarrow> Inl err
      | Inr raw \<Rightarrow>
          (case scan_rows cv cols numeric n rs of
             Inl err \<Rightarrow> Inl err
           | Inr out \<Rightarrow> Inr (sql_row cv cols numeric raw # out)))"

definition runQuery ::
    "('d, 'j) sql_conv \<Rightarrow> go_error + 'd sql_rows \<Rightarrow> nat \<Rightarrow>
     (string, 'j jq_value) gomap list \<times> go_error option" where
  "runQuery cv answer maxRows =
     (case answer of
        Inl err \<Rightarrow> ([], Some err)
      | Inr rows \<Rightarrow>
          (case (rw_cols rows, rw_types rows) of
             (Inl err, _) \<Rightarrow> ([], Some err)
           | (_, Inl err) \<Rightarrow> ([], Some err)
           | (Inr cols, Inr types) \<Rightarrow>
               (case scan_rows cv cols (map isNumericSQLType types) maxRows (rw_rows rows) of
                  Inl err \<Rightarrow> ([], Some err)
                | Inr out \<Rightarrow> (out, rw_err rows))))"

text \<open>\<open>evalJQ\<close>: nil when the first output is \<open>true\<close>.\<close>

definition evalJQ :: "('r \<Rightarrow> jq_out) \<Rightarrow> 'r \<Rightarrow> go_error option" where
  "evalJQ q rows =
     (case q rows of
        JqNone \<Rightarrow> Some (Errorf ''result_jq produced no output'' [] None)
      | JqError err \<Rightarrow> Some (Errorf ''result_jq: %w'' [] (Some err))
      | JqValue is_true text \<Rightarrow>
          if is_true then None else Some (Errorf ''result_jq is not true: %v'' [FStr text] None))"

text \<open>
  The loop over the queries: \<open>answer i sql\<close> is what the \<open>i\<close>-th statement returns and \<open>qdur i\<close> how long it took.
  The result is the details and the failure that ends the loop, if any.
\<close>

fun sql_loop ::
    "('d, 'j) sql_conv \<Rightarrow> (nat \<Rightarrow> string \<Rightarrow> go_error + 'd sql_rows) \<Rightarrow> (nat \<Rightarrow> go_duration) \<Rightarrow> nat \<Rightarrow> nat \<Rightarrow>
     (string, 'j jq_value) gomap list sql_query list \<Rightarrow>
     sql_query_details list \<times> (string \<times> go_error) option" where
  "sql_loop cv answer qdur maxRows i [] = ([], None)"
| "sql_loop cv answer qdur maxRows i (q # qs) =
     (let (rows, err) = runQuery cv (answer i (sqq_sql q)) maxRows;
          qd = \<lparr>sq_name = sqq_name q, sq_rows = int (length rows), sq_duration = qdur i, sq_passed = False\<rparr>;
          verdict = (case err of
                       Some e \<Rightarrow> Some e
                     | None \<Rightarrow> (case sqq_jq q of None \<Rightarrow> None | Some jq \<Rightarrow> evalJQ jq rows))
      in case verdict of
           Some e \<Rightarrow> ([qd], Some (sqq_name q, e))
         | None \<Rightarrow>
             (let (details, failure) = sql_loop cv answer qdur maxRows (i + 1) qs
              in (qd\<lparr>sq_passed := True\<rparr> # details, failure)))"

definition sqlMaxRowsDefault :: int where "sqlMaxRowsDefault = 100"

definition sql_Check ::
    "(string, 'j jq_value) gomap list sql_checker \<Rightarrow> ('d, 'j) sql_conv \<Rightarrow> go_error option \<Rightarrow>
     (nat \<Rightarrow> string \<Rightarrow> go_error + 'd sql_rows) \<Rightarrow> (nat \<Rightarrow> go_duration) \<Rightarrow> ctx_err \<Rightarrow> go_duration \<Rightarrow> check_result" where
  "sql_Check c cv conn answer qdur ctx elapsed =
     (let fail = (\<lambda>err detail details. (failed elapsed (Some err) detail)
                    \<lparr>res_details := Some (SQLDetails details), res_timed_out := ctx \<noteq> CtxNone\<rparr>) in
      case conn of
        Some err \<Rightarrow> fail err (sprintf ''%s: connect: %v'' [FStr (sc_target c), FStr (error_text err)] []) []
      | None \<Rightarrow>
          (let maxRows = (if sql_max_rows (sc_cfg c) \<le> 0 then sqlMaxRowsDefault else sql_max_rows (sc_cfg c));
               (details, failure) = sql_loop cv answer qdur (nat maxRows) 0 (sc_queries c)
           in case failure of
                Some (name, err) \<Rightarrow>
                  fail err (sprintf ''%s: query %s: %v'' [FStr (sc_target c), FStr name, FStr (error_text err)] []) details
              | None \<Rightarrow>
                  (passed elapsed (sprintf ''%s: %d queries ok'' [FStr (sc_target c), FInt (int (length (sc_queries c)))] []))
                    \<lparr>res_details := Some (SQLDetails details)\<rparr>))"

section \<open>gRPC\<close>

definition grpcCodesByName :: "(string, uint32) gomap" where
  "grpcCodesByName =
     [(''ok'', 0), (''canceled'', 1), (''unknown'', 2), (''invalidargument'', 3), (''deadlineexceeded'', 4),
      (''notfound'', 5), (''alreadyexists'', 6), (''permissiondenied'', 7), (''resourceexhausted'', 8),
      (''failedprecondition'', 9), (''aborted'', 10), (''outofrange'', 11), (''unimplemented'', 12), (''internal'', 13),
      (''unavailable'', 14), (''dataloss'', 15), (''unauthenticated'', 16)]"

definition parseGRPCCode :: "string \<Rightarrow> uint32 option" where
  "parseGRPCCode name = map_of grpcCodesByName (to_lower (filter (\<lambda>c. c \<noteq> CHR ''_'') name))"

fun parse_ok_codes :: "string list \<Rightarrow> go_error + uint32 list" where
  "parse_ok_codes [] = Inr []"
| "parse_ok_codes (name # names) =
     (case parseGRPCCode name of
        None \<Rightarrow> Inl (Errorf ''grpc: unknown status code %q in ok_codes'' [FStr name] None)
      | Some c \<Rightarrow> (case parse_ok_codes names of Inl err \<Rightarrow> Inl err | Inr cs \<Rightarrow> Inr (c # cs)))"

record grpc_checker =
  gc_cfg :: grpc_check_config
  gc_tls :: "tls_config option"
  gc_ok_codes :: "uint32 list"
  gc_method :: string

text \<open>\<open>new\<close> is \<open>grpc.NewClient\<close> on the address.\<close>

definition NewGRPCChecker :: "tls_env \<Rightarrow> (string \<Rightarrow> go_error option) \<Rightarrow> grpc_check_config \<Rightarrow> go_error + grpc_checker" where
  "NewGRPCChecker env new cfg =
     (if grpc_tls_insecure cfg \<and> grpc_tls_ca_cert cfg \<noteq> [] then
        Inl (Errorf ''tls_ca_cert cannot be set together with tls_insecure'' [] None)
      else
        case (if grpc_tls cfg \<and> grpc_tls_ca_cert cfg \<noteq> []
              then map_sum id Some (load_ca env False (grpc_tls_ca_cert cfg)) else Inr None) of
          Inl err \<Rightarrow> Inl err
        | Inr cas \<Rightarrow>
        (let addr = JoinHostPort (grpc_host cfg) (uint_text (grpc_port cfg)) in
         case new addr of
          Some err \<Rightarrow> Inl (Errorf ''grpc: creating client for %s: %w'' [FStr addr] (Some err))
        | None \<Rightarrow>
        (case parse_ok_codes (grpc_ok_codes cfg) of
          Inl err \<Rightarrow> Inl err
        | Inr codes \<Rightarrow>
            Inr \<lparr>gc_cfg = cfg,
                 gc_tls = (if grpc_tls cfg
                           then Some \<lparr>tc_insecure = grpc_tls_insecure cfg, tc_server_name = grpc_tls_server_name cfg,
                                      tc_root_cas = cas\<rparr>
                           else None),
                 gc_ok_codes = (if codes = [] then [0] else codes),
                 gc_method = (if grpc_method cfg \<noteq> [] \<and> \<not> has_prefix (grpc_method cfg) ''/''
                              then ''/'' @ grpc_method cfg else grpc_method cfg)\<rparr>)))"

text \<open>
  The answer of a call: the error as returned (\<open>None\<close> on success), with the code and message of its status; a
  health answer has the serving status and its name. \<open>SERVING\<close> is 1.
\<close>

record grpc_answer =
  ga_err :: "go_error option"
  ga_code :: uint32
  ga_message :: string
  ga_serving :: int
  ga_serving_text :: string

definition grpc_target :: "grpc_check_config \<Rightarrow> string" where
  "grpc_target cfg = grpc_host cfg @ '':'' @ uint_text (grpc_port cfg)"

definition checkStandardHealth :: "grpc_checker \<Rightarrow> grpc_answer \<Rightarrow> ctx_err \<Rightarrow> go_duration \<Rightarrow> check_result" where
  "checkStandardHealth c a ctx dur =
     (let cfg = gc_cfg c;
          what = sprintf ''grpc health check %s service=%q: '' [FStr (grpc_target cfg), FStr (grpc_service cfg)] [] in
      case ga_err a of
        Some err \<Rightarrow>
          (failed dur (Some err) (what @ ga_message a))
            \<lparr>res_timed_out := ctx \<noteq> CtxNone,
             res_details := Some (GRPCDetails \<lparr>gd_status_code = ga_code a, gd_serving_status = []\<rparr>)\<rparr>
      | None \<Rightarrow>
          (let details = Some (GRPCDetails \<lparr>gd_status_code = 0, gd_serving_status = ga_serving_text a\<rparr>) in
           if ga_serving a \<noteq> 1 then
             (failed dur (Some (Errorf ''not serving: %s'' [FStr (ga_serving_text a)] None))
                (what @ ''status='' @ ga_serving_text a @ '' (want SERVING)''))\<lparr>res_details := details\<rparr>
           else (passed dur (what @ ''SERVING''))\<lparr>res_details := details\<rparr>))"

definition checkCustomMethod ::
    "grpc_checker \<Rightarrow> (uint32 \<Rightarrow> string) \<Rightarrow> grpc_answer \<Rightarrow> ctx_err \<Rightarrow> go_duration \<Rightarrow> check_result" where
  "checkCustomMethod c code_text a ctx dur =
     (let cfg = gc_cfg c;
          detail = ''grpc '' @ grpc_target cfg @ gc_method c @ '': code='' @ code_text (ga_code a);
          details = Some (GRPCDetails \<lparr>gd_status_code = ga_code a, gd_serving_status = []\<rparr>) in
      if \<not> List.member (gc_ok_codes c) (ga_code a) then
        (failed dur
           (case ga_err a of Some err \<Rightarrow> Some err
            | None \<Rightarrow> Some (Errorf ''unexpected status %s'' [FStr (code_text (ga_code a))] None))
           (if ga_message a \<noteq> [] then detail @ '': '' @ ga_message a else detail))
          \<lparr>res_timed_out := ctx \<noteq> CtxNone, res_details := details\<rparr>
      else (passed dur detail)\<lparr>res_details := details\<rparr>)"

text \<open>Both calls take the configured metadata along; what comes back is the argument.\<close>

definition grpc_Check ::
    "grpc_checker \<Rightarrow> (uint32 \<Rightarrow> string) \<Rightarrow> (string \<Rightarrow> (string, string) gomap \<Rightarrow> grpc_answer) \<Rightarrow> ctx_err \<Rightarrow> go_duration \<Rightarrow>
     check_result" where
  "grpc_Check c code_text call ctx elapsed =
     (if gc_method c = [] then
        checkStandardHealth c (call ''/grpc.health.v1.Health/Check'' (grpc_metadata (gc_cfg c))) ctx elapsed
      else checkCustomMethod c code_text (call (gc_method c) (grpc_metadata (gc_cfg c))) ctx elapsed)"

section \<open>Kafka\<close>

datatype kafka_opt =
    SeedBrokers string | ClientID string | RequestRetries nat | DialTimeout go_duration
  | RequestTimeoutOverhead go_duration | ConnIdleTimeout go_duration | DialTLSConfig tls_config | SASLMechanism sasl_mech
and sasl_mech = SASLPlain string string | SASLScram256 string string | SASLScram512 string string

record kafka_checker =
  kc_cfg :: kafka_check_config
  kc_opts :: "kafka_opt list"
  kc_target :: string

definition kafkaTLSConfig :: "tls_env \<Rightarrow> kafka_check_config \<Rightarrow> go_error + tls_config" where
  "kafkaTLSConfig env cfg =
     (let tc = \<lparr>tc_insecure = kf_tls_insecure cfg,
                tc_server_name = (if kf_tls_server_name cfg = [] then kf_host cfg else kf_tls_server_name cfg),
                tc_root_cas = None\<rparr> in
      if kf_tls_ca_cert cfg = [] then Inr tc
      else case load_ca env False (kf_tls_ca_cert cfg) of
             Inl err \<Rightarrow> Inl err | Inr pem \<Rightarrow> Inr (tc\<lparr>tc_root_cas := Some pem\<rparr>))"

definition kafkaSASL :: "kafka_sasl_config \<Rightarrow> go_error + sasl_mech" where
  "kafkaSASL s =
     (if sasl_mechanism s = ''plain'' then Inr (SASLPlain (sasl_user s) (sasl_password s))
      else if sasl_mechanism s = ''scram-sha-256'' then Inr (SASLScram256 (sasl_user s) (sasl_password s))
      else if sasl_mechanism s = ''scram-sha-512'' then Inr (SASLScram512 (sasl_user s) (sasl_password s))
      else Inl (Errorf ''unsupported sasl mechanism %q'' [FStr (sasl_mechanism s)] None))"

definition NewKafkaChecker :: "tls_env \<Rightarrow> kafka_check_config \<Rightarrow> go_error + kafka_checker" where
  "NewKafkaChecker env cfg =
     (let addr = JoinHostPort (kf_host cfg) (uint_text (kf_port cfg));
          opts = [SeedBrokers addr, ClientID (if kf_client_id cfg = [] then ''pathosd'' else kf_client_id cfg),
                  RequestRetries 0, DialTimeout 5000000000, RequestTimeoutOverhead 5000000000,
                  ConnIdleTimeout 1000000000] in
      case (if kf_tls cfg then map_sum id (\<lambda>tc. [DialTLSConfig tc]) (kafkaTLSConfig env cfg) else Inr []) of
        Inl err \<Rightarrow> Inl err
      | Inr tls \<Rightarrow>
          (case (case kf_sasl cfg of None \<Rightarrow> Inr [] | Some s \<Rightarrow> map_sum id (\<lambda>m. [SASLMechanism m]) (kafkaSASL s)) of
             Inl err \<Rightarrow> Inl err
           | Inr sasl \<Rightarrow> Inr \<lparr>kc_cfg = cfg, kc_opts = opts @ tls @ sasl, kc_target = ''kafka '' @ addr\<rparr>))"

record kafka_partition =
  kp_partition :: int
  kp_leader :: int
  kp_err :: "go_error option"

record kafka_topic =
  kt_topic :: string
  kt_err :: "go_error option"
  kt_partitions :: "kafka_partition list"

record kafka_meta =
  km_cluster :: string
  km_controller :: int
  km_brokers :: nat
  km_topics :: "(string, kafka_topic) gomap"

definition leaderless :: "kafka_partition \<Rightarrow> bool" where
  "leaderless p \<longleftrightarrow> kp_err p \<noteq> None \<or> kp_leader p < 0"

definition leader_error :: "kafka_partition \<Rightarrow> go_error" where
  "leader_error p =
     (case kp_err p of
        Some err \<Rightarrow> Errorf ''partition %d: %w'' [FInt (kp_partition p)] (Some err)
      | None \<Rightarrow> Errorf ''partition %d has no leader'' [FInt (kp_partition p)] None)"

text \<open>The partition count, how many lack a leader, and the error; \<open>firstErr\<close> belongs to the lowest such partition.\<close>

definition evalKafkaTopic :: "kafka_topic \<Rightarrow> int \<times> int \<times> go_error option" where
  "evalKafkaTopic td =
     (case kt_err td of
        Some err \<Rightarrow> (0, 0, Some (Errorf ''topic %q: %w'' [FStr (kt_topic td)] (Some err)))
      | None \<Rightarrow>
          (let n = int (length (kt_partitions td));
               bad = filter leaderless (sort_key kp_partition (kt_partitions td)) in
           if n = 0 then (0, 0, Some (Errorf ''topic %q has no partitions'' [FStr (kt_topic td)] None))
           else case bad of
                  [] \<Rightarrow> (n, 0, None)
                | p # _ \<Rightarrow>
                    (n, int (length bad),
                     Some (Errorf ''topic %q: %d of %d partitions without leader (%w)''
                             [FStr (kt_topic td), FInt (int (length bad)), FInt n] (Some (leader_error p))))))"

text \<open>\<open>meta\<close> is what the admin client returns for the topic of the configuration (or for no topic).\<close>

definition kafka_Check ::
    "kafka_checker \<Rightarrow> go_error option \<Rightarrow> go_error + kafka_meta \<Rightarrow> ctx_err \<Rightarrow> go_duration \<Rightarrow> check_result" where
  "kafka_Check c client answer ctx elapsed =
     (let cfg = kc_cfg c;
          zero = \<lparr>kd_cluster_id = [], kd_controller = 0, kd_brokers = 0, kd_topic = kf_topic cfg, kd_partitions = 0,
                  kd_partitions_without_leader = 0\<rparr>;
          fail = (\<lambda>err detail details. (failed elapsed (Some err) (kc_target c @ '': '' @ detail))
                    \<lparr>res_details := Some (KafkaDetails details), res_timed_out := ctx \<noteq> CtxNone\<rparr>) in
      case client of
        Some err \<Rightarrow> fail err (sprintf ''client: %v'' [FStr (error_text err)] []) zero
      | None \<Rightarrow>
      (case answer of
        Inl err \<Rightarrow> fail err (sprintf ''metadata: %v'' [FStr (error_text err)] []) zero
      | Inr meta \<Rightarrow>
          (let brokers = int (km_brokers meta);
               d1 = zero\<lparr>kd_cluster_id := km_cluster meta, kd_controller := km_controller meta, kd_brokers := brokers\<rparr>;
               minBrokers = (if kf_min_brokers cfg \<le> 0 then 1 else kf_min_brokers cfg);
               few = Errorf ''%d brokers in metadata, need %d'' [FInt brokers, FInt minBrokers] None in
           if brokers < minBrokers then fail few (error_text few) d1
           else if kf_topic cfg = [] then
             (passed elapsed (sprintf ''%s: %d brokers'' [FStr (kc_target c), FInt brokers] []))
               \<lparr>res_details := Some (KafkaDetails d1)\<rparr>
           else
             (let missing = Errorf ''topic %q not in metadata'' [FStr (kf_topic cfg)] None in
              case map_of (km_topics meta) (kf_topic cfg) of
                None \<Rightarrow> fail missing (error_text missing) d1
              | Some td \<Rightarrow>
                  (let (n, bad, err) = evalKafkaTopic td;
                       d2 = d1\<lparr>kd_partitions := n, kd_partitions_without_leader := bad\<rparr> in
                   case err of
                     Some e \<Rightarrow> fail e (error_text e) d2
                   | None \<Rightarrow>
                       (passed elapsed (sprintf ''%s: %d brokers, topic %s: %d partitions with leader''
                          [FStr (kc_target c), FInt brokers, FStr (kf_topic cfg), FInt n] []))
                         \<lparr>res_details := Some (KafkaDetails d2)\<rparr>)))))"

end
