(* ===== verification/Validate.thy ===== *)
theory Validate
  imports Defaults Checks_Policy
begin

text \<open>
  Validation of a configuration (\<open>internal/config/validate.go\<close>). Every validator returns its errors in the
  order the code appends them; an error is its path and message as the code formats them.

  \<open>regexp.Compile\<close>, \<open>gojq.Parse\<close>, \<open>url.Parse\<close> and the compiler of the expression language are the record
  \<open>validators\<close>, an argument. The canonical text of a prefix (\<open>IPNet.String\<close>) is represented by the address and
  the length it prints.
\<close>

record validators =
  vd_regexp :: "string \<Rightarrow> go_error option"
  vd_jq :: "string \<Rightarrow> go_error option"
  vd_url :: url_parser
  vd_expr :: expr_compiler

definition verr :: "string \<Rightarrow> string \<Rightarrow> go_error" where
  "verr path msg = Errorf ''%s: %s'' [FStr path, FStr msg] None"

text \<open>One call of the closure \<open>add\<close>, under a condition.\<close>

definition add_if :: "bool \<Rightarrow> string \<Rightarrow> string \<Rightarrow> go_error list" where
  "add_if b path msg = (if b then [verr path msg] else [])"

definition sprint :: "string \<Rightarrow> fmt_arg list \<Rightarrow> string" where
  "sprint f args = sprintf f args []"

definition index_path :: "string \<Rightarrow> nat \<Rightarrow> string" where
  "index_path p i = sprint (p @ ''[%d]'') [FInt (int i)]"

section \<open>Addresses\<close>

definition isSingleHost :: "string \<Rightarrow> bool" where
  "isSingleHost prefix =
     (case ParseCIDR prefix of None \<Rightarrow> False | Some (ip, ones) \<Rightarrow> ones = BitLen ip)"

definition hasIPv6VIP :: "config \<Rightarrow> bool" where
  "hasIPv6VIP cfg =
     list_ex (\<lambda>v. case ParseCIDR (v_prefix v) of None \<Rightarrow> False | Some (ip, _) \<Rightarrow> \<not> has_To4 ip) (c_vips cfg)"

text \<open>
  What \<open>ipNet.String ()\<close> prints: the network address and its length; an IPv4 network inside the mapped range
  loses the 96 leading bits of its mask.
\<close>

definition canonical_prefix :: "ip_addr \<times> nat \<Rightarrow> ip_addr \<times> nat" where
  "canonical_prefix p =
     (let net = mask_addr (snd p) (fst p)
      in case net of
           IP4 w \<Rightarrow> (IP4 w, snd p)
         | IP6 w z \<Rightarrow> if Is4In6 w then (Unmap net, snd p - 96) else (net, snd p))"

text \<open>
  \<open>net.SplitHostPort\<close>: host and port. The host ends at the last colon; in brackets it may contain colons, and no
  bracket may stand elsewhere.
\<close>

definition SplitHostPort :: "string \<Rightarrow> go_error + string \<times> string" where
  "SplitHostPort s =
     (let fail = (\<lambda>why. Inl (Errorf ''address %s: %s'' [FStr s, FStr why] None)) in
      case split_last CHR '':'' s of
        None \<Rightarrow> fail ''missing port in address''
      | Some (host, port) \<Rightarrow>
          (if hd s = CHR ''['' then
             (case split2 CHR '']'' (tl s) of
                [inner, rest] \<Rightarrow>
                  if rest = [] then fail ''missing port in address''
                  else if rest \<noteq> CHR '':'' # port then
                    fail (if hd rest = CHR '':'' then ''too many colons in address'' else ''missing port in address'')
                  else if CHR ''['' \<in> set inner \<or> CHR ''['' \<in> set rest then fail ''unexpected '[' in address''
                  else if CHR '']'' \<in> set rest then fail ''unexpected ']' in address''
                  else Inr (inner, port)
              | _ \<Rightarrow> fail ''missing ']' in address'')
           else if CHR '':'' \<in> set host then fail ''too many colons in address''
           else if CHR ''['' \<in> set s then fail ''unexpected '[' in address''
           else if CHR '']'' \<in> set s then fail ''unexpected ']' in address''
           else Inr (host, port)))"

definition validateGoBGPAPIListen :: "string \<Rightarrow> string option" where
  "validateGoBGPAPIListen listen =
     (if has_prefix listen ''unix://'' then
        (if drop (length ''unix://'') listen = [] then Some ''must include socket path for unix:// listener'' else None)
      else if isl (SplitHostPort listen) then
        Some (sprint ''must be host:port or unix:///path, got %q'' [FStr listen])
      else None)"

section \<open>Policy\<close>

definition community_ok :: "string \<Rightarrow> bool" where
  "community_ok c = (case split2 CHR '':'' c of [a, b] \<Rightarrow> parse_uint 16 a \<noteq> None \<and> parse_uint 16 b \<noteq> None | _ \<Rightarrow> False)"

definition community_error :: "string \<Rightarrow> nat \<Rightarrow> string \<Rightarrow> go_error list" where
  "community_error path i c =
     (case split2 CHR '':'' c of
        [a, b] \<Rightarrow>
          (if parse_uint 16 a = None \<or> parse_uint 16 b = None then
             [Errorf ''%s[%d]: must be in ASN:value form with both parts 0..65535, got %q''
                [FStr path, FInt (int i), FStr c] None]
           else [])
      | _ \<Rightarrow> [Errorf ''%s[%d]: must be in ASN:value form, got %q'' [FStr path, FInt (int i), FStr c] None])"

definition validateCommunities :: "string \<Rightarrow> string list \<Rightarrow> go_error list" where
  "validateCommunities path communities =
     concat (map (\<lambda>(i, c). community_error path i c) (enumerate 0 communities))"

definition validatePolicy :: "string \<Rightarrow> policy_config \<Rightarrow> go_error list" where
  "validatePolicy prefix p =
     (if pc_fail_action p = ''withdraw'' \<or> pc_fail_action p = ''lower_priority'' then []
      else if pc_fail_action p = [] then [verr (prefix @ ''.fail_action'') ''required'']
      else [verr (prefix @ ''.fail_action'')
              (sprint ''must be withdraw or lower_priority, got %q'' [FStr (pc_fail_action p)])]) @
     (case pc_lower_priority p of
        None \<Rightarrow> []
      | Some lp \<Rightarrow>
          (case lp_as_path_prepend lp of
             None \<Rightarrow> []
           | Some v \<Rightarrow> add_if (v < 1 \<or> 16 < v) (prefix @ ''.lower_priority.as_path_prepend'')
                         (sprint ''must be 1..16, got %d'' [FInt v])) @
          validateCommunities (prefix @ ''.lower_priority.communities'') (lp_communities lp)) @
     (case pc_announce p of
        None \<Rightarrow> []
      | Some an \<Rightarrow>
          (case an_as_path_prepend an of
             None \<Rightarrow> []
           | Some v \<Rightarrow> add_if (v < 0 \<or> 16 < v) (prefix @ ''.announce.as_path_prepend'')
                         (sprint ''must be 0..16, got %d'' [FInt v])) @
          validateCommunities (prefix @ ''.announce.communities'') (an_communities an))"

section \<open>Checks\<close>

definition tls_errors :: "string \<Rightarrow> string \<Rightarrow> bool \<Rightarrow> string \<Rightarrow> string \<Rightarrow> go_error list" where
  "tls_errors prefix msg insecure ca server =
     add_if insecure (prefix @ ''.tls_insecure'') msg @
     add_if (ca \<noteq> []) (prefix @ ''.tls_ca_cert'') msg @
     add_if (server \<noteq> []) (prefix @ ''.tls_server_name'') msg"

definition validGRPCCodeNames :: "string list" where
  "validGRPCCodeNames =
     [''ok'', ''canceled'', ''unknown'', ''invalidargument'', ''deadlineexceeded'', ''notfound'', ''alreadyexists'',
      ''permissiondenied'', ''resourceexhausted'', ''failedprecondition'', ''aborted'', ''outofrange'', ''unimplemented'',
      ''internal'', ''unavailable'', ''dataloss'', ''unauthenticated'']"

definition validateGRPCCheck :: "string \<Rightarrow> grpc_check_config \<Rightarrow> string \<Rightarrow> go_error list" where
  "validateGRPCCheck prefix g vipPrefix =
     add_if (grpc_port g = 0) (prefix @ ''.port'') ''required'' @
     add_if (grpc_host g = [] \<and> \<not> isSingleHost vipPrefix) (prefix @ ''.host'')
       ''required when vip prefix is not a /32 or /128'' @
     (if \<not> grpc_tls g then
        tls_errors prefix ''requires tls=true'' (grpc_tls_insecure g) (grpc_tls_ca_cert g) (grpc_tls_server_name g)
      else add_if (grpc_tls_insecure g \<and> grpc_tls_ca_cert g \<noteq> []) (prefix @ ''.tls_ca_cert'')
             ''cannot be set together with tls_insecure'') @
     concat (map (\<lambda>name.
         add_if (\<not> List.member validGRPCCodeNames (to_lower (filter (\<lambda>c. c \<noteq> CHR ''_'') name)))
           (prefix @ ''.ok_codes'') (sprint ''unknown gRPC status code %q'' [FStr name]))
       (grpc_ok_codes g))"

definition validateHTTPCheck :: "validators \<Rightarrow> string \<Rightarrow> http_check_config \<Rightarrow> string \<Rightarrow> go_error list" where
  "validateHTTPCheck vd prefix h vipPrefix =
     add_if (http_proto h \<noteq> [] \<and> \<not> List.member [''http'', ''https''] (http_proto h)) (prefix @ ''.proto'')
       (sprint ''must be http or https, got %q'' [FStr (http_proto h)]) @
     (if http_method h = ''GET'' then []
      else if http_method h = ''HEAD'' then
        (let msg = ''cannot be used with method HEAD (no response body)''
         in add_if (http_response_text h \<noteq> []) (prefix @ ''.response_text'') msg @
            add_if (http_response_regex h \<noteq> []) (prefix @ ''.response_regex'') msg @
            add_if (http_response_jq h \<noteq> []) (prefix @ ''.response_jq'') msg)
      else [verr (prefix @ ''.method'') (sprint ''must be GET or HEAD, got %q'' [FStr (http_method h)])]) @
     add_if (http_host h = [] \<and> \<not> isSingleHost vipPrefix) (prefix @ ''.host'')
       ''required when VIP prefix is not /32 or /128'' @
     (if http_response_regex h = [] then []
      else case vd_regexp vd (http_response_regex h) of
             None \<Rightarrow> []
           | Some e \<Rightarrow> [verr (prefix @ ''.response_regex'') (sprint ''invalid regex: %v'' [FStr (error_text e)])]) @
     add_if (http_tls_ca_cert h \<noteq> [] \<and> http_tls_insecure h) (prefix @ ''.tls_ca_cert'')
       ''cannot be set together with tls_insecure'' @
     (if http_proxy h = [] then []
      else
        (case vd_url vd (http_proxy h) of
           Inr u \<Rightarrow>
             add_if (\<not> List.member [''http'', ''https''] (u_scheme u) \<or> u_host u = []) (prefix @ ''.proxy'')
               (sprint ''must be a valid http:// or https:// proxy URL, got %q'' [FStr (http_proxy h)])
         | Inl _ \<Rightarrow> [verr (prefix @ ''.proxy'')
             (sprint ''must be a valid http:// or https:// proxy URL, got %q'' [FStr (http_proxy h)])]) @
        add_if (http_host h = [] \<or> ParseIP (http_host h) \<noteq> None) (prefix @ ''.proxy'')
          ''requires a full url with a hostname origin (the proxy fetch target)'')"

text \<open>\<open>strings.TrimSpace (s) == ""\<close> on ASCII white space.\<close>

definition blank :: "string \<Rightarrow> bool" where
  "blank s = list_all (\<lambda>c. List.member [9, 10, 11, 12, 13, 32] (of_char c :: nat)) s"

fun validate_queries :: "validators \<Rightarrow> string \<Rightarrow> nat \<Rightarrow> (string, nat) gomap \<Rightarrow> sql_query_config list \<Rightarrow> go_error list" where
  "validate_queries vd prefix i names [] = []"
| "validate_queries vd prefix i names (q # qs) =
     (let qp = index_path (prefix @ ''.queries'') i; name = query_EffectiveName q i in
      add_if (blank (q_sql q)) (qp @ ''.sql'') ''required'' @
      (case map_of names name of
         Some j \<Rightarrow> [verr (qp @ ''.name'') (sprint ''duplicate query name %q (also %s)''
                      [FStr name, FStr (index_path (prefix @ ''.queries'') j)])]
       | None \<Rightarrow> []) @
      (if q_result_jq q = [] then []
       else case vd_jq vd (q_result_jq q) of
              None \<Rightarrow> []
            | Some e \<Rightarrow> [verr (qp @ ''.result_jq'') (sprint ''invalid jq expression: %v'' [FStr (error_text e)])]) @
      validate_queries vd prefix (i + 1) (if map_of names name = None then gm_put name i names else names) qs)"

definition validateSQLCheck :: "validators \<Rightarrow> string \<Rightarrow> sql_check_config \<Rightarrow> string \<Rightarrow> go_error list" where
  "validateSQLCheck vd prefix s vipPrefix =
     (if sql_driver s = SQLDriverMySQL \<or> sql_driver s = SQLDriverPostgres then []
      else if sql_driver s = [] then [verr (prefix @ ''.driver'') ''required (mysql or postgres)'']
      else [verr (prefix @ ''.driver'') (sprint ''must be mysql or postgres, got %q'' [FStr (sql_driver s)])]) @
     add_if (sql_user s = []) (prefix @ ''.user'') ''required'' @
     add_if (sql_host s = [] \<and> \<not> isSingleHost vipPrefix) (prefix @ ''.host'')
       ''required when VIP prefix is not /32 or /128'' @
     add_if (sql_max_rows s < 0) (prefix @ ''.max_rows'') ''must be >= 1'' @
     (if \<not> sql_tls s then
        tls_errors prefix ''requires tls: true'' (sql_tls_insecure s) (sql_tls_ca_cert s) (sql_tls_server_name s)
      else []) @
     add_if (sql_tls_insecure s \<and> sql_tls_ca_cert s \<noteq> []) (prefix @ ''.tls_insecure'') ''mutually exclusive with tls_ca_cert'' @
     validate_queries vd prefix 0 [] (sql_queries s)"

definition KafkaSASLMechanisms :: "string list" where
  "KafkaSASLMechanisms = [''plain'', ''scram-sha-256'', ''scram-sha-512'']"

definition validateKafkaCheck :: "string \<Rightarrow> kafka_check_config \<Rightarrow> string \<Rightarrow> go_error list" where
  "validateKafkaCheck prefix k vipPrefix =
     add_if (kf_host k = [] \<and> \<not> isSingleHost vipPrefix) (prefix @ ''.host'')
       ''required when VIP prefix is not /32 or /128'' @
     add_if (kf_min_brokers k < 0) (prefix @ ''.min_brokers'') ''must be >= 1'' @
     (if \<not> kf_tls k then
        tls_errors prefix ''requires tls: true'' (kf_tls_insecure k) (kf_tls_ca_cert k) (kf_tls_server_name k)
      else []) @
     add_if (kf_tls_insecure k \<and> kf_tls_ca_cert k \<noteq> []) (prefix @ ''.tls_insecure'') ''mutually exclusive with tls_ca_cert'' @
     (case kf_sasl k of
        None \<Rightarrow> []
      | Some s \<Rightarrow>
          (if List.member KafkaSASLMechanisms (sasl_mechanism s) then []
           else if sasl_mechanism s = [] then
             [verr (prefix @ ''.sasl.mechanism'') ''required (plain, scram-sha-256 or scram-sha-512)'']
           else [verr (prefix @ ''.sasl.mechanism'')
                   (sprint ''must be plain, scram-sha-256 or scram-sha-512, got %q'' [FStr (sasl_mechanism s)])]) @
          add_if (sasl_user s = []) (prefix @ ''.sasl.user'') ''required'' @
          add_if (sasl_password s = []) (prefix @ ''.sasl.password'') ''required'')"

text \<open>The message for a missing block of a check of the given type.\<close>

definition block_required :: "string \<Rightarrow> string \<Rightarrow> go_error" where
  "block_required prefix type = verr (prefix @ ''.'' @ type) (''required when type is '' @ quote type)"

text \<open>The host of a check may stay empty only on a VIP of one address.\<close>

definition host_errors :: "string \<Rightarrow> string \<Rightarrow> string \<Rightarrow> go_error list" where
  "host_errors path host vipPrefix =
     add_if (host = [] \<and> \<not> isSingleHost vipPrefix) path ''required when vip prefix is not a /32 or /128''"

definition validQTypes :: "string list" where
  "validQTypes = [''A'', ''AAAA'', ''CNAME'', ''PTR'', ''NS'', ''MX'', ''SOA'', ''TXT'', ''SRV'']"

definition validate_dns :: "string \<Rightarrow> dns_check_config \<Rightarrow> go_error list" where
  "validate_dns prefix d =
     add_if (dns_names d = []) (prefix @ ''.dns.names'') ''at least one DNS name is required'' @
     add_if (\<not> List.member validQTypes (to_upper (dns_query_type d))) (prefix @ ''.dns.query_type'')
       (sprint ''unsupported query type %q'' [FStr (dns_query_type d)])"

definition validate_ping :: "string \<Rightarrow> ping_check_config \<Rightarrow> string \<Rightarrow> go_error list" where
  "validate_ping prefix p vipPrefix =
     (if ping_dst_ip p = [] then host_errors (prefix @ ''.ping.dst_ip'') [] vipPrefix
      else add_if (ParseIP (ping_dst_ip p) = None) (prefix @ ''.ping.dst_ip'')
             (sprint ''must be a valid IP address, got %q'' [FStr (ping_dst_ip p)])) @
     add_if (ping_src_ip p \<noteq> [] \<and> ParseIP (ping_src_ip p) = None) (prefix @ ''.ping.src_ip'')
       (sprint ''must be a valid IP address, got %q'' [FStr (ping_src_ip p)]) @
     add_if (ping_count p < 1 \<or> 60 < ping_count p) (prefix @ ''.ping.count'')
       (sprint ''must be 1..60, got %d'' [FInt (ping_count p)]) @
     add_if (ping_max_loss_ratio p < 0 \<or> 1 \<le> ping_max_loss_ratio p) (prefix @ ''.ping.max_loss_ratio'')
       (sprint ''must be 0 <= x < 1.0, got %f'' [FRat (ping_max_loss_ratio p)])"

definition validate_listen :: "string \<Rightarrow> listen_check_config \<Rightarrow> string \<Rightarrow> go_error list" where
  "validate_listen prefix l vipPrefix =
     add_if (ls_proto l \<noteq> ''tcp'' \<and> ls_proto l \<noteq> ''udp'') (prefix @ ''.listen.proto'')
       (sprint ''must be tcp or udp, got %q'' [FStr (ls_proto l)]) @
     add_if (ls_port l = 0) (prefix @ ''.listen.port'') ''required'' @
     host_errors (prefix @ ''.listen.host'') (ls_host l) vipPrefix @
     add_if (ls_host l \<noteq> [] \<and> isl (ParseAddr (ls_host l))) (prefix @ ''.listen.host'')
       ''must be an IP address (no DNS names)'' @
     add_if (ls_netns_pid l < 0) (prefix @ ''.listen.netns_pid'') ''must be >= 0''"

definition validateCheck :: "validators \<Rightarrow> string \<Rightarrow> check_config \<Rightarrow> string \<Rightarrow> go_error list" where
  "validateCheck vd prefix c vipPrefix =
     (if ck_type c = CheckTypeHTTP then
        (case ck_http c of
           None \<Rightarrow> [block_required prefix ''http'']
         | Some h \<Rightarrow> validateHTTPCheck vd (prefix @ ''.http'') h vipPrefix)
      else if ck_type c = CheckTypeDNS then
        (case ck_dns c of None \<Rightarrow> [block_required prefix ''dns''] | Some d \<Rightarrow> validate_dns prefix d)
      else if ck_type c = CheckTypePing then
        (case ck_ping c of None \<Rightarrow> [block_required prefix ''ping''] | Some p \<Rightarrow> validate_ping prefix p vipPrefix)
      else if ck_type c = CheckTypeUDP then
        (case ck_udp c of
           None \<Rightarrow> [block_required prefix ''udp'']
         | Some u \<Rightarrow>
             add_if (udp_port u = 0) (prefix @ ''.udp.port'') ''required'' @
             host_errors (prefix @ ''.udp.host'') (udp_host u) vipPrefix)
      else if ck_type c = CheckTypeListen then
        (case ck_listen c of None \<Rightarrow> [block_required prefix ''listen''] | Some l \<Rightarrow> validate_listen prefix l vipPrefix)
      else if ck_type c = CheckTypeTCP then
        (case ck_tcp c of
           None \<Rightarrow> [block_required prefix ''tcp'']
         | Some t \<Rightarrow>
             add_if (tcp_port t = 0) (prefix @ ''.tcp.port'') ''required'' @
             host_errors (prefix @ ''.tcp.host'') (tcp_host t) vipPrefix)
      else if ck_type c = CheckTypeSQL then
        (case ck_sql c of
           None \<Rightarrow> [block_required prefix ''sql'']
         | Some s \<Rightarrow> validateSQLCheck vd (prefix @ ''.sql'') s vipPrefix)
      else if ck_type c = CheckTypeKafka then
        (case ck_kafka c of
           None \<Rightarrow> [block_required prefix ''kafka'']
         | Some k \<Rightarrow> validateKafkaCheck (prefix @ ''.kafka'') k vipPrefix)
      else if ck_type c = CheckTypeGRPC then
        (case ck_grpc c of
           None \<Rightarrow> [block_required prefix ''grpc'']
         | Some g \<Rightarrow> validateGRPCCheck (prefix @ ''.grpc'') g vipPrefix)
      else if ck_type c = [] then [verr (prefix @ ''.type'') ''required'']
      else [verr (prefix @ ''.type'') (sprint ''unsupported check type %q'' [FStr (ck_type c)])])"

section \<open>VIPs\<close>

text \<open>Whether the single \<open>check\<close> of a VIP is configured.\<close>

definition single_check :: "check_config \<Rightarrow> bool" where
  "single_check c \<longleftrightarrow>
     ck_type c \<noteq> [] \<or> ck_http c \<noteq> None \<or> ck_dns c \<noteq> None \<or> ck_ping c \<noteq> None \<or> ck_tcp c \<noteq> None \<or>
     ck_udp c \<noteq> None \<or> ck_grpc c \<noteq> None \<or> ck_listen c \<noteq> None \<or> ck_sql c \<noteq> None \<or> ck_kafka c \<noteq> None"

definition checkPath :: "string \<Rightarrow> vip_config \<Rightarrow> nat \<Rightarrow> string" where
  "checkPath prefix v i = (if v_checks v \<noteq> [] then index_path (prefix @ ''.checks'') i else prefix @ ''.check'')"

text \<open>The loop body over the checks, with the map of the names seen so far.\<close>

definition check_errors ::
    "validators \<Rightarrow> string \<Rightarrow> vip_config \<Rightarrow> nat \<Rightarrow> (string, nat) gomap \<Rightarrow> check_config \<Rightarrow> go_error list" where
  "check_errors vd prefix v i checkNames c =
     (let path = checkPath prefix v i; name = check_EffectiveName c in
      (if ck_name c = [] then []
       else case ValidateCheckName (ck_name c) of
              None \<Rightarrow> [] | Some e \<Rightarrow> [verr (path @ ''.name'') (error_text e)]) @
      (case map_of checkNames name of
         None \<Rightarrow> []
       | Some j \<Rightarrow>
           (if ck_name c = [] then
              [verr (path @ ''.name'') (sprint ''required: another %s check (%s) has no name either''
                 [FStr (ck_type c), FStr (checkPath prefix v j)])]
            else
              [verr (path @ ''.name'') (sprint ''duplicate check name %q (also %s)''
                 [FStr name, FStr (checkPath prefix v j)])])) @
      (case (ck_interval c, ck_timeout c) of
         (Some iv, Some tmo) \<Rightarrow>
           add_if (iv \<le> tmo) (path @ ''.timeout'')
             (sprint ''must be less than interval (%s), got %s'' [FDur iv, FDur tmo])
       | _ \<Rightarrow> []) @
      (case ck_rise c of None \<Rightarrow> [] | Some n \<Rightarrow> add_if (n < 1) (path @ ''.rise'') ''must be >= 1'') @
      (case ck_fall c of None \<Rightarrow> [] | Some n \<Rightarrow> add_if (n < 1) (path @ ''.fall'') ''must be >= 1'') @
      validateCheck vd path c (v_prefix v))"

fun validate_checks ::
    "validators \<Rightarrow> string \<Rightarrow> vip_config \<Rightarrow> nat \<Rightarrow> (string, nat) gomap \<Rightarrow> check_config list \<Rightarrow>
     go_error list \<times> (string, nat) gomap" where
  "validate_checks vd prefix v i checkNames [] = ([], checkNames)"
| "validate_checks vd prefix v i checkNames (c # cs) =
     (let name = check_EffectiveName c;
          checkNames' = (if map_of checkNames name = None then gm_put name i checkNames else checkNames);
          (errs, seen) = validate_checks vd prefix v (i + 1) checkNames' cs
      in (check_errors vd prefix v i checkNames c @ errs, seen))"

text \<open>
  The maps \<open>names\<close> and \<open>prefixes\<close>, which the code shares over the VIPs, are lists of their keys: the third component
  of a result is the names, the fourth the prefixes. The map order in which the names reach the compiler does not
  matter to it (its argument is a map, and the error lists the names sorted).
\<close>

definition validateVIP ::
    "validators \<Rightarrow> string \<Rightarrow> vip_config \<Rightarrow> string list \<Rightarrow> (ip_addr \<times> nat) list \<Rightarrow>
     go_error list \<times> string list \<times> (ip_addr \<times> nat) list" where
  "validateVIP vd prefix v names prefixes =
     (let (nameErrs, names') =
            (if v_name v = [] then ([verr (prefix @ ''.name'') ''required''], names)
             else if List.member names (v_name v) then
               ([verr (prefix @ ''.name'') (sprint ''duplicate VIP name %q'' [FStr (v_name v)])], names)
             else ([], v_name v # names));
          (prefixErrs, prefixes') =
            (if v_prefix v = [] then ([verr (prefix @ ''.prefix'') ''required''], prefixes)
             else case ParseCIDR (v_prefix v) of
                    None \<Rightarrow> ([verr (prefix @ ''.prefix'') (sprint ''must be a valid CIDR, got %q'' [FStr (v_prefix v)])],
                             prefixes)
                  | Some p \<Rightarrow>
                      (if List.member prefixes (canonical_prefix p) then
                         ([verr (prefix @ ''.prefix'') (sprint ''duplicate VIP prefix %q'' [FStr (v_prefix v)])], prefixes)
                       else ([], canonical_prefix p # prefixes)));
          single = single_check (v_check v);
          (checkErrs, checkNames) =
            (if \<not> single \<and> v_checks v = [] then ([], []) else validate_checks vd prefix v 0 [] (CheckList v))
      in (nameErrs @ prefixErrs @
          add_if (v_local_interface v \<noteq> [] \<and> \<not> v_require_local_address v) (prefix @ ''.local_interface'')
            ''requires require_local_address: true'' @
          (if single \<and> v_checks v \<noteq> [] then
             [verr (prefix @ ''.checks'') ''cannot be combined with check; move the single check into the list'']
           else if \<not> single \<and> v_checks v = [] then
             [verr (prefix @ ''.check'') ''required (or use checks for several)'']
           else []) @
          checkErrs @
          (if v_checks_policy v \<noteq> [] \<and> v_checks_policy v \<noteq> ChecksPolicyAll \<and> v_checks_policy v \<noteq> ChecksPolicyAny then
             (if v_checks v = [] then
                [verr (prefix @ ''.checks_policy'')
                   ''an expression needs checks (several checks); with a single check it must be omitted'']
              else if length checkNames = length (v_checks v) then
                (case CompileChecksPolicy (vd_expr vd) (v_checks_policy v) (gm_keys checkNames) of
                   Inr _ \<Rightarrow> [] | Inl e \<Rightarrow> [verr (prefix @ ''.checks_policy'') (error_text e)])
              else [])
           else []) @
          validatePolicy (prefix @ ''.policy'') (v_policy v),
          names', prefixes'))"

fun validate_vips ::
    "validators \<Rightarrow> nat \<Rightarrow> string list \<Rightarrow> (ip_addr \<times> nat) list \<Rightarrow> vip_config list \<Rightarrow> go_error list" where
  "validate_vips vd i names prefixes [] = []"
| "validate_vips vd i names prefixes (v # vs) =
     (let (errs, names', prefixes') = validateVIP vd (index_path ''vips'' i) v names prefixes
      in errs @ validate_vips vd (i + 1) names' prefixes' vs)"

section \<open>The whole configuration\<close>

definition endpoint_errors :: "string \<Rightarrow> string \<Rightarrow> go_error list" where
  "endpoint_errors path ep =
     (case ParseOTelEndpoint ep of (_, _, None) \<Rightarrow> [] | (_, _, Some e) \<Rightarrow> [verr path (error_text e)])"

definition validateOTel :: "otel_config \<Rightarrow> go_error list" where
  "validateOTel c =
     (if otel_endpoint c = [] then []
      else
        endpoint_errors ''.otel.endpoint'' (otel_endpoint c) @
        concat (map (\<lambda>(path, ep). if ep = [] then [] else endpoint_errors path ep)
          [(''.otel.traces.endpoint'', sig_endpoint (otel_traces c)),
           (''.otel.metrics.endpoint'', sig_endpoint (otel_metrics c)),
           (''.otel.logs.endpoint'', sig_endpoint (otel_logs c))]) @
        add_if (otel_service_name c = []) ''.otel.service_name'' ''must not be empty'')"

text \<open>The error for a text that has to be an address when it is set.\<close>

definition ip_errors :: "string \<Rightarrow> string \<Rightarrow> go_error list" where
  "ip_errors path s =
     add_if (s \<noteq> [] \<and> ParseIP s = None) path (sprint ''must be a valid IP address, got %q'' [FStr s])"

definition validate_router :: "config \<Rightarrow> go_error list" where
  "validate_router cfg =
     (let r = c_router cfg in
      add_if (rt_asn r = 0) ''router.asn'' ''required and must be > 0'' @
      (if rt_router_id r = [] then [verr ''router.router_id'' ''required'']
       else add_if (case ParseIP (rt_router_id r) of None \<Rightarrow> True | Some a \<Rightarrow> \<not> has_To4 a) ''router.router_id''
              (sprint ''must be a valid IPv4 address, got %q'' [FStr (rt_router_id r)])) @
      ip_errors ''router.local_address'' (rt_local_address r) @
      add_if (rt_local_address_ipv6 r \<noteq> [] \<and>
              (case ParseIP (rt_local_address_ipv6 r) of None \<Rightarrow> True | Some a \<Rightarrow> has_To4 a))
        ''router.local_address_ipv6'' (sprint ''must be a valid IPv6 address, got %q'' [FStr (rt_local_address_ipv6 r)]) @
      add_if (hasIPv6VIP cfg \<and> rt_local_address_ipv6 r = []) ''router.local_address_ipv6''
        ''required as an IPv6 address when any VIP prefix is IPv6 (used as the IPv6 next-hop)'')"

definition validate_api :: "api_config \<Rightarrow> go_error list" where
  "validate_api a =
     add_if (api_listen a = []) ''api.listen'' ''required'' @
     concat (map (\<lambda>(path, d).
         case d of None \<Rightarrow> []
         | Some t \<Rightarrow> add_if (t < 0) path (sprint ''must be >= 0 (0 disables), got %s'' [FDur t]))
       [(''api.read_header_timeout'', api_read_header_timeout a), (''api.read_timeout'', api_read_timeout a),
        (''api.write_timeout'', api_write_timeout a), (''api.idle_timeout'', api_idle_timeout a)])"

definition log_levels :: "string list" where
  "log_levels = [''debug'', ''info'', ''warn'', ''error'']"

definition validate_logging :: "logging_config \<Rightarrow> go_error list" where
  "validate_logging l =
     add_if (\<not> List.member log_levels (log_level l)) ''logging.level''
       (sprint ''must be one of debug, info, warn, error; got %q'' [FStr (log_level l)]) @
     add_if (\<not> List.member [''text'', ''json''] (log_format l)) ''logging.format''
       (sprint ''must be one of text, json; got %q'' [FStr (log_format l)]) @
     add_if (log_otel_level l \<noteq> [] \<and> \<not> List.member log_levels (log_otel_level l)) ''logging.otel_level''
       (sprint ''must be one of debug, info, warn, error; got %q'' [FStr (log_otel_level l)])"

definition maxTCPMD5KeyLen :: nat where "maxTCPMD5KeyLen = 80"

definition validate_bfd :: "string \<Rightarrow> neighbor_config \<Rightarrow> go_error list" where
  "validate_bfd prefix n =
     (case nb_bfd n of
        None \<Rightarrow> []
      | Some b \<Rightarrow>
          (if bfd_enabled b then
             add_if (nb_enable_multihop n) (prefix @ ''.bfd'')
               ''BFD is not supported with eBGP multihop (RFC 5883 multihop BFD is not implemented)'' @
             add_if (bfd_port b \<noteq> 0 \<and> (bfd_port b < 1 \<or> 65535 < bfd_port b)) (prefix @ ''.bfd.port'')
               (sprint ''must be in range 1..65535, got %d'' [FInt (uint (bfd_port b))]) @
             add_if (bfd_detection_multiplier b = 1) (prefix @ ''.bfd.detection_multiplier'')
               (''must be >= 2 when set (RFC 5880 '' @ [CHR 0xC2, CHR 0xA7] @ ''6.8.4)'')
           else []))"

definition neighbor_errors :: "string \<Rightarrow> neighbor_config \<Rightarrow> go_error list" where
  "neighbor_errors prefix n =
     (if nb_address n = [] then [verr (prefix @ ''.address'') ''required'']
      else ip_errors (prefix @ ''.address'') (nb_address n)) @
     ip_errors (prefix @ ''.local_address'') (nb_local_address n) @
     add_if (nb_peer_asn n = 0) (prefix @ ''.peer_asn'') ''required and must be > 0'' @
     add_if (maxTCPMD5KeyLen < length (nb_auth_password n)) (prefix @ ''.auth_password'')
       (sprint ''must be at most %d bytes (TCP MD5 key limit), got %d''
         [FInt (int maxTCPMD5KeyLen), FInt (int (length (nb_auth_password n)))]) @
     add_if (\<not> nb_enable_multihop n \<and> nb_multihop_ttl n \<noteq> 0) (prefix @ ''.multihop_ttl'')
       ''has no effect when enable_multihop is false'' @
     add_if (nb_enable_multihop n \<and> nb_multihop_ttl n \<noteq> 0 \<and> nb_multihop_ttl n < 2) (prefix @ ''.multihop_ttl'')
       (sprint ''must be 0 (default 255) or >= 2, got %d'' [FInt (uint (nb_multihop_ttl n))]) @
     validate_bfd prefix n"

fun validate_neighbors :: "nat \<Rightarrow> string list \<Rightarrow> neighbor_config list \<Rightarrow> go_error list" where
  "validate_neighbors i names [] = []"
| "validate_neighbors i names (n # ns) =
     (let prefix = index_path ''bgp.neighbors'' i;
          (nameErrs, names') =
            (if nb_name n = [] then ([verr (prefix @ ''.name'') ''required''], names)
             else if List.member names (nb_name n) then
               ([verr (prefix @ ''.name'') (sprint ''duplicate neighbor name %q'' [FStr (nb_name n)])], names)
             else ([], nb_name n # names))
      in nameErrs @ neighbor_errors prefix n @ validate_neighbors (i + 1) names' ns)"

definition validate_bgp :: "bgp_config \<Rightarrow> go_error list" where
  "validate_bgp b =
     (let g = bgp_gobgp_api b; lp = bgp_listen_port b in
      ip_errors ''bgp.listen_address'' (bgp_listen_address b) @
      add_if (lp \<noteq> 0 \<and> lp \<noteq> -1 \<and> (lp < 1 \<or> 65535 < lp)) ''bgp.listen_port''
        (sprint ''must be -1 (disabled) or in range 1..65535, got %d'' [FInt lp]) @
      (if gapi_enabled g then
         (if gapi_listen g = [] then
            [verr ''bgp.gobgp_api.listen'' ''required when bgp.gobgp_api.enabled is true'']
          else case validateGoBGPAPIListen (gapi_listen g) of
                 None \<Rightarrow> [] | Some msg \<Rightarrow> [verr ''bgp.gobgp_api.listen'' msg])
       else add_if (gapi_listen g \<noteq> []) ''bgp.gobgp_api.listen'' ''set bgp.gobgp_api.enabled=true to use this field'') @
      add_if (bgp_neighbors b = []) ''bgp.neighbors'' ''at least one neighbor is required'' @
      validate_neighbors 0 [] (bgp_neighbors b))"

definition Validate :: "validators \<Rightarrow> config \<Rightarrow> go_error list" where
  "Validate vd cfg =
     (if c_schema cfg = [] then [verr ''schema'' ''required'']
      else add_if (c_schema cfg \<noteq> ''v1'') ''schema''
             (sprint (''unsupported version %q (expected '' @ quote ''v1'' @ '')'') [FStr (c_schema cfg)])) @
     validate_router cfg @
     validate_api (c_api cfg) @
     validate_logging (c_logging cfg) @
     validate_bgp (c_bgp cfg) @
     add_if (c_vips cfg = []) ''vips'' ''at least one VIP is required'' @
     validate_vips vd 0 [] [] (c_vips cfg) @
     validateOTel (c_otel cfg)"

end
