(* ===== verification/Load.thy ===== *)
theory Load
  imports Validate
begin

text \<open>
  Loading a configuration file (\<open>internal/config/load.go\<close>): placeholders for environment variables, parsing,
  defaults and validation.

  The file system (\<open>os.ReadFile\<close>), the environment (\<open>os.LookupEnv\<close>) and the two decoders (goccy/go-yaml and
  BurntSushi/toml, into a zero configuration) are the record \<open>load_env\<close>. The one-pass scanner \<open>expand_spec\<close> is
  the specification of the three-pass expansion.
\<close>

record load_env =
  le_ReadFile :: "string \<Rightarrow> go_error + string"
  le_LookupEnv :: "string \<Rightarrow> string option"
  le_yaml :: "string \<Rightarrow> go_error + config"
  le_toml :: "string \<Rightarrow> go_error + config"
  le_validators :: validators

section \<open>Placeholders\<close>

text \<open>\<open>strings.ReplaceAll\<close> for a non-empty pattern.\<close>

function replace_all :: "string \<Rightarrow> string \<Rightarrow> string \<Rightarrow> string" where
  "replace_all old new [] = []"
| "replace_all old new (c # cs) =
     (if old \<noteq> [] \<and> has_prefix (c # cs) old then new @ replace_all old new (drop (length old) (c # cs))
      else c # replace_all old new cs)"
  by pat_completeness auto

termination
  by (relation "measure (\<lambda>(old, new, s). length s)") (auto simp: less_Suc_eq_le neq_Nil_conv)

definition name_char :: "char \<Rightarrow> bool" where
  "name_char c \<longleftrightarrow> is_letter_or_underscore c \<or> digit_val c \<noteq> None"

text \<open>The expression \<open>%\{([A-Za-z_][A-Za-z0-9_]*)\}\<close> at the start of a text: the name and the rest.\<close>

definition envPlaceholderRE :: "string \<Rightarrow> (string \<times> string) option" where
  "envPlaceholderRE s =
     (if has_prefix s ''%{'' then
        (let name = takeWhile name_char (drop 2 s) in
         case dropWhile name_char (drop 2 s) of
           [] \<Rightarrow> None
         | c # rest \<Rightarrow> if c = CHR ''}'' \<and> checkNameRe name then Some (name, rest) else None)
      else None)"

lemma envPlaceholderRE_iff:
  "envPlaceholderRE s = Some (name, rest) \<longleftrightarrow> s = ''%{'' @ name @ ''}'' @ rest \<and> checkNameRe name"
proof
  assume "envPlaceholderRE s = Some (name, rest)"
  then show "s = ''%{'' @ name @ ''}'' @ rest \<and> checkNameRe name"
    by (auto simp: envPlaceholderRE_def has_prefix_iff Let_def split: if_splits list.splits)
      (metis takeWhile_dropWhile_id)
next
  assume *: "s = ''%{'' @ name @ ''}'' @ rest \<and> checkNameRe name"
  then have "\<forall>c \<in> set name. name_char c" and "\<not> name_char CHR ''}''"
    by (auto simp: checkNameRe_def name_char_def list_all_iff is_letter_or_underscore_def digit_val_def
        split: list.splits)
  then have "takeWhile name_char (name @ CHR ''}'' # rest) = name"
    and "dropWhile name_char (name @ CHR ''}'' # rest) = CHR ''}'' # rest"
    by (simp_all add: takeWhile_append2 dropWhile_append2)
  then show "envPlaceholderRE s = Some (name, rest)"
    using * by (simp add: envPlaceholderRE_def)
qed

lemma envPlaceholderRE_shorter: "envPlaceholderRE s = Some (name, rest) \<Longrightarrow> length rest < length s"
  by (simp add: envPlaceholderRE_iff)

text \<open>\<open>ReplaceAllStringFunc\<close> with the closure of the source: the text and the names without a value.\<close>

function replace_placeholders :: "(string \<Rightarrow> string option) \<Rightarrow> string \<Rightarrow> string \<times> string list" where
  "replace_placeholders env [] = ([], [])"
| "replace_placeholders env (c # cs) =
     (case envPlaceholderRE (c # cs) of
        Some (name, rest) \<Rightarrow>
          (let (out, missing) = replace_placeholders env rest in
           case env name of
             Some value \<Rightarrow> (value @ out, missing)
           | None \<Rightarrow> (''%{'' @ name @ ''}'' @ out, name # missing))
      | None \<Rightarrow> (let (out, missing) = replace_placeholders env cs in (c # out, missing)))"
  by pat_completeness auto

termination
  by (relation "measure (\<lambda>(env, s). length s)") (auto dest!: envPlaceholderRE_shorter)

definition escapedPrefixSentinel :: string where
  "escapedPrefixSentinel = CHR 0x00 # ''pathosd-escaped-percent-lbrace'' @ [CHR 0x00]"

definition missing_error :: "string list \<Rightarrow> go_error" where
  "missing_error missing =
     Errorf ''missing environment variables for placeholders: %s''
       [FStr (str_join (sort (remdups missing)) '', '')] None"

definition expandEnvPlaceholders :: "(string \<Rightarrow> string option) \<Rightarrow> string \<Rightarrow> go_error + string" where
  "expandEnvPlaceholders env data =
     (let input = replace_all ''%%{'' escapedPrefixSentinel data;
          (output, missing) = replace_placeholders env input
      in if missing \<noteq> [] then Inl (missing_error missing)
         else Inr (replace_all escapedPrefixSentinel ''%{'' output))"

section \<open>Loading\<close>

text \<open>\<open>filepath.Ext\<close>: from the last dot of the last path element.\<close>

definition path_Ext :: "string \<Rightarrow> string" where
  "path_Ext path =
     (let r = takeWhile (\<lambda>c. c \<noteq> CHR ''/'') (rev path)
      in if List.member r CHR ''.'' then CHR ''.'' # rev (takeWhile (\<lambda>c. c \<noteq> CHR ''.'') r) else [])"

definition detectFormat :: "string \<Rightarrow> string" where
  "detectFormat path =
     (let ext = to_lower (path_Ext path) in
      if List.member [''.yaml'', ''.yml'', ''.json''] ext then ''yaml''
      else if ext = ''.toml'' then ''toml''
      else ext)"

definition Parse :: "load_env \<Rightarrow> string \<Rightarrow> string \<Rightarrow> go_error + config" where
  "Parse env data format =
     (if format = ''yaml'' then
        (case le_yaml env data of Inl e \<Rightarrow> Inl (Errorf ''YAML parse error: %w'' [] (Some e)) | Inr cfg \<Rightarrow> Inr cfg)
      else if format = ''toml'' then
        (case le_toml env data of Inl e \<Rightarrow> Inl (Errorf ''TOML parse error: %w'' [] (Some e)) | Inr cfg \<Rightarrow> Inr cfg)
      else Inl (Errorf ''unsupported config format %q (use .yaml, .yml, .json, or .toml)'' [FStr format] None))"

definition validation_text :: "go_error list \<Rightarrow> string" where
  "validation_text errs =
     ''config validation failed:'' @ [CHR 0x0A] @
     concat (map (\<lambda>e. ''  - '' @ error_text e @ [CHR 0x0A]) errs)"

definition loadBytes :: "load_env \<Rightarrow> string \<Rightarrow> string \<Rightarrow> go_error + config" where
  "loadBytes env data path =
     (case expandEnvPlaceholders (le_LookupEnv env) data of
        Inl e \<Rightarrow> Inl (Errorf ''expanding environment placeholders: %w'' [] (Some e))
      | Inr data' \<Rightarrow>
          (case Parse env data' (detectFormat path) of
             Inl e \<Rightarrow> Inl (Errorf ''parsing config %s: %w'' [FStr path] (Some e))
           | Inr cfg0 \<Rightarrow>
               (let cfg = ApplyDefaults (vd_url (le_validators env)) cfg0;
                    errs = Validate (le_validators env) cfg
                in if errs \<noteq> [] then Inl (Errorf ''%s'' [FStr (validation_text errs)] None)
                   else Inr cfg)))"

text \<open>The bytes of the file are \<open>None\<close> (nil) when it could not be read.\<close>

definition LoadRaw :: "load_env \<Rightarrow> string \<Rightarrow> (go_error + config) \<times> string option" where
  "LoadRaw env path =
     (case le_ReadFile env path of
        Inl e \<Rightarrow> (Inl (Errorf ''reading config: %w'' [] (Some e)), None)
      | Inr raw \<Rightarrow> (loadBytes env raw path, Some raw))"

definition config_Load :: "load_env \<Rightarrow> string \<Rightarrow> go_error + config" where
  "config_Load env path = fst (LoadRaw env path)"

section \<open>The expansion meets its one-pass specification\<close>

text \<open>
  From left to right: \<open>%%{\<close> stands for a literal \<open>%{\<close>, a placeholder for the value of its variable (which is not
  expanded again), any other byte for itself.
\<close>

function expand_spec :: "(string \<Rightarrow> string option) \<Rightarrow> string \<Rightarrow> string \<times> string list" where
  "expand_spec env [] = ([], [])"
| "expand_spec env (c # cs) =
     (if has_prefix (c # cs) ''%%{'' then apfst (\<lambda>out. ''%{'' @ out) (expand_spec env (drop 3 (c # cs)))
      else case envPlaceholderRE (c # cs) of
             Some (name, rest) \<Rightarrow>
               (case env name of
                  Some value \<Rightarrow> apfst (\<lambda>out. value @ out) (expand_spec env rest)
                | None \<Rightarrow> map_prod (\<lambda>out. ''%{'' @ name @ ''}'' @ out) (\<lambda>ms. name # ms) (expand_spec env rest))
           | None \<Rightarrow> apfst (\<lambda>out. c # out) (expand_spec env cs))"
  by pat_completeness auto

termination
  by (relation "measure (\<lambda>(env, s). length s)") (auto dest!: envPlaceholderRE_shorter)

abbreviation NUL :: char where "NUL \<equiv> CHR 0x00"

abbreviation escape_all :: "string \<Rightarrow> string" where
  "escape_all \<equiv> replace_all ''%%{'' escapedPrefixSentinel"

abbreviation unescape_all :: "string \<Rightarrow> string" where
  "unescape_all \<equiv> replace_all escapedPrefixSentinel ''%{''"

lemma unescape_plain: "NUL \<notin> set u \<Longrightarrow> unescape_all (u @ t) = u @ unescape_all t"
  by (induction u) (auto simp: escapedPrefixSentinel_def)

lemma unescape_sentinel: "unescape_all (escapedPrefixSentinel @ t) = ''%{'' @ unescape_all t"
proof -
  obtain c cs where s: "escapedPrefixSentinel = c # cs"
    by (simp add: escapedPrefixSentinel_def)
  have "unescape_all (c # (cs @ t)) = ''%{'' @ unescape_all (drop (length escapedPrefixSentinel) (c # cs @ t))"
    using has_prefix_append [of "c # cs" t] by (subst replace_all.simps) (simp add: s)
  then show ?thesis by (simp add: s)
qed

lemma placeholders_skip:
  "CHR ''%'' \<notin> set u \<Longrightarrow> replace_placeholders env (u @ t) = apfst (\<lambda>out. u @ out) (replace_placeholders env t)"
proof (induction u)
  case (Cons c u)
  then have "envPlaceholderRE (c # u @ t) = None"
    by (auto simp: envPlaceholderRE_def)
  with Cons show ?case by (simp add: apfst_def map_prod_def split: prod.splits)
qed (simp add: apfst_def map_prod_def split: prod.splits)

lemma escape_plain_prefix:
  "escape_all x = w @ y \<Longrightarrow> NUL \<notin> set w \<Longrightarrow> \<exists>x'. x = w @ x' \<and> escape_all x' = y"
proof (induction w arbitrary: x)
  case (Cons c w)
  then obtain d x' where x: "x = d # x'" by (cases x) auto
  show ?case
  proof (cases "has_prefix x ''%%{''")
    case True
    with Cons.prems x show ?thesis by (simp add: escapedPrefixSentinel_def del: has_prefix.simps)
  next
    case False
    with Cons.prems x have "d = c" and "escape_all x' = w @ y" by (simp_all del: has_prefix.simps)
    with Cons.IH [of x'] Cons.prems x show ?thesis by auto
  qed
qed simp

lemma escape_plain: "CHR ''%'' \<notin> set u \<Longrightarrow> escape_all (u @ t) = u @ escape_all t"
  by (induction u) auto

lemma checkNameRe_plain: "checkNameRe name \<Longrightarrow> CHR ''%'' \<notin> set name \<and> NUL \<notin> set name"
  by (auto simp: checkNameRe_def list_all_iff is_letter_or_underscore_def digit_val_def split: list.splits)

lemma escape_placeholder:
  assumes "checkNameRe name"
  shows "escape_all (''%{'' @ name @ ''}'' @ rest) = ''%{'' @ name @ ''}'' @ escape_all rest"
  using escape_plain [of "''{'' @ name @ ''}''" rest] checkNameRe_plain [OF assms] by simp

lemma escape_no_placeholder:
  assumes "envPlaceholderRE s = None" and "\<not> has_prefix s ''%%{''" and s: "s = c # cs"
  shows "escape_all s = c # escape_all cs \<and> envPlaceholderRE (c # escape_all cs) = None"
proof
  show eq: "escape_all s = c # escape_all cs"
    using assms by (simp del: has_prefix.simps)
  show "envPlaceholderRE (c # escape_all cs) = None"
  proof (rule ccontr)
    assume "envPlaceholderRE (c # escape_all cs) \<noteq> None"
    then obtain name rest where "envPlaceholderRE (c # escape_all cs) = Some (name, rest)" by auto
    then have *: "c # escape_all cs = (''%{'' @ name @ ''}'') @ rest" and re: "checkNameRe name"
      by (simp_all add: envPlaceholderRE_iff)
    obtain x' where "s = (''%{'' @ name @ ''}'') @ x'"
      using escape_plain_prefix [of s "''%{'' @ name @ ''}''" rest] checkNameRe_plain [OF re] * eq by auto
    then have "envPlaceholderRE s = Some (name, x')"
      using re by (simp only: envPlaceholderRE_iff append_assoc simp_thms)
    with assms(1) show False by simp
  qed
qed

text \<open>
  One step of the three passes at each of the ways a text can begin: an escape, a placeholder, any other character.
\<close>

lemma expansion_escape:
  assumes "apfst unescape_all (replace_placeholders env (escape_all rest)) = expand_spec env rest"
  shows "apfst unescape_all (replace_placeholders env (escape_all (''%%{'' @ rest))) = expand_spec env (''%%{'' @ rest)"
proof -
  have "replace_placeholders env (escape_all (''%%{'' @ rest)) =
      apfst (\<lambda>out. escapedPrefixSentinel @ out) (replace_placeholders env (escape_all rest))"
    using placeholders_skip [of escapedPrefixSentinel env "escape_all rest"] by (simp add: escapedPrefixSentinel_def)
  moreover have "expand_spec env (''%%{'' @ rest) = apfst (\<lambda>out. ''%{'' @ out) (expand_spec env rest)" by simp
  ultimately show ?thesis
    using assms by (auto simp: apfst_def map_prod_def unescape_sentinel split: prod.splits)
qed

lemma expansion_placeholder:
  assumes vals: "\<And>v. env name = Some v \<Longrightarrow> NUL \<notin> set v" and name: "checkNameRe name"
    and data: "data = ''%{'' @ name @ ''}'' @ rest" "\<not> has_prefix data ''%%{''"
    and IH: "apfst unescape_all (replace_placeholders env (escape_all rest)) = expand_spec env rest"
  shows "apfst unescape_all (replace_placeholders env (escape_all data)) = expand_spec env data"
proof -
  obtain c cs where Cons: "data = c # cs" using data(1) by simp
  have re: "envPlaceholderRE data = Some (name, rest)"
    "envPlaceholderRE (''%{'' @ name @ ''}'' @ escape_all rest) = Some (name, escape_all rest)"
    using name data by (simp_all only: envPlaceholderRE_iff)
  have esc: "escape_all data = CHR ''%'' # ''{'' @ name @ ''}'' @ escape_all rest"
    using escape_placeholder [OF name, of rest] data(1) by simp
  have nul: "NUL \<notin> set name" using checkNameRe_plain [OF name] by simp
  show ?thesis
  proof (cases "env name")
    case None
    then show ?thesis
      using IH [symmetric] data(2) re esc Cons nul unescape_plain [of "''%{'' @ name @ ''}''"]
      by (simp add: apfst_def map_prod_def del: has_prefix.simps replace_all.simps split: prod.splits)
  next
    case (Some v)
    then show ?thesis
      using IH [symmetric] data(2) re esc Cons vals [OF Some] unescape_plain [of v]
      by (simp add: apfst_def map_prod_def del: has_prefix.simps replace_all.simps split: prod.splits)
  qed
qed

lemma expansion_plain:
  assumes data: "data = c # cs" "\<not> has_prefix data ''%%{''" "envPlaceholderRE data = None" and "c \<noteq> NUL"
    and IH: "apfst unescape_all (replace_placeholders env (escape_all cs)) = expand_spec env cs"
  shows "apfst unescape_all (replace_placeholders env (escape_all data)) = expand_spec env data"
proof -
  have un: "unescape_all (c # t) = c # unescape_all t" for t using unescape_plain [of "[c]" t] \<open>c \<noteq> NUL\<close> by simp
  have "replace_placeholders env (escape_all data) = apfst (\<lambda>out. c # out) (replace_placeholders env (escape_all cs))"
    using escape_no_placeholder [OF data(3,2,1)]
    by (simp add: apfst_def map_prod_def del: replace_all.simps split: prod.splits)
  moreover have "expand_spec env data = apfst (\<lambda>out. c # out) (expand_spec env cs)"
    using data(2,3) by (simp add: data(1) del: has_prefix.simps)
  ultimately show ?thesis
    by (simp add: un IH [symmetric] apfst_def map_prod_def del: replace_all.simps split: prod.splits)
qed

lemma expansion_passes:
  assumes "\<And>n v. env n = Some v \<Longrightarrow> NUL \<notin> set v" and "NUL \<notin> set data"
  shows "apfst unescape_all (replace_placeholders env (escape_all data)) = expand_spec env data"
  using assms(2)
proof (induction data rule: length_induct)
  case (1 data)
  have IH: "apfst unescape_all (replace_placeholders env (escape_all d)) = expand_spec env d"
    if "length d < length data" "set d \<subseteq> set data" for d using 1 that by auto
  show ?case
  proof (cases data)
    case (Cons c cs)
    consider (esc) rest where "data = ''%%{'' @ rest"
      | (ph) name rest where "\<not> has_prefix data ''%%{''" "data = ''%{'' @ name @ ''}'' @ rest" "checkNameRe name"
      | (plain) "\<not> has_prefix data ''%%{''" "envPlaceholderRE data = None"
      by (metis envPlaceholderRE_iff has_prefix_iff option.exhaust prod.exhaust)
    then show ?thesis
    proof cases
      case esc
      have "length rest < length data" "set rest \<subseteq> set data" using esc by auto
      from expansion_escape [OF IH [OF this]] show ?thesis unfolding esc .
    next
      case ph
      have "length rest < length data" "set rest \<subseteq> set data" using ph(2) by auto
      from expansion_placeholder [OF assms(1) ph(3,2,1) IH [OF this]] show ?thesis .
    next
      case plain
      have "c \<noteq> NUL" "length cs < length data" "set cs \<subseteq> set data" using 1(2) Cons by auto
      then show ?thesis using expansion_plain [OF Cons plain] IH by blast
    qed
  qed simp
qed

end
