(* ===== verification/Prefix_Readers.thy ===== *)
theory Prefix_Readers
  imports Bgp_Contract Validate
begin

text \<open>
  How the two readers of a prefix in the sources relate: validation reads it with \<open>net.ParseCIDR\<close>, the BGP
  manager with \<open>netip.ParsePrefix\<close>. Whatever the second accepts the first accepts, with the same meaning; not
  the other way round. So two VIPs that pass validation never share a route.
\<close>

lemma split_all_chars: "c \<in> set s \<Longrightarrow> c = sep \<or> (\<exists>f \<in> set (split_all sep s). c \<in> set f)"
  by (induction sep s rule: split_all.induct) (auto split: list.splits)

lemma parse_octet_chars: "parse_octet f = Some n \<Longrightarrow> c \<in> set f \<Longrightarrow> digit_val c \<noteq> None"
  by (auto simp: parse_octet_def split: list.splits if_splits option.splits dest: digits_from_set)

lemma parse_v4_chars:
  assumes "parse_v4_fields s = Some bs" and "c \<in> set s"
  shows "c = CHR ''.'' \<or> digit_val c \<noteq> None"
proof (cases "c = CHR ''.''")
  case False
  then obtain f where "f \<in> set (split_all CHR ''.'' s)" "c \<in> set f"
    using split_all_chars [OF assms(2)] by blast
  then show ?thesis
    using assms(1) parse_octet_chars [of f _ c]
    by (fastforce simp: parse_v4_fields_def Let_def list_all_iff split: if_splits)
qed simp

definition addr_char :: "char \<Rightarrow> bool" where
  "addr_char c \<longleftrightarrow> hex_val c \<noteq> None \<or> c = CHR ''.'' \<or> c = CHR '':''"

lemma digit_addr_char: "digit_val c \<noteq> None \<Longrightarrow> addr_char c"
  by (auto simp: digit_val_def addr_char_def hex_val_def Let_def split: if_splits)

lemma hex_run_chars:
  "hex_run acc k s = Some (a, n, rest) \<Longrightarrow> c \<in> set s \<Longrightarrow> addr_char c \<or> c \<in> set rest"
  by (induction acc k s rule: hex_run.induct) (auto simp: addr_char_def split: option.splits if_splits)

lemma v4_tail_chars: "parse_v4_fields s = Some bs \<Longrightarrow> c \<in> set s \<Longrightarrow> addr_char c"
  using parse_v4_chars [of s bs c] digit_addr_char [of c] by (auto simp: addr_char_def)

lemma v6_groups_chars:
  "v6_groups n gs ell s = Some (gs', ell', rest) \<Longrightarrow> c \<in> set s \<Longrightarrow> addr_char c \<or> c \<in> set rest"
proof (induction n gs ell s arbitrary: gs' ell' rest rule: v6_groups.induct)
  case (2 n gs ell s)
  obtain acc k r where run: "hex_run 0 0 s = Some (acc, k, r)"
    using "2.prems"(1) by (auto split: option.splits)
  have k: "k \<noteq> 0" using "2.prems"(1) run by (auto split: if_splits)
  show ?case
  proof (cases "r \<noteq> [] \<and> hd r = CHR ''.''")
    case True
    with "2.prems"(1) run k obtain bs where "parse_v4_fields s = Some bs"
      by (auto split: if_splits option.splits)
    with "2.prems"(2) show ?thesis by (auto dest: v4_tail_chars)
  next
    case False
    note step = "2.prems"(1) run k False
    have in_r: "addr_char c \<or> c \<in> set r" by (rule hex_run_chars [OF run "2.prems"(2)])
    show ?thesis
    proof (cases r)
      case Nil with in_r show ?thesis by simp
    next
      case (Cons d r1)
      with step have d: "d = CHR '':''" "r1 \<noteq> []" by (auto simp: Let_def split: if_splits)
      then obtain e r2 where r1: "r1 = e # r2" by (cases r1) auto
      have colon: "addr_char CHR '':''" by (simp add: addr_char_def)
      show ?thesis
      proof (cases "e = CHR '':''")
        case True
        then have *: "(if r2 = [] then Some (gs @ [acc], Some (length (gs @ [acc])), [])
            else v6_groups n (gs @ [acc]) (Some (length (gs @ [acc]))) r2) = Some (gs', ell', rest)"
          using step Cons d r1 by (auto simp: Let_def split: if_splits)
        show ?thesis
        proof (cases "r2 = []")
          case True with in_r Cons d r1 \<open>e = CHR '':''\<close> colon show ?thesis by auto
        next
          case False
          with * have rec: "v6_groups n (gs @ [acc]) (Some (length (gs @ [acc]))) r2 = Some (gs', ell', rest)" by simp
          have "c \<in> set r2 \<Longrightarrow> addr_char c \<or> c \<in> set rest"
            using "2.IH"(1) [of "(acc, k, r)"] step Cons d r1 True False rec
            by (auto simp: Let_def split: if_splits)
          with in_r Cons d r1 True colon show ?thesis by auto
        qed
      next
        case False
        then have rec: "v6_groups n (gs @ [acc]) ell r1 = Some (gs', ell', rest)"
          using step Cons d r1 by (auto simp: Let_def split: if_splits)
        have "c \<in> set r1 \<Longrightarrow> addr_char c \<or> c \<in> set rest"
          using "2.IH"(2) [of "(acc, k, r)"] step Cons d r1 False rec
          by (auto simp: Let_def split: if_splits)
        with in_r Cons d colon show ?thesis by auto
      qed
    qed
  qed
qed simp

lemma parse_v6_body_chars: "parse_v6_body s = Some gs \<Longrightarrow> c \<in> set s \<Longrightarrow> addr_char c"
proof (cases "has_prefix s ''::''")
  case True
  assume body: "parse_v6_body s = Some gs" and "c \<in> set s"
  obtain t where s: "s = ''::'' @ t" using True by (auto simp: has_prefix_iff)
  with \<open>c \<in> set s\<close> have "addr_char c \<or> c \<in> set t" by (auto simp: addr_char_def)
  then show "addr_char c"
    using body s True by (auto simp: parse_v6_body_def Let_def split: if_splits option.splits dest: v6_groups_chars)
next
  case False
  assume "parse_v6_body s = Some gs" and "c \<in> set s"
  then show "addr_char c"
    using False by (auto simp: parse_v6_body_def Let_def split: if_splits option.splits dest: v6_groups_chars)
qed

lemma ParseAddr_chars:
  assumes "ParseAddr s = Inr a" and "addr_zone a = []" and "c \<in> set s"
  shows "addr_char c"
proof (cases "parse_v4_fields s")
  case (Some bs)
  then show ?thesis using assms(3) by (rule v4_tail_chars)
next
  case None
  have "split2 CHR ''%'' s = [s] \<or> (\<exists>x y. split2 CHR ''%'' s = [x, y])"
    by (auto simp: split2_def split: list.splits)
  with None assms(1,2) have "\<exists>gs. parse_v6_body s = Some gs"
    by (auto simp: ParseAddr_def Let_def parseIPv4_def parseIPv6_def addr_zone_def
        split: option.splits if_splits)
  with assms(3) show ?thesis by (auto dest: parse_v6_body_chars)
qed

lemma no_slash: "ParseAddr s = Inr a \<Longrightarrow> addr_zone a = [] \<Longrightarrow> CHR ''/'' \<notin> set s"
  using ParseAddr_chars [of s a "CHR ''/''"] by (auto simp: addr_char_def hex_val_def)

lemma split_last_Some: "split_last sep s = Some (a, b) \<Longrightarrow> s = a @ sep # b"
proof -
  assume *: "split_last sep s = Some (a, b)"
  obtain d rest where d: "dropWhile (\<lambda>c. c \<noteq> sep) (rev s) = d # rest" and ab: "a = rev rest"
      "b = rev (takeWhile (\<lambda>c. c \<noteq> sep) (rev s))"
    using * by (auto simp: split_last_def split2_def split: list.splits)
  then have "rev s = takeWhile (\<lambda>c. c \<noteq> sep) (rev s) @ sep # rest"
    by (metis (mono_tags, lifting) dropWhile_eq_Cons_conv)
  then have "s = rev (takeWhile (\<lambda>c. c \<noteq> sep) (rev s) @ sep # rest)" by (metis rev_rev_ident)
  then show ?thesis using ab by simp
qed

lemma ParsePrefix_ParseCIDR:
  assumes "ParsePrefix s = Inr p"
  shows "ParseCIDR s = Some (px_addr p, px_bits p)"
proof -
  obtain a bits ip n where split: "split_last CHR ''/'' s = Some (a, bits)" and addr: "ParseAddr a = Inr ip"
    and zone: "addr_zone ip = []" and bits: "bits \<noteq> []" "digits_from 0 bits = Some n" "n \<le> BitLen ip"
    and p: "p = \<lparr>px_addr = ip, px_bits = n\<rparr>"
    using assms by (auto simp: ParsePrefix_def Let_def split: option.splits sum.splits prod.splits if_splits)
  have "split2 CHR ''/'' s = [a, bits]"
    using split_last_Some [OF split] split2_glue [OF no_slash [OF addr zone]] by simp
  then show ?thesis using addr zone bits p by (simp add: ParseCIDR_def)
qed

definition vip_canonical :: "vip_config \<Rightarrow> (ip_addr \<times> nat) option" where
  "vip_canonical v = map_option canonical_prefix (ParseCIDR (v_prefix v))"

lemma same_nlri_canonical:
  assumes "same_nlri (v_prefix v) (v_prefix w)"
  shows "vip_canonical v = vip_canonical w"
proof -
  obtain p q where p: "ParsePrefix (v_prefix v) = Inr p" and q: "ParsePrefix (v_prefix w) = Inr q"
    and eq: "Masked p = Masked q"
    using assms by (auto simp: same_nlri_def nlri_of_def split: sum.splits)
  have "px_bits p = px_bits q" "mask_addr (px_bits p) (px_addr p) = mask_addr (px_bits q) (px_addr q)"
    using eq by (simp_all add: Masked_def) (metis ip_prefix.select_convs ip_prefix.surjective ip_prefix.update_convs)+
  then show ?thesis
    by (simp add: vip_canonical_def canonical_prefix_def Let_def ParsePrefix_ParseCIDR [OF p] ParsePrefix_ParseCIDR [OF q]
        split: ip_addr.split)
qed

text \<open>The converse fails: a length with a leading zero passes validation, and the BGP manager rejects it.\<close>

lemma validated_prefix_not_announced:
  "ParseCIDR ''10.0.0.1/032'' = Some (IP4 0x0A000001, 32) \<and> isl (ParsePrefix ''10.0.0.1/032'')"
  by (simp add: net_eval)

end
