(* ===== verification/Load_Properties.thy ===== *)
theory Load_Properties
  imports Load Prefix_Readers
begin

text \<open>
  What the loader promises: the shape of a configuration after defaults, what an empty error list means, and
  that a loaded configuration meets the conditions under which the other components are correct.
\<close>

section \<open>Validation\<close>

lemma add_if_Nil [simp]: "add_if b path msg = [] \<longleftrightarrow> \<not> b"
  by (simp add: add_if_def)

lemma validateCommunities_Nil: "validateCommunities path cs = [] \<longleftrightarrow> list_all community_ok cs"
proof -
  have one: "community_error path i c = [] \<longleftrightarrow> community_ok c" for i c
    by (auto simp: community_error_def community_ok_def split: list.splits)
  have "concat (map (\<lambda>(i, c). community_error path i c) (enumerate n cs)) = [] \<longleftrightarrow> list_all community_ok cs" for n
    by (induction cs arbitrary: n) (auto simp: one)
  then show ?thesis by (simp add: validateCommunities_def)
qed

lemma community_ok_parses: "community_ok c \<longleftrightarrow> (\<exists>w. parse_community c = Inr w)"
  by (auto simp: community_ok_def parse_community_def split: list.splits option.splits)

lemma parseCommunities_ok: "(\<exists>ws. parseCommunities cs = Inr ws) \<longleftrightarrow> list_all community_ok cs"
  by (induction cs) (auto simp: community_ok_parses split: sum.splits)

text \<open>The policy block of a VIP as the engine and the BGP manager need it.\<close>

definition policy_ready :: "policy_config \<Rightarrow> bool" where
  "policy_ready p \<longleftrightarrow>
     pc_fail_action p \<in> {''withdraw'', ''lower_priority''} \<and>
     (\<forall>an. pc_announce p = Some an \<longrightarrow>
        (\<forall>n. an_as_path_prepend an = Some n \<longrightarrow> 0 \<le> n \<and> n \<le> 16) \<and>
        (\<exists>ws. parseCommunities (an_communities an) = Inr ws)) \<and>
     (\<forall>lp. pc_lower_priority p = Some lp \<longrightarrow>
        (\<forall>n. lp_as_path_prepend lp = Some n \<longrightarrow> 1 \<le> n \<and> n \<le> 16) \<and>
        (\<exists>ws. parseCommunities (lp_communities lp) = Inr ws))"

lemma validatePolicy_Nil: "validatePolicy prefix p = [] \<longleftrightarrow> policy_ready p"
  by (auto simp: validatePolicy_def policy_ready_def validateCommunities_Nil parseCommunities_ok
      split: option.splits if_splits)

text \<open>The block the type of a check calls for.\<close>

definition block_set :: "check_config \<Rightarrow> bool" where
  "block_set c \<longleftrightarrow>
     ck_type c = CheckTypeHTTP \<and> ck_http c \<noteq> None \<or> ck_type c = CheckTypeDNS \<and> ck_dns c \<noteq> None \<or>
     ck_type c = CheckTypePing \<and> ck_ping c \<noteq> None \<or> ck_type c = CheckTypeUDP \<and> ck_udp c \<noteq> None \<or>
     ck_type c = CheckTypeListen \<and> ck_listen c \<noteq> None \<or> ck_type c = CheckTypeTCP \<and> ck_tcp c \<noteq> None \<or>
     ck_type c = CheckTypeSQL \<and> ck_sql c \<noteq> None \<or> ck_type c = CheckTypeKafka \<and> ck_kafka c \<noteq> None \<or>
     ck_type c = CheckTypeGRPC \<and> ck_grpc c \<noteq> None"

lemma validateCheck_block: "validateCheck vd prefix c vipPrefix = [] \<Longrightarrow> block_set c"
  by (auto simp: validateCheck_def block_set_def split: if_splits option.splits)

definition check_valid :: "check_config \<Rightarrow> bool" where
  "check_valid c \<longleftrightarrow> block_set c \<and>
     (\<forall>iv tmo. ck_interval c = Some iv \<and> ck_timeout c = Some tmo \<longrightarrow> tmo < iv) \<and>
     (\<forall>n. ck_rise c = Some n \<longrightarrow> 1 \<le> n) \<and> (\<forall>n. ck_fall c = Some n \<longrightarrow> 1 \<le> n) \<and>
     (ck_name c \<noteq> [] \<longrightarrow> ValidateCheckName (ck_name c) = None)"

lemma check_errors_Nil:
  assumes "check_errors vd prefix v i seen c = []"
  shows "check_valid c \<and> map_of seen (check_EffectiveName c) = None"
  using assms validateCheck_block [of vd "checkPath prefix v i" c "v_prefix v"]
  by (auto simp: check_errors_def check_valid_def Let_def split: option.splits if_splits)

lemma validate_checks_Nil:
  "fst (validate_checks vd prefix v i seen cs) = [] \<Longrightarrow>
     list_all check_valid cs \<and> distinct (map check_EffectiveName cs) \<and>
     (\<forall>c \<in> set cs. check_EffectiveName c \<notin> set (gm_keys seen)) \<and>
     gm_keys (snd (validate_checks vd prefix v i seen cs)) = gm_keys seen @ map check_EffectiveName cs"
proof (induction cs arbitrary: i seen)
  case (Cons c cs)
  let ?n = "check_EffectiveName c"
  have c: "check_valid c" "map_of seen ?n = None"
    using Cons.prems check_errors_Nil [of vd prefix v i seen c] by (auto simp: Let_def split: prod.splits)
  then have fresh: "?n \<notin> set (gm_keys seen)" by (simp add: map_of_eq_None_iff)
  have keys: "gm_keys (gm_put ?n i seen) = gm_keys seen @ [?n]"
    using fresh by (simp add: update_keys del: set_map)
  have "fst (validate_checks vd prefix v (i + 1) (gm_put ?n i seen) cs) = []"
    using Cons.prems c by (simp add: Let_def split: prod.splits)
  from Cons.IH [OF this] c fresh keys show ?case
    by (auto simp: Let_def split: prod.splits)
qed simp

definition vip_valid :: "validators \<Rightarrow> vip_config \<Rightarrow> bool" where
  "vip_valid vd v \<longleftrightarrow>
     v_name v \<noteq> [] \<and> vip_canonical v \<noteq> None \<and>
     list_all check_valid (CheckList v) \<and> distinct (map check_EffectiveName (CheckList v)) \<and>
     (\<exists>ev. CompileChecksPolicy (vd_expr vd) (v_checks_policy v) (map check_EffectiveName (CheckList v)) = Inr ev) \<and>
     policy_ready (v_policy v)"

lemma validateVIP_Nil:
  assumes "fst (validateVIP vd prefix v names prefixes) = []"
  shows "vip_valid vd v" and "v_name v \<notin> set names" and "the (vip_canonical v) \<notin> set prefixes"
    and "snd (validateVIP vd prefix v names prefixes) = (v_name v # names, the (vip_canonical v) # prefixes)"
proof -
  obtain cerrs seen where checks: "validate_checks vd prefix v 0 [] (CheckList v) = (cerrs, seen)" by force
  have has: "single_check (v_check v) \<or> v_checks v \<noteq> []"
    using assms by (auto simp: validateVIP_def Let_def split: if_splits prod.splits)
  then have cs: "cerrs = []"
    using assms checks by (auto simp: validateVIP_def Let_def split: if_splits prod.splits)
  note valid = validate_checks_Nil [of vd prefix v 0 "[]" "CheckList v", unfolded checks, simplified, OF cs]
  have pol: "policy_ready (v_policy v)"
    using assms by (auto simp: validateVIP_def Let_def validatePolicy_Nil split: if_splits prod.splits)
  show names: "v_name v \<notin> set names"
    using assms by (auto simp: validateVIP_def Let_def split: if_splits prod.splits)
  have ne: "v_name v \<noteq> []" and pne: "v_prefix v \<noteq> []"
    using assms by (auto simp: validateVIP_def Let_def split: if_splits prod.splits)
  obtain p where p: "ParseCIDR (v_prefix v) = Some p" "canonical_prefix p \<notin> set prefixes"
    using assms pne by (auto simp: validateVIP_def Let_def split: if_splits prod.splits option.splits)
  show "the (vip_canonical v) \<notin> set prefixes" using p by (simp add: vip_canonical_def)
  show "snd (validateVIP vd prefix v names prefixes) = (v_name v # names, the (vip_canonical v) # prefixes)"
    using names ne pne p by (simp add: validateVIP_def Let_def vip_canonical_def split: prod.splits)
  have "\<exists>ev. CompileChecksPolicy (vd_expr vd) (v_checks_policy v) (map check_EffectiveName (CheckList v)) = Inr ev"
  proof (cases "v_checks_policy v \<noteq> [] \<and> v_checks_policy v \<noteq> ChecksPolicyAll \<and> v_checks_policy v \<noteq> ChecksPolicyAny")
    case False
    then show ?thesis by (auto simp: CompileChecksPolicy_def Let_def)
  next
    case True
    then have many: "v_checks v \<noteq> []"
      using assms by (auto simp: validateVIP_def Let_def split: if_splits prod.splits)
    then have keys: "gm_keys seen = map check_EffectiveName (CheckList v)" "length seen = length (v_checks v)"
      using valid by (auto simp: CheckList_def dest!: arg_cong [of _ _ length])
    show ?thesis
      using assms True many keys checks
      by (auto simp: validateVIP_def Let_def split: if_splits prod.splits sum.splits)
  qed
  then show "vip_valid vd v"
    using valid pol ne p by (auto simp: vip_valid_def vip_canonical_def)
qed

lemma validate_vips_Nil:
  "validate_vips vd i names prefixes vs = [] \<Longrightarrow>
     list_all (vip_valid vd) vs \<and> distinct (map v_name vs) \<and> distinct (map vip_canonical vs) \<and>
     (\<forall>v \<in> set vs. v_name v \<notin> set names \<and> the (vip_canonical v) \<notin> set prefixes)"
proof (induction vs arbitrary: i names prefixes)
  case (Cons v vs)
  let ?r = "validateVIP vd (index_path ''vips'' i) v names prefixes"
  have v: "fst ?r = []" using Cons.prems by (simp split: prod.splits)
  note parts = validateVIP_Nil [OF v]
  have "validate_vips vd (i + 1) (v_name v # names) (the (vip_canonical v) # prefixes) vs = []"
    using Cons.prems parts(4) by (simp split: prod.splits)
  note rest = Cons.IH [OF this]
  have "vip_canonical v \<notin> vip_canonical ` set vs"
    using rest by (auto simp: image_iff)
  with rest parts show ?case by auto
qed simp


section \<open>Defaults\<close>

definition check_types :: "string list" where
  "check_types = [CheckTypeHTTP, CheckTypeDNS, CheckTypePing, CheckTypeUDP, CheckTypeListen, CheckTypeSQL,
     CheckTypeKafka, CheckTypeTCP, CheckTypeGRPC]"

lemmas check_type_defs = CheckTypeHTTP_def CheckTypeDNS_def CheckTypePing_def CheckTypeUDP_def CheckTypeListen_def
  CheckTypeSQL_def CheckTypeKafka_def CheckTypeTCP_def CheckTypeGRPC_def

definition check_filled :: "check_config \<Rightarrow> bool" where
  "check_filled c \<longleftrightarrow> ck_interval c \<noteq> None \<and> ck_timeout c \<noteq> None \<and> ck_rise c \<noteq> None \<and> ck_fall c \<noteq> None \<and>
     (List.member check_types (ck_type c) \<longrightarrow> block_set c)"

definition policy_filled :: "policy_config \<Rightarrow> bool" where
  "policy_filled p \<longleftrightarrow> pc_fail_action p \<noteq> [] \<and>
     (\<exists>an n. pc_announce p = Some an \<and> an_as_path_prepend an = Some n) \<and>
     (\<exists>lp n. pc_lower_priority p = Some lp \<and> lp_as_path_prepend lp = Some n)"

lemma default_some_Some [simp]: "default_some x d \<noteq> None"
  by (simp add: default_some_def split: option.split)

lemma default_string_Nil [simp]: "default_string s d = [] \<longleftrightarrow> s = [] \<and> d = []"
  by (auto simp: default_string_def)

lemma applyCheckDefaults_type [simp]: "ck_type (applyCheckDefaults parse c p) = ck_type c"
  and applyCheckDefaults_name [simp]: "ck_name (applyCheckDefaults parse c p) = ck_name c"
  by (simp_all add: applyCheckDefaults_def Let_def)

lemma applyCheckDefaults_filled: "check_filled (applyCheckDefaults parse c p)"
proof -
  let ?c = "applyCheckDefaults parse c p"
  have "ck_interval ?c \<noteq> None \<and> ck_timeout ?c \<noteq> None \<and> ck_rise ?c \<noteq> None \<and> ck_fall ?c \<noteq> None"
    by (simp add: applyCheckDefaults_def Let_def del: not_None_eq)
  moreover have "block_set ?c" if "List.member check_types (ck_type c)"
    using that unfolding check_types_def List.member_iff list.set insert_iff empty_iff
    by (elim disjE) (simp_all add: block_set_def applyCheckDefaults_def Let_def check_type_defs)
  ultimately show ?thesis by (simp add: check_filled_def)
qed

lemma default_check_type [simp]: "ck_type (default_check parse procfs p c) = ck_type c"
  and default_check_name [simp]: "ck_name (default_check parse procfs p c) = ck_name c"
  by (simp_all add: default_check_def Let_def split: option.split)

lemma block_set_listen: "block_set c \<Longrightarrow> block_set (c\<lparr>ck_listen := Some l\<rparr>)"
  unfolding block_set_def by (elim disjE) simp_all

lemma default_check_filled: "check_filled (default_check parse procfs p c)"
  using applyCheckDefaults_filled [of parse c p]
  by (simp add: default_check_def Let_def check_filled_def block_set_listen split: option.split)

lemma applyPolicyDefaults_filled: "policy_filled (applyPolicyDefaults p)"
  by (auto simp: policy_filled_def applyPolicyDefaults_def Let_def default_some_def split: option.splits)

definition vip_filled :: "vip_config \<Rightarrow> bool" where
  "vip_filled v \<longleftrightarrow> (\<forall>c \<in> set (CheckList v). check_filled c) \<and> v_checks_policy v \<noteq> [] \<and> policy_filled (v_policy v)"

lemma default_vip_kept [simp]:
  "v_name (default_vip parse procfs v) = v_name v" "v_prefix (default_vip parse procfs v) = v_prefix v"
  by (simp_all add: default_vip_def Let_def)

lemma default_vip_filled:
  "(v_checks (default_vip parse procfs v) = [] \<and> ck_type (v_check (default_vip parse procfs v)) = []) \<or>
   vip_filled (default_vip parse procfs v)"
  by (auto simp: default_vip_def Let_def CheckList_def vip_filled_def default_check_filled applyPolicyDefaults_filled
      ChecksPolicyAll_def)

text \<open>C25: Defaults give every VIP with a check the shape the rest of the daemon reads: every check has interval,
  timeout, rise and fall thresholds and, when its type is known, the block of its type; the checks policy is
  set; and the policy has its action and both prepend lengths. The VIPs keep their names, prefixes and order.\<close>

theorem ApplyDefaults_complete:
  "map v_name (c_vips (ApplyDefaults parse cfg)) = map v_name (c_vips cfg) \<and>
   map v_prefix (c_vips (ApplyDefaults parse cfg)) = map v_prefix (c_vips cfg) \<and>
   (\<forall>v \<in> set (c_vips (ApplyDefaults parse cfg)).
      (v_checks v = [] \<and> ck_type (v_check v) = []) \<or> vip_filled v)"
  using default_vip_filled by (auto simp: ApplyDefaults_def Let_def)

section \<open>Loading\<close>

definition check_ready :: "check_config \<Rightarrow> bool" where
  "check_ready c \<longleftrightarrow> block_set c \<and>
     (\<exists>iv tmo. ck_interval c = Some iv \<and> ck_timeout c = Some tmo \<and> tmo < iv) \<and>
     (\<exists>r f. ck_rise c = Some r \<and> ck_fall c = Some f \<and> 1 \<le> r \<and> 1 \<le> f)"

lemma config_Load_Inr:
  assumes "config_Load env path = Inr cfg"
  shows "Validate (le_validators env) cfg = []" and "\<exists>cfg0. cfg = ApplyDefaults (vd_url (le_validators env)) cfg0"
  using assms
  by (auto simp: config_Load_def LoadRaw_def loadBytes_def Let_def split: sum.splits if_splits)

lemma check_ready_from: "check_filled c \<Longrightarrow> check_valid c \<Longrightarrow> check_ready c"
  by (auto simp: check_filled_def check_valid_def check_ready_def)


lemma loaded_vip:
  assumes "config_Load env path = Inr cfg" and "v \<in> set (c_vips cfg)"
  shows "vip_valid (le_validators env) v" and "vip_filled v"
proof -
  note load = config_Load_Inr [OF assms(1)]
  have "validate_vips (le_validators env) 0 [] [] (c_vips cfg) = []"
    using load(1) by (simp add: Validate_def)
  note valid = validate_vips_Nil [OF this]
  then show v: "vip_valid (le_validators env) v" using assms(2) by (simp add: list_all_iff)
  have "block_set c" if "c \<in> set (CheckList v)" for c
    using v that by (auto simp: vip_valid_def list_all_iff check_valid_def)
  then have "\<not> (v_checks v = [] \<and> ck_type (v_check v) = [])"
    by (force simp: CheckList_def block_set_def check_type_defs)
  moreover obtain parse procfs v0 where "v = default_vip parse procfs v0"
    using load(2) assms(2) by (auto simp: ApplyDefaults_def Let_def)
  ultimately show "vip_filled v" using default_vip_filled by metis
qed

text \<open>C24: A configuration that loads is one the daemon can run: the names of its VIPs differ and no two of them
  announce the same route; every check has its block, a timeout below its interval and thresholds of at least
  one; the names of the checks of a VIP differ; fail action, prepend lengths and communities are ones the engine
  and the BGP manager accept; and the checks policy compiles to the evaluator the policy manager uses, so the
  manager never falls back to \<open>all\<close>.\<close>

theorem loaded_config_ready:
  assumes "config_Load env path = Inr cfg"
  shows "c_vips cfg \<noteq> [] \<and> distinct (map v_name (c_vips cfg)) \<and>
    (\<forall>v \<in> set (c_vips cfg). \<forall>w \<in> set (c_vips cfg).
       v_name v \<noteq> v_name w \<longrightarrow> \<not> same_nlri (v_prefix v) (v_prefix w)) \<and>
    (\<forall>v \<in> set (c_vips cfg).
       (\<forall>c \<in> set (CheckList v). check_ready c) \<and> distinct (map check_EffectiveName (CheckList v)) \<and>
       policy_ready (v_policy v) \<and>
       (\<forall>penv. pe_expr penv = vd_expr (le_validators env) \<longrightarrow>
          CompileChecksPolicy (pe_expr penv) (EffectiveChecksPolicy v) (map check_EffectiveName (CheckList v)) =
          Inr (ve_eval (newVIPEntry penv v))))"
proof -
  have nonempty: "c_vips cfg \<noteq> []" and "validate_vips (le_validators env) 0 [] [] (c_vips cfg) = []"
    using config_Load_Inr(1) [OF assms] by (simp_all add: Validate_def)
  note valid = validate_vips_Nil [OF this(2)]
  have canon: "vip_canonical v \<noteq> vip_canonical w"
    if "v \<in> set (c_vips cfg)" "w \<in> set (c_vips cfg)" "v_name v \<noteq> v_name w" for v w
    using valid that by (auto simp: distinct_map inj_on_def)
  have ready: "(\<forall>c \<in> set (CheckList v). check_ready c) \<and> distinct (map check_EffectiveName (CheckList v)) \<and>
       policy_ready (v_policy v) \<and>
       (\<forall>penv. pe_expr penv = vd_expr (le_validators env) \<longrightarrow>
          CompileChecksPolicy (pe_expr penv) (EffectiveChecksPolicy v) (map check_EffectiveName (CheckList v)) =
          Inr (ve_eval (newVIPEntry penv v)))" if "v \<in> set (c_vips cfg)" for v
    using loaded_vip [OF assms that]
    by (auto simp: vip_valid_def list_all_iff vip_filled_def check_ready_from newVIPEntry_def Let_def
        EffectiveChecksPolicy_def)
  show ?thesis
    using nonempty valid canon ready same_nlri_canonical by blast
qed

text \<open>A file whose YAML decodes to a small configuration, for the witnesses.\<close>

definition ex_raw_config :: config where
  "ex_raw_config =
     ex_config\<lparr>c_schema := ''v1'',
       c_bgp := (c_bgp ex_config)\<lparr>bgp_neighbors :=
         [\<lparr>nb_name = ''tor'', nb_address = ''10.0.0.254'', nb_peer_asn = 65000, nb_required = None, nb_port = 0,
           nb_local_address = [], nb_passive = False, nb_enable_multihop = False, nb_multihop_ttl = 0,
           nb_bfd = None, nb_auth_password = []\<rparr>]\<rparr>,
       c_vips := [(ex_vip ''web'' ''192.0.2.1/32'' [''a'', ''b''])
                    \<lparr>v_check := (ex_check [])\<lparr>ck_type := [], ck_tcp := None\<rparr>\<rparr>]\<rparr>"

definition ex_validators :: validators where
  "ex_validators =
     \<lparr>vd_regexp = (\<lambda>_. None), vd_jq = (\<lambda>_. None), vd_url = (\<lambda>s. Inl (Errorf ''parse'' [FStr s] None)),
      vd_expr = (\<lambda>s _. Inl (Errorf ''unknown name'' [FStr s] None))\<rparr>"

definition ex_load_env :: load_env where
  "ex_load_env =
     \<lparr>le_ReadFile = (\<lambda>_. Inr ''asn: %{ASN}''), le_LookupEnv = (\<lambda>n. if n = ''ASN'' then Some ''65001'' else None),
      le_yaml = (\<lambda>_. Inr ex_raw_config), le_toml = (\<lambda>s. Inl (Errorf ''toml'' [FStr s] None)),
      le_validators = ex_validators\<rparr>"

definition ex_loaded :: config where
  "ex_loaded = ApplyDefaults (vd_url ex_validators) ex_raw_config"


lemmas defaults_eval = ApplyDefaults_def Let_def default_api_def default_bgp_def default_vip_def default_check_def
  applyCheckDefaults_def applyPolicyDefaults_def applyPathsDefaults_def applyOTelDefaults_def default_signal_def
  default_neighbor_def default_some_def default_string_def default_zero_def or_zero_def check_type_defs

lemmas ex_loaded_eval = ex_loaded_def ex_raw_config_def ex_config_def ex_vip_def ex_check_def ex_policy_def
  ChecksPolicyAny_def ChecksPolicyAll_def ex_validators_def defaults_eval

lemma ex_loaded_vips: "validate_vips ex_validators 0 [] [] (c_vips ex_loaded) = []"
  by (simp add: ex_loaded_eval validateVIP_def single_check_def CheckList_def check_errors_def checkPath_def
      check_EffectiveName_def ValidateCheckName_def checkNameRe_def is_letter_or_underscore_def validateCheck_def
      host_errors_def validatePolicy_Nil policy_ready_def net_eval parse_community_def parse_uint_def
      canonical_prefix_def)

lemma ex_loaded_valid: "Validate ex_validators ex_loaded = []"
proof -
  have "validate_router ex_loaded = []"
    by (simp add: ex_loaded_eval validate_router_def ip_errors_def hasIPv6VIP_def net_eval ParseIP_def has_To4_def
        Unmap_def Is4_def)
  moreover have "validate_api (c_api ex_loaded) = []" "validate_logging (c_logging ex_loaded) = []"
    by (simp_all add: ex_loaded_eval validate_api_def validate_logging_def log_levels_def)
  moreover have "validate_bgp (c_bgp ex_loaded) = []"
    by (simp add: ex_loaded_eval validate_bgp_def ip_errors_def neighbor_errors_def validate_bfd_def
        maxTCPMD5KeyLen_def net_eval ParseIP_def)
  moreover have "c_schema ex_loaded = ''v1''" "c_vips ex_loaded \<noteq> []" "validateOTel (c_otel ex_loaded) = []"
    by (simp_all add: ex_loaded_eval validateOTel_def)
  ultimately show ?thesis using ex_loaded_vips by (simp add: Validate_def)
qed

lemma ex_load: "config_Load ex_load_env ''/etc/pathosd.yaml'' = Inr ex_loaded"
proof -
  have "detectFormat ''/etc/pathosd.yaml'' = ''yaml''" by code_simp
  moreover have "expandEnvPlaceholders (le_LookupEnv ex_load_env) ''asn: %{ASN}'' = Inr ''asn: 65001''"
    by (simp add: ex_load_env_def) code_simp
  ultimately show ?thesis
    using ex_loaded_valid
    by (simp add: config_Load_def LoadRaw_def loadBytes_def Parse_def ex_load_env_def ex_loaded_def Let_def)
qed

lemma ex_loaded_first: "hd (c_vips ex_loaded) \<in> set (c_vips ex_loaded)" "\<not> (v_checks (hd (c_vips ex_loaded)) = [])"
  "v_checks (hd (c_vips ex_loaded)) ! 1 \<in> set (CheckList (hd (c_vips ex_loaded)))"
  by (simp_all add: ex_loaded_eval CheckList_def)

theorem loaded_config_ready_witness:
  "distinct (map v_name (c_vips ex_loaded)) \<and> check_ready (v_checks (hd (c_vips ex_loaded)) ! 1) \<and>
   policy_ready (v_policy (hd (c_vips ex_loaded)))"
  using loaded_config_ready [OF ex_load] ex_loaded_first by blast

theorem ApplyDefaults_complete_witness:
  "vip_filled (hd (c_vips ex_loaded))"
  using ApplyDefaults_complete [of "vd_url ex_validators" ex_raw_config] ex_loaded_first
  unfolding ex_loaded_def [symmetric] by blast

section \<open>Placeholders and communities\<close>

text \<open>C26: Expanding placeholders in three passes is the one-pass specification: from left to right an escaped
  \<open>%%{\<close> is a literal \<open>%{\<close>, a placeholder is the value of its variable taken as it is, and everything else stays;
  the error names exactly the variables without a value. Neither the file nor the environment may contain a NUL
  byte, which the code uses to mark escaped text.\<close>

theorem expandEnvPlaceholders_spec:
  assumes "NUL \<notin> set data" and "\<And>n v. env n = Some v \<Longrightarrow> NUL \<notin> set v"
  shows "expandEnvPlaceholders env data =
    (let (out, missing) = expand_spec env data in if missing = [] then Inr out else Inl (missing_error missing))"
proof -
  have "apfst unescape_all (replace_placeholders env (escape_all data)) = expand_spec env data"
    by (rule expansion_passes) (fact assms)+
  then show ?thesis
    by (auto simp: expandEnvPlaceholders_def Let_def apfst_def map_prod_def split: prod.splits)
qed

theorem expandEnvPlaceholders_spec_witness:
  "expandEnvPlaceholders (\<lambda>n. if n = ''A'' then Some ''x%{B}'' else None) ''%{A} %%{A}'' = Inr ''x%{B} %{A}''"
proof -
  let ?env = "\<lambda>n. if n = ''A'' then Some ''x%{B}'' else None"
  have "expand_spec ?env ''%{A} %%{A}'' = (''x%{B} %{A}'', [])" by code_simp
  then show ?thesis
    by (subst expandEnvPlaceholders_spec) (auto split: if_splits)
qed

lemma low_half: "(0xFFFF :: uint32) = mask 16"
  by (simp add: mask_eq_exp_minus_1)

lemma community_word_halves: "community_word (unat (drop_bit 16 c)) (unat (and c 0xFFFF)) = c"
proof -
  have "community_word (unat (drop_bit 16 c)) (unat (and c 0xFFFF)) =
      ucast (or (push_bit 16 (ucast (drop_bit 16 c) :: uint64)) (ucast (and c 0xFFFF)))"
    by (simp add: community_word_def)
  also have "\<dots> = c"
    unfolding low_half by (rule bit_word_eqI) (auto simp: bit_simps)
  finally show ?thesis .
qed

lemma parse_stringify: "parse_community (stringify_community c) = Inr c"
proof -
  have hi: "unat (drop_bit 16 c) < 2 ^ 16"
    using unsigned_less [of c, where ?'a = nat] by (simp add: drop_bit_eq_div unat_div)
  have lo: "unat (and c 0xFFFF) < 2 ^ 16"
    unfolding low_half take_bit_eq_mask [symmetric] using take_bit_nat_less_exp [of 16 "unat c"] by (simp add: unsigned_take_bit_eq)
  have "split2 CHR '':'' (stringify_community c) = [show_nat (unat (drop_bit 16 c)), show_nat (unat (and c 0xFFFF))]"
    by (simp add: stringify_community_def split2_glue [OF show_nat_no_colon])
  then show ?thesis
    by (simp add: parse_community_def parse_uint_show_nat [OF hi] parse_uint_show_nat [OF lo] community_word_halves)
qed

text \<open>C27: The two texts of a community agree: reading the communities that the route state metric prints gives
  back the communities of the path, whatever their 32 bits.\<close>

theorem communities_roundtrip: "parseCommunities (map stringify_community cs) = Inr cs"
  by (induction cs) (simp_all add: parse_stringify)

end
