(* ===== verification/Checkers.thy ===== *)
theory Checkers
  imports Checkers_App Local_Address Load_Properties
begin

text \<open>
  The factory of checkers (\<open>internal/checks/factory.go\<close>), the contract every checker keeps (the interface
  \<open>Checker\<close> of \<open>check.go\<close>) and when the checkers pass.
\<close>

section \<open>The factory\<close>

type_synonym 'j sql_rows_json = "(string, 'j jq_value) gomap list"

record 'j checker_libs =
  kl_http :: "'j http_libs"
  kl_tls :: tls_env
  kl_sql_accept :: "sql_check_config \<Rightarrow> go_error option"
  kl_sql_jq :: "string \<Rightarrow> go_error + ('j sql_rows_json \<Rightarrow> jq_out)"
  kl_grpc_new :: "string \<Rightarrow> go_error option"

datatype 'j checker =
    HTTPChecker "'j http_checker"
  | DNSChecker dns_check_config
  | PingChecker ping_check_config
  | UDPChecker udp_check_config
  | TCPChecker tcp_check_config
  | ListenChecker listen_check_config
  | SQLChecker "'j sql_rows_json sql_checker"
  | KafkaChecker kafka_checker
  | GRPCChecker grpc_checker

fun checker_Type :: "'j checker \<Rightarrow> string" where
  "checker_Type (HTTPChecker _) = ''http''"
| "checker_Type (DNSChecker _) = ''dns''"
| "checker_Type (PingChecker _) = ''ping''"
| "checker_Type (UDPChecker _) = ''udp''"
| "checker_Type (TCPChecker _) = ''tcp''"
| "checker_Type (ListenChecker _) = ''listen''"
| "checker_Type (SQLChecker _) = ''sql''"
| "checker_Type (KafkaChecker _) = ''kafka''"
| "checker_Type (GRPCChecker _) = ''grpc''"

definition nil_config :: "string \<Rightarrow> go_error" where
  "nil_config type = Errorf ''%s check config is nil'' [FStr type] None"

definition NewChecker :: "'j checker_libs \<Rightarrow> check_config \<Rightarrow> go_error + 'j checker" where
  "NewChecker libs cfg =
     (if ck_type cfg = CheckTypeHTTP then
        (case ck_http cfg of None \<Rightarrow> Inl (nil_config ''http'')
         | Some c \<Rightarrow> map_sum id HTTPChecker (NewHTTPChecker (kl_http libs) c))
      else if ck_type cfg = CheckTypeDNS then
        (case ck_dns cfg of None \<Rightarrow> Inl (nil_config ''dns'') | Some c \<Rightarrow> Inr (DNSChecker (NewDNSChecker c)))
      else if ck_type cfg = CheckTypePing then
        (case ck_ping cfg of None \<Rightarrow> Inl (nil_config ''ping'') | Some c \<Rightarrow> Inr (PingChecker c))
      else if ck_type cfg = CheckTypeUDP then
        (case ck_udp cfg of None \<Rightarrow> Inl (nil_config ''udp'') | Some c \<Rightarrow> Inr (UDPChecker c))
      else if ck_type cfg = CheckTypeTCP then
        (case ck_tcp cfg of None \<Rightarrow> Inl (nil_config ''tcp'') | Some c \<Rightarrow> Inr (TCPChecker c))
      else if ck_type cfg = CheckTypeListen then
        (case ck_listen cfg of None \<Rightarrow> Inl (nil_config ''listen'') | Some c \<Rightarrow> Inr (ListenChecker (NewListenChecker c)))
      else if ck_type cfg = CheckTypeSQL then
        (case ck_sql cfg of None \<Rightarrow> Inl (nil_config ''sql'')
         | Some c \<Rightarrow> map_sum id SQLChecker (NewSQLChecker (kl_tls libs) (kl_sql_accept libs) (kl_sql_jq libs) c))
      else if ck_type cfg = CheckTypeKafka then
        (case ck_kafka cfg of None \<Rightarrow> Inl (nil_config ''kafka'')
         | Some c \<Rightarrow> map_sum id KafkaChecker (NewKafkaChecker (kl_tls libs) c))
      else if ck_type cfg = CheckTypeGRPC then
        (case ck_grpc cfg of None \<Rightarrow> Inl (nil_config ''grpc'')
         | Some c \<Rightarrow> map_sum id GRPCChecker (NewGRPCChecker (kl_tls libs) (kl_grpc_new libs) c))
      else Inl (Errorf ''unsupported check type %q'' [FStr (ck_type cfg)] None))"

text \<open>Everything the outside answers during one run of a check.\<close>

record ('d, 'j) world =
  wd_elapsed :: go_duration
  wd_ctx :: ctx_err
  wd_deadline :: "go_duration option"
  wd_version :: string
  wd_dial :: "string \<Rightarrow> go_error option"
  wd_udp :: udp_env
  wd_dns :: dns_env
  wd_ping_new :: "string \<Rightarrow> go_error option"
  wd_ping :: "pinger \<Rightarrow> (go_error + ping_stats) option"
  wd_float :: float_ops
  wd_procfs :: procfs_env
  wd_http :: "'j http_libs"
  wd_request :: "string \<Rightarrow> string \<Rightarrow> go_error + string"
  wd_send :: "http_request \<Rightarrow> go_error + http_response"
  wd_sql_conv :: "('d, 'j) sql_conv"
  wd_sql_conn :: "go_error option"
  wd_sql :: "nat \<Rightarrow> string \<Rightarrow> go_error + 'd sql_rows"
  wd_sql_dur :: "nat \<Rightarrow> go_duration"
  wd_kafka_client :: "kafka_opt list \<Rightarrow> go_error option"
  wd_kafka :: "string \<Rightarrow> go_error + kafka_meta"
  wd_grpc_code :: "uint32 \<Rightarrow> string"
  wd_grpc :: "string \<Rightarrow> (string, string) gomap \<Rightarrow> grpc_answer"

text \<open>The dynamic call of \<open>Check\<close> on the interface.\<close>

fun checker_Check :: "'j checker \<Rightarrow> ('d, 'j) world \<Rightarrow> check_result" where
  "checker_Check (HTTPChecker c) w =
     http_Check (wd_http w) c (wd_version w) (wd_request w) (wd_send w) (wd_ctx w) (wd_elapsed w)"
| "checker_Check (DNSChecker c) w = dns_Check c (wd_dns w) (wd_ctx w) (wd_elapsed w)"
| "checker_Check (PingChecker c) w = ping_Check c (wd_ping_new w) (wd_ping w) (wd_float w) (wd_elapsed w)"
| "checker_Check (UDPChecker c) w = udp_Check c (wd_udp w) (wd_deadline w) (wd_elapsed w)"
| "checker_Check (TCPChecker c) w =
     tcp_Check c (wd_dial w (JoinHostPort (tcp_host c) (uint_text (tcp_port c)))) (wd_ctx w) (wd_elapsed w)"
| "checker_Check (ListenChecker c) w = listen_Check c (wd_procfs w) (wd_elapsed w)"
| "checker_Check (SQLChecker c) w =
     sql_Check c (wd_sql_conv w) (wd_sql_conn w) (wd_sql w) (wd_sql_dur w) (wd_ctx w) (wd_elapsed w)"
| "checker_Check (KafkaChecker c) w =
     kafka_Check c (wd_kafka_client w (kc_opts c)) (wd_kafka w (kf_topic (kc_cfg c))) (wd_ctx w) (wd_elapsed w)"
| "checker_Check (GRPCChecker c) w = grpc_Check c (wd_grpc_code w) (wd_grpc w) (wd_ctx w) (wd_elapsed w)"

section \<open>The contract of a checker\<close>

text \<open>A result is clean when success excludes an error and a timeout, and the duration is the measured one.\<close>

definition clean :: "check_result \<Rightarrow> bool" where
  "clean r \<longleftrightarrow> (res_success r \<longrightarrow> res_err r = None \<and> \<not> res_timed_out r)"

lemma clean_literals [simp]:
  "clean (failed d e t)" "clean (passed d t)" "clean (failed_err d err)"
  "clean ((failed d e t)\<lparr>res_details := x\<rparr>)" "clean ((passed d t)\<lparr>res_details := x\<rparr>)"
  "clean ((failed d e t)\<lparr>res_timed_out := b\<rparr>)" "clean ((failed_err d err)\<lparr>res_timed_out := b\<rparr>)"
  "clean ((failed d e t)\<lparr>res_timed_out := b, res_details := x\<rparr>)"
  "clean ((failed d e t)\<lparr>res_details := x, res_timed_out := b\<rparr>)"
  by (simp_all add: clean_def failed_def passed_def failed_err_def zero_result_def)

locale checker_contract =
  fixes run :: "'w \<Rightarrow> check_result"
  assumes run_clean: "clean (run w)"
begin

text \<open>The guard around a checker keeps the contract, and adds the address to what a success means.\<close>

lemma guarded_clean: "clean (fst (guarded_Check ifaces elapsed (run w) g))"
proof (cases "ListLocalAddresses ifaces")
  case (Inl err)
  from guarded_Check_unlisted [OF this] show ?thesis by (simp add: clean_def)
next
  case (Inr addrs)
  from guarded_Check_listed [OF this] show ?thesis
    using run_clean by (cases "address_present g addrs") (simp_all add: clean_def)
qed

lemma guarded_success:
  assumes "res_success (fst (guarded_Check ifaces elapsed (run w) g))"
  shows "res_success (run w) \<and> res_err (run w) = None \<and> \<not> res_timed_out (run w)"
proof (cases "ListLocalAddresses ifaces")
  case (Inl err)
  from guarded_Check_unlisted [OF this] assms show ?thesis by simp
next
  case (Inr addrs)
  from guarded_Check_listed [OF this] assms run_clean [of w] show ?thesis
    by (cases "address_present g addrs") (auto simp: clean_def)
qed

end

lemma clean_details: "clean r \<Longrightarrow> clean (r\<lparr>res_details := x\<rparr>)"
  by (simp add: clean_def)

lemma jq_failure_fails: "jq_failure libs jq body dur = Some r \<Longrightarrow> clean r \<and> \<not> res_success r"
  by (auto simp: jq_failure_def failed_def clean_def zero_result_def split: sum.splits jq_out.splits if_splits)

lemma body_failure_fails: "body_failure libs c body dur = Some r \<Longrightarrow> clean r \<and> \<not> res_success r"
  by (auto simp: body_failure_def failed_def clean_def zero_result_def split: if_splits option.splits dest: jq_failure_fails)

lemma evaluateResponse_clean: "clean (evaluateResponse libs c resp dur)"
  by (auto simp: evaluateResponse_def Let_def split: sum.split option.split dest: body_failure_fails)

lemma http_Check_clean: "clean (http_Check libs c v new send ctx el)"
  by (simp add: http_Check_def clean_details evaluateResponse_clean split: sum.split)

lemma dns_queries_clean: "dns_queries env server q ctx el ds names = Inl r \<Longrightarrow> clean r \<and> \<not> res_success r"
  by (induction names arbitrary: ds)
    (auto simp: Let_def clean_def failed_def zero_result_def split: sum.splits if_splits)

lemma dns_Check_clean: "clean (dns_Check cfg env ctx el)"
  by (auto simp: dns_Check_def Let_def split: sum.split dest: dns_queries_clean)

lemma ping_Check_clean: "clean (ping_Check cfg new run fl el)"
  by (auto simp: ping_Check_def Let_def split: sum.split option.split)

lemma udp_Check_clean: "clean (udp_Check cfg env deadline el)"
  by (auto simp: udp_Check_def Let_def split: option.split udp_read.split)

lemma tcp_Check_clean: "clean (tcp_Check cfg dial ctx el)"
  by (auto simp: tcp_Check_def Let_def split: option.split)

lemma listen_Check_clean: "clean (listen_Check cfg env el)"
  by (auto simp: listen_Check_def Let_def split: sum.split option.split)

lemma sql_Check_clean: "clean (sql_Check c cv conn answer qdur ctx el)"
  by (auto simp: sql_Check_def Let_def split: option.split prod.split)

lemma kafka_Check_clean: "clean (kafka_Check c client answer ctx el)"
  by (auto simp: kafka_Check_def Let_def split: option.split sum.split prod.split)

lemma grpc_Check_clean: "clean (grpc_Check c ct call ctx el)"
  by (auto simp: grpc_Check_def checkStandardHealth_def checkCustomMethod_def Let_def split: option.split)

lemmas checks_clean = http_Check_clean dns_Check_clean ping_Check_clean udp_Check_clean tcp_Check_clean
  listen_Check_clean sql_Check_clean kafka_Check_clean grpc_Check_clean

interpretation every: checker_contract "checker_Check c" for c
proof
  show "clean (checker_Check c w)" for w by (cases c) (simp_all add: checks_clean)
qed


section \<open>When a check passes\<close>

lemma failed_sel [simp]:
  "\<not> res_success (failed d e t)" "\<not> res_success (failed_err d err)" "res_success (passed d t)"
  by (simp_all add: failed_def failed_err_def passed_def zero_result_def)

text \<open>An address a socket is bound to serves a host: the host itself or a wildcard that covers its family.\<close>

definition serves :: "ip_addr option \<Rightarrow> ip_addr \<Rightarrow> bool" where
  "serves host a = (case host of None \<Rightarrow> True | Some h \<Rightarrow> a = h \<or> a = IP6 0 [] \<or> a = IP4 0 \<and> Is4 h)"

definition bound_to :: "listen_check_config \<Rightarrow> ip_addr option \<Rightarrow> net_ip_socket \<Rightarrow> bool" where
  "bound_to cfg host s \<longleftrightarrow>
     sk_local_port s = unat (ls_port cfg) \<and> (ls_proto cfg \<noteq> ''tcp'' \<or> sk_st s = tcpListen) \<and>
     (\<exists>a. AddrFromSlice (sk_local_addr s) = Some a \<and> serves host (Unmap a))"

lemma match_line_iff:
  "match_line cfg (ls_proto cfg = ''tcp'') host line \<noteq> None \<longleftrightarrow> (\<exists>s. line = Some s \<and> bound_to cfg host s)"
proof -
  have "(\<not> (\<not> IsUnspecified a \<and> a \<noteq> h) \<and> \<not> (Is6 h \<and> IsUnspecified a \<and> Is4 a)) = serves (Some h) a" for a h
    by (cases a; cases h) (auto simp: IsUnspecified_def serves_def Is4_def Is6_def)
  then show ?thesis
    by (cases line; cases host)
      (auto simp: match_line_def bound_to_def serves_def Let_def split: option.split if_splits)
qed

lemma read_tables_Inr:
  "read_tables cfg tcp host sockets ts = Inr out \<Longrightarrow>
     (\<forall>e. TableError e \<notin> set ts) \<and>
     (out = [] \<longleftrightarrow> sockets = [] \<and> (\<forall>ls. TableLines ls \<in> set ts \<longrightarrow> listen_match cfg ls tcp host = []))"
  by (induction ts arbitrary: sockets) (auto split: table_read.splits)

lemma read_tables_Inl: "read_tables cfg tcp host sockets ts = Inl e \<Longrightarrow> \<exists>e. TableError e \<in> set ts"
  by (induction ts arbitrary: sockets) (auto split: table_read.splits)

lemma listen_match_Nil:
  "listen_match cfg ls (ls_proto cfg = ''tcp'') host \<noteq> [] \<longleftrightarrow> (\<exists>s. Some s \<in> set ls \<and> bound_to cfg host s)"
proof -
  have "listen_match cfg ls (ls_proto cfg = ''tcp'') host \<noteq> [] \<longleftrightarrow>
      (\<exists>l \<in> set ls. match_line cfg (ls_proto cfg = ''tcp'') host l \<noteq> None)"
    by (auto simp: listen_match_def List.map_filter_def filter_empty_conv)
  then show ?thesis unfolding match_line_iff by blast
qed

text \<open>C29: A listen check passes exactly when the kernel's tables show a socket for it: the configuration names a
  port and a protocol, the tables can be read (a missing table is skipped), and in one of them there is a socket
  bound to that port, for TCP a listening one, whose address is the configured host or a wildcard that serves
  the family of the host.\<close>

theorem listen_passes_iff:
  "res_success (listen_Check cfg env elapsed) \<longleftrightarrow>
     ls_port cfg \<noteq> 0 \<and> ls_proto cfg \<in> {''tcp'', ''udp''} \<and> pf_NewFS env (procRoot cfg) = None \<and>
     (\<forall>e. TableError e \<notin> set (listen_tables cfg env)) \<and>
     (\<exists>host ls s. listen_host cfg = Inr host \<and> TableLines ls \<in> set (listen_tables cfg env) \<and> Some s \<in> set ls \<and>
        bound_to cfg host s)"
proof (cases "ls_port cfg \<noteq> 0 \<and> ls_proto cfg \<in> {''tcp'', ''udp''} \<and> pf_NewFS env (procRoot cfg) = None")
  case False
  then show ?thesis by (auto simp: listen_Check_def Let_def split: sum.split option.split)
next
  case ready: True
  show ?thesis
  proof (cases "listen_host cfg")
    case (Inl e)
    with ready show ?thesis by (auto simp: listen_Check_def Let_def)
  next
    case (Inr host)
    let ?r = "read_tables cfg (ls_proto cfg = ''tcp'') host [] (listen_tables cfg env)"
    have "res_success (listen_Check cfg env elapsed) \<longleftrightarrow> (\<exists>out. ?r = Inr out \<and> out \<noteq> [])"
      using ready Inr by (auto simp: listen_Check_def Let_def split: sum.split)
    also have "\<dots> \<longleftrightarrow> (\<forall>e. TableError e \<notin> set (listen_tables cfg env)) \<and>
        (\<exists>ls. TableLines ls \<in> set (listen_tables cfg env) \<and> listen_match cfg ls (ls_proto cfg = ''tcp'') host \<noteq> [])"
      using read_tables_Inr [of cfg "ls_proto cfg = ''tcp''" host "[]" "listen_tables cfg env"]
        read_tables_Inl [of cfg "ls_proto cfg = ''tcp''" host "[]" "listen_tables cfg env"]
      by (cases ?r) blast+
    finally show ?thesis using ready Inr unfolding listen_match_Nil by auto
  qed
qed

lemma contains_iff: "contains s sub \<longleftrightarrow> (\<exists>a b. s = a @ sub @ b)"
proof (induction s)
  case (Cons c cs)
  show ?case
    by (auto simp: Cons.IH has_prefix_iff Cons_eq_append_conv simp del: has_prefix.simps)
qed auto


text \<open>What the body of a response has to satisfy, matcher by matcher.\<close>

definition body_ok :: "'j http_libs \<Rightarrow> 'j http_checker \<Rightarrow> string \<Rightarrow> bool" where
  "body_ok libs c body \<longleftrightarrow>
     (http_response_text (hc_cfg c) = [] \<or> (\<exists>a b. body = a @ http_response_text (hc_cfg c) @ b)) \<and>
     (case hc_re c of None \<Rightarrow> True | Some re \<Rightarrow> re body) \<and>
     (case hc_jq c of None \<Rightarrow> True | Some jq \<Rightarrow> \<exists>j t. hl_json libs body = Inr j \<and> jq j = JqValue True t)"

lemma body_failure_None: "body_failure libs c body dur = None \<longleftrightarrow> body_ok libs c body"
  by (auto simp: body_failure_def body_ok_def contains_iff jq_failure_def
      split: if_splits option.splits sum.splits jq_out.splits)

lemma body_failure_Some: "body_failure libs c body dur = Some r \<Longrightarrow> \<not> body_ok libs c body \<and> \<not> res_success r"
  using body_failure_None [of libs c body dur] body_failure_fails [of libs c body dur r] by simp

lemma evaluateResponse_iff:
  "res_success (evaluateResponse libs c resp dur) \<longleftrightarrow>
     rp_status resp \<in> set (http_response_codes (hc_cfg c)) \<and>
     ((http_response_text (hc_cfg c) = [] \<and> hc_re c = None \<and> hc_jq c = None) \<or>
      (\<exists>body. read_limited maxBodyBytes resp = Inr body \<and> body_ok libs c body))"
  by (auto simp: evaluateResponse_def Let_def body_failure_None split: sum.split option.split dest: body_failure_Some)

text \<open>C28: An HTTP check passes exactly when the request can be sent, the status code is one of the configured ones,
  and, when a body matcher is configured, the first mebibyte of the body arrives, contains the text, matches the
  regular expression and makes the jq expression true. Nothing else can make it pass or fail.\<close>

theorem http_passes_iff:
  "res_success (http_Check libs c version new send ctx elapsed) \<longleftrightarrow>
     (\<exists>host resp. new (http_method (hc_cfg c)) (http_url_of c) = Inr host \<and>
        send (http_request_of c version host) = Inr resp \<and>
        rp_status resp \<in> set (http_response_codes (hc_cfg c)) \<and>
        ((http_response_text (hc_cfg c) = [] \<and> hc_re c = None \<and> hc_jq c = None) \<or>
         (\<exists>body. read_limited maxBodyBytes resp = Inr body \<and> body_ok libs c body)))"
  by (auto simp: http_Check_def evaluateResponse_iff split: sum.split)

text \<open>C30: When a check of a VIP that requires its address succeeds, the address is configured on the host (on the
  named interface, when one is named) and the checker itself succeeded, with no error and without running into
  its timeout, whatever the network, the kernel and the servers answered.\<close>

theorem guarded_check_success:
  assumes "res_success (fst (guarded_Check ifaces elapsed (checker_Check c w) g))"
  shows "res_success (checker_Check c w) \<and> res_err (checker_Check c w) = None \<and>
    \<not> res_timed_out (checker_Check c w) \<and>
    (\<exists>host. ifaces = Inr host \<and> (\<exists>name. on_host host name (lg_addr g) \<and> (lg_iface g = [] \<or> name = lg_iface g)))"
proof -
  obtain addrs where addrs: "ListLocalAddresses ifaces = Inr addrs"
    using assms guarded_Check_unlisted by (metis old.sum.exhaust)
  then obtain host where host: "ifaces = Inr host"
    by (auto simp: ListLocalAddresses_def split: sum.splits)
  have "address_present g addrs" using assms guarded_Check_listed(3) [OF addrs] by metis
  then have "\<exists>name. on_host host name (lg_addr g) \<and> (lg_iface g = [] \<or> name = lg_iface g)"
    using address_present_iff addrs host by blast
  with every.guarded_success [OF assms] host show ?thesis by blast
qed

section \<open>Validated checks can be constructed\<close>

text \<open>The parsers of validation and of the checkers are the same functions of the same packages.\<close>

definition libs_agree :: "validators \<Rightarrow> 'j checker_libs \<Rightarrow> bool" where
  "libs_agree vd libs \<longleftrightarrow>
     hl_url (kl_http libs) = vd_url vd \<and>
     (\<forall>s. vd_regexp vd s = None \<longleftrightarrow> (\<exists>re. hl_regexp (kl_http libs) s = Inr re)) \<and>
     (\<forall>s. vd_jq vd s = None \<longleftrightarrow> (\<exists>q. kl_sql_jq libs s = Inr q)) \<and>
     (\<forall>s. vd_jq vd s = None \<longleftrightarrow> (\<exists>q. hl_jq (kl_http libs) s = Inr q))"

text \<open>Certificates can be read and the clients accept their settings.\<close>

definition system_ok :: "'j checker_libs \<Rightarrow> bool" where
  "system_ok libs \<longleftrightarrow>
     (\<forall>path. \<exists>pem. load_ca (hl_tls (kl_http libs)) True path = Inr pem) \<and>
     (\<forall>path. \<exists>pem. load_ca (kl_tls libs) False path = Inr pem) \<and>
     (\<forall>cfg. kl_sql_accept libs cfg = None) \<and> (\<forall>addr. kl_grpc_new libs addr = None)"

lemma http_constructs:
  assumes "validateHTTPCheck vd prefix h vipPrefix = []" and "libs_agree vd libs" and "system_ok libs"
    and "http_response_jq h = [] \<or> vd_jq vd (http_response_jq h) = None"
  shows "\<exists>k. NewHTTPChecker (kl_http libs) h = Inr k"
proof -
  have tls: "\<not> (http_tls_insecure h \<and> http_tls_ca_cert h \<noteq> [])"
    using assms(1) by (simp add: validateHTTPCheck_def) blast
  obtain proxy where proxy: "(if http_proxy h = [] then Inr None else map_sum id Some (hl_url (kl_http libs) (http_proxy h))) = Inr proxy"
    using assms(1,2) by (auto simp: validateHTTPCheck_def libs_agree_def split: if_splits sum.splits)
  obtain cas where cas: "(if http_tls_ca_cert h = [] then Inr None
      else map_sum id Some (load_ca (hl_tls (kl_http libs)) True (http_tls_ca_cert h))) = Inr cas"
    using assms(3) by (metis (no_types, lifting) map_sum.simps(2) system_ok_def)
  have "http_response_regex h = [] \<or> vd_regexp vd (http_response_regex h) = None"
    using assms(1) by (auto simp: validateHTTPCheck_def split: if_splits option.splits)
  then have "http_response_regex h = [] \<or> (\<exists>re. hl_regexp (kl_http libs) (http_response_regex h) = Inr re)"
    "http_response_jq h = [] \<or> (\<exists>q. hl_jq (kl_http libs) (http_response_jq h) = Inr q)"
    using assms(2,4) unfolding libs_agree_def by blast+
  then have "\<exists>re jq. http_matchers (kl_http libs) h = Inr (re, jq)"
    by (auto simp: http_matchers_def)
  then show ?thesis using tls proxy cas by (auto simp: NewHTTPChecker_def Let_def)
qed

lemma compile_queries_ok:
  assumes "validate_queries vd prefix i names qs = []" and "libs_agree vd libs"
  shows "\<exists>cs. compile_queries (kl_sql_jq libs) j qs = Inr cs"
  using assms(1)
proof (induction qs arbitrary: i j names)
  case (Cons q qs)
  then have q: "q_result_jq q = [] \<or> vd_jq vd (q_result_jq q) = None"
    by (auto simp: Let_def split: if_splits option.splits)
  have "\<exists>names'. validate_queries vd prefix (i + 1) names' qs = []"
    using Cons.prems by (auto simp: Let_def)
  then obtain cs where "compile_queries (kl_sql_jq libs) (j + 1) qs = Inr cs" using Cons.IH by blast
  with q assms(2) show ?case by (auto simp: libs_agree_def split: sum.split)
qed simp

lemma sql_constructs:
  assumes "validateSQLCheck vd prefix s vipPrefix = []" and "libs_agree vd libs" and "system_ok libs"
  shows "\<exists>k. NewSQLChecker (kl_tls libs) (kl_sql_accept libs) (kl_sql_jq libs) s = Inr k"
proof -
  have drv: "sql_driver s = SQLDriverMySQL \<or> sql_driver s = SQLDriverPostgres"
    using assms(1) by (auto simp: validateSQLCheck_def split: if_splits)
  have "\<exists>tc. sqlTLSConfig (kl_tls libs) s = Inr tc"
    using assms(3) by (auto simp: sqlTLSConfig_def Let_def system_ok_def split: sum.split) (metis sum.distinct(1))
  then have conn: "\<exists>t. sqlConnector (kl_tls libs) (kl_sql_accept libs) s = Inr t"
    using drv assms(3) by (auto simp: sqlConnector_def Let_def system_ok_def)
  have "validate_queries vd prefix 0 [] (sql_queries s) = []"
    using assms(1) by (simp add: validateSQLCheck_def)
  from compile_queries_ok [OF this assms(2), of 0]
  have "\<exists>k. newSQLChecker (kl_sql_jq libs) s = Inr k"
    by (cases "sql_queries s = []") (auto simp: newSQLChecker_def)
  with conn show ?thesis by (auto simp: NewSQLChecker_def)
qed

lemma kafka_constructs:
  assumes "validateKafkaCheck prefix k vipPrefix = []" and "system_ok libs"
  shows "\<exists>c. NewKafkaChecker (kl_tls libs) k = Inr c"
proof -
  have "\<exists>tc. kafkaTLSConfig (kl_tls libs) k = Inr tc"
    using assms(2) by (auto simp: kafkaTLSConfig_def Let_def system_ok_def split: sum.split) (metis sum.distinct(1))
  moreover have "\<exists>m. kafkaSASL s = Inr m" if "kf_sasl k = Some s" for s
    using assms(1) that
    by (auto simp: validateKafkaCheck_def kafkaSASL_def KafkaSASLMechanisms_def split: if_splits)
  ultimately show ?thesis
    by (auto simp: NewKafkaChecker_def Let_def split: option.split sum.split)
qed

lemma grpc_code_names: "map fst grpcCodesByName = validGRPCCodeNames"
  by (simp add: grpcCodesByName_def validGRPCCodeNames_def)

lemma parse_ok_codes_ok:
  "\<forall>name \<in> set names. to_lower (filter (\<lambda>c. c \<noteq> CHR ''_'') name) \<in> set validGRPCCodeNames \<Longrightarrow>
     \<exists>cs. parse_ok_codes names = Inr cs"
proof (induction names)
  case (Cons n names)
  then have "parseGRPCCode n \<noteq> None"
    unfolding parseGRPCCode_def map_of_eq_None_iff grpc_code_names [symmetric] by (simp del: not_None_eq)
  with Cons show ?case by auto
qed simp

lemma grpc_constructs:
  assumes "validateGRPCCheck prefix g vipPrefix = []" and "system_ok libs"
  shows "\<exists>c. NewGRPCChecker (kl_tls libs) (kl_grpc_new libs) g = Inr c"
proof -
  have tls: "\<not> (grpc_tls_insecure g \<and> grpc_tls_ca_cert g \<noteq> [])"
    using assms(1) by (auto simp: validateGRPCCheck_def tls_errors_def split: if_splits)
  have "\<exists>cs. parse_ok_codes (grpc_ok_codes g) = Inr cs"
    using assms(1) by (intro parse_ok_codes_ok) (simp add: validateGRPCCheck_def)
  moreover obtain pem where "load_ca (kl_tls libs) False (grpc_tls_ca_cert g) = Inr pem" "\<forall>a. kl_grpc_new libs a = None"
    using assms(2) unfolding system_ok_def by blast
  ultimately show ?thesis using tls by (auto simp: NewGRPCChecker_def Let_def)
qed



section \<open>Concrete runs\<close>

definition ex_error :: go_error where
  "ex_error = Errorf ''refused'' [] None"

definition ex_http_libs :: "unit http_libs" where
  "ex_http_libs =
     \<lparr>hl_url = (\<lambda>s. Inl (Errorf ''parse'' [FStr s] None)),
      hl_tls = \<lparr>te_ReadFile = (\<lambda>_. Inr ''pem''), te_system_pool = None, te_has_certs = (\<lambda>_. True)\<rparr>,
      hl_regexp = (\<lambda>_. Inr (\<lambda>_. True)), hl_jq = (\<lambda>_. Inr (\<lambda>_. JqNone)), hl_json = (\<lambda>_. Inr ())\<rparr>"

definition ex_libs :: "unit checker_libs" where
  "ex_libs =
     \<lparr>kl_http = ex_http_libs, kl_tls = hl_tls ex_http_libs, kl_sql_accept = (\<lambda>_. None),
      kl_sql_jq = (\<lambda>_. Inr (\<lambda>_. JqNone)), kl_grpc_new = (\<lambda>_. None)\<rparr>"

text \<open>A world in which connections are accepted and everything else fails.\<close>

definition ex_world :: "(unit, unit) world" where
  "ex_world =
     \<lparr>wd_elapsed = 3, wd_ctx = CtxNone, wd_deadline = None, wd_version = [], wd_dial = (\<lambda>_. None),
      wd_udp = \<lparr>ue_resolve = (\<lambda>_. Some ex_error), ue_dial = None, ue_set_deadline = None, ue_write = (\<lambda>_. None),
                ue_set_read_deadline = (\<lambda>_. None), ue_read = (\<lambda>_. UDPTimeout)\<rparr>,
      wd_dns = \<lparr>de_exchange = (\<lambda>_ _ _. Inl ex_error), de_rcode_text = (\<lambda>_. [])\<rparr>,
      wd_ping_new = (\<lambda>_. Some ex_error), wd_ping = (\<lambda>_. None), wd_float = \<lparr>fl_div = (/), fl_mul = (*)\<rparr>,
      wd_procfs = \<lparr>pf_NewFS = (\<lambda>_. Some ex_error), pf_table = (\<lambda>_ _. TableMissing)\<rparr>,
      wd_http = ex_http_libs, wd_request = (\<lambda>_ _. Inl ex_error), wd_send = (\<lambda>_. Inl ex_error),
      wd_sql_conv = \<lparr>cv_float = (\<lambda>_. None), cv_time = (\<lambda>_. []), cv_json = (\<lambda>_. JNull)\<rparr>,
      wd_sql_conn = Some ex_error, wd_sql = (\<lambda>_ _. Inl ex_error), wd_sql_dur = (\<lambda>_. 0),
      wd_kafka_client = (\<lambda>_. Some ex_error), wd_kafka = (\<lambda>_. Inl ex_error),
      wd_grpc_code = (\<lambda>_. []),
      wd_grpc = (\<lambda>_ _. \<lparr>ga_err = Some ex_error, ga_code = 14, ga_message = [], ga_serving = 0, ga_serving_text = []\<rparr>)\<rparr>"

theorem guarded_check_success_witness:
  "res_success (checker_Check (TCPChecker \<lparr>tcp_host = ''127.0.0.1'', tcp_port = 80\<rparr>) ex_world) \<and>
   res_err (checker_Check (TCPChecker \<lparr>tcp_host = ''127.0.0.1'', tcp_port = 80\<rparr>) ex_world) = None"
proof -
  let ?ifs = "Inr [\<lparr>if_name = ''lo'', if_addrs = Inr [AddrIPNet [192, 0, 2, 1]]\<rparr>]"
    and ?g = "\<lparr>lg_vip_name = ''web'', lg_prefix = ''192.0.2.1/32'', lg_addr = IP4 3221225985, lg_iface = [],
      lg_known = False, lg_assigned = False\<rparr>"
    and ?c = "TCPChecker \<lparr>tcp_host = ''127.0.0.1'', tcp_port = 80\<rparr>"
  have "res_success (fst (guarded_Check ?ifs 5 (checker_Check ?c ex_world) ?g))"
    by (simp add: guarded_Check_def guard_check_def ListLocalAddresses_def addr_ip_def AddrFromSlice_def of_octets_def
        Unmap_def address_present_def guard_observe_def Let_def tcp_Check_def ex_world_def)
  from guarded_check_success [OF this] show ?thesis by blast
qed


end
