(* ===== verification/Http_Api.thy ===== *)
theory Http_Api
  imports Reload
begin

text \<open>
  The HTTP API (\<open>internal/httpapi/server.go\<close>): what each handler answers and what it does to the daemon, which
  is the reloader with the policy manager, the registry and the schedulers in it.

  A response is its status code and its payload before JSON encoding. The peers, the version and the clock are
  arguments, like the results of triggered checks. Routing, static files, metrics and the rendering of the
  landing page are library code.
\<close>

section \<open>Responses\<close>

record daemon_status =
  ds_router_id :: string
  ds_asn :: uint32
  ds_version :: string
  ds_commit :: string
  ds_start_time :: go_time
  ds_peers :: "peer_status list"
  ds_vips :: "vip_status list"
  ds_config :: "config_status option"

datatype payload =
    PStatus string
  | PError string
  | PReady "peer_status list"
  | PNotReady "peer_status list" "peer_status list"
  | PTrigger string check_result "(string, check_result) gomap"
  | PReload reload_status
  | PDaemon daemon_status
  | PPage string
  | PText string

record response =
  rsp_code :: nat
  rsp_payload :: payload

definition writeJSON :: "nat \<Rightarrow> payload \<Rightarrow> response" where
  "writeJSON code p = \<lparr>rsp_code = code, rsp_payload = p\<rparr>"

section \<open>Dependencies and settings\<close>

text \<open>
  What the server is built from. The policy manager, the registry and the reloader live in the reloader's state;
  the flags say whether the registry and the reloader are given (tests leave them out).
\<close>

record server_deps =
  sd_config :: config
  sd_schedulers :: "(string, sid list) gomap"
  sd_registry :: bool
  sd_reloader :: bool

definition schedulers :: "server_deps \<Rightarrow> 'p reloader \<Rightarrow> (string, sid list) gomap" where
  "schedulers d r = (if sd_registry d then reg_Schedulers (rl_reg r) else sd_schedulers d)"

definition configStatus :: "server_deps \<Rightarrow> 'p reloader \<Rightarrow> config_status option" where
  "configStatus d r = (if sd_reloader d then Some (reload_Status r) else None)"

definition durationOr :: "go_duration option \<Rightarrow> go_duration \<Rightarrow> go_duration" where
  "durationOr d fallback = (case d of None \<Rightarrow> fallback | Some t \<Rightarrow> t)"

record server_config =
  sv_addr :: string
  sv_read_header_timeout :: go_duration
  sv_read_timeout :: go_duration
  sv_write_timeout :: go_duration
  sv_idle_timeout :: go_duration

definition NewServer :: "server_deps \<Rightarrow> server_config" where
  "NewServer d =
     (let api = c_api (sd_config d) in
      \<lparr>sv_addr = api_listen api,
       sv_read_header_timeout = durationOr (api_read_header_timeout api) 10000000000,
       sv_read_timeout = durationOr (api_read_timeout api) 30000000000,
       sv_write_timeout = durationOr (api_write_timeout api) 60000000000,
       sv_idle_timeout = durationOr (api_idle_timeout api) 120000000000\<rparr>)"

section \<open>Status\<close>

text \<open>The loop over the checks of a VIP: the counters of each check, and lowest successes and highest failures of the VIP.\<close>

fun enrich_checks :: "(string \<Rightarrow> scheduler option) \<Rightarrow> bool \<Rightarrow> check_status list \<Rightarrow> int \<times> int \<Rightarrow> check_status list \<times> int \<times> int" where
  "enrich_checks byName first [] (ok, fl) = ([], ok, fl)"
| "enrich_checks byName first (c # cs) (ok, fl) =
     (case byName (cst_name c) of
        None \<Rightarrow> (let (cs', ok', fl') = enrich_checks byName first cs (ok, fl) in (c # cs', ok', fl'))
      | Some s \<Rightarrow>
          (let okN = s_consecutive_ok s; failN = s_consecutive_fail s;
               ok1 = (if first \<or> okN < ok then okN else ok);
               fl1 = (if first \<or> fl < failN then failN else fl);
               (cs', ok', fl') = enrich_checks byName False cs (ok1, fl1)
           in (c\<lparr>cst_consecutive_ok := okN, cst_consecutive_fail := failN\<rparr> # cs', ok', fl')))"

text \<open>\<open>byName\<close>: the last of several schedulers of the same check wins.\<close>

definition sched_by_name :: "server_deps \<Rightarrow> 'p reloader \<Rightarrow> string \<Rightarrow> string \<Rightarrow> scheduler option" where
  "sched_by_name d r vip =
     map_of (fold (\<lambda>s m. gm_put (s_check_name (hp_obj (rl_heap r) s)) (hp_obj (rl_heap r) s) m)
               (gm_get0 [] (schedulers d r) vip) [])"

definition enrich_vip :: "server_deps \<Rightarrow> 'p reloader \<Rightarrow> vip_status \<Rightarrow> vip_status" where
  "enrich_vip d r st =
     (let (cs, ok, fl) = enrich_checks (sched_by_name d r (vst_name st)) True (vst_checks st)
                           (vst_consecutive_ok st, vst_consecutive_fail st)
      in st\<lparr>vst_checks := cs, vst_consecutive_ok := ok, vst_consecutive_fail := fl\<rparr>)"

definition vipStatuses :: "server_deps \<Rightarrow> 'b live_manager reloader \<Rightarrow> vip_status list outcome" where
  "vipStatuses d r =
     (case GetVIPStatuses (lm_mgr (rl_pol r)) of
        Panic msg \<Rightarrow> Panic msg
      | Ret sts \<Rightarrow> Ret (map (enrich_vip d r) sts))"

definition handleHealthz :: response where
  "handleHealthz = writeJSON 200 (PStatus ''ok'')"

definition handleReadyz :: "peer_status list \<Rightarrow> response" where
  "handleReadyz peers =
     (let unready = UnreadyPeers peers in
      if unready = [] then writeJSON 200 (PReady peers) else writeJSON 503 (PNotReady unready peers))"

text \<open>\<open>StartTime\<close> of the status is left at its zero value by the source.\<close>

definition handleStatus ::
    "string \<Rightarrow> string \<Rightarrow> peer_status list \<Rightarrow> server_deps \<Rightarrow> 'b live_manager reloader \<Rightarrow> response outcome" where
  "handleStatus version commit peers d r =
     (case vipStatuses d r of
        Panic msg \<Rightarrow> Panic msg
      | Ret vips \<Rightarrow>
          Ret (writeJSON 200 (PDaemon
            \<lparr>ds_router_id = rt_router_id (c_router (sd_config d)), ds_asn = rt_asn (c_router (sd_config d)),
             ds_version = version, ds_commit = commit, ds_start_time = 0, ds_peers = peers, ds_vips = vips,
             ds_config = configStatus d r\<rparr>)))"

section \<open>The landing page\<close>

record landing_page_data =
  lp_router_id :: string
  lp_asn :: uint32
  lp_version :: string
  lp_commit :: string
  lp_generated_at :: go_time
  lp_peers :: "peer_status list"
  lp_vips :: "vip_status list"
  lp_config :: "config_status option"

definition landing_ConfigNotice :: "(go_time \<Rightarrow> string) \<Rightarrow> landing_page_data \<Rightarrow> string" where
  "landing_ConfigNotice show_time p = ConfigNotice show_time (lp_config p)"

text \<open>
  \<open>render\<close> is the execution of the template: the text written and whether it failed. When it fails after it has
  written something, \<open>http.Error\<close> can no longer change the status code and only appends its text.
\<close>

definition handleLanding ::
    "(landing_page_data \<Rightarrow> string \<times> bool) \<Rightarrow> string \<Rightarrow> string \<Rightarrow> go_time \<Rightarrow> peer_status list \<Rightarrow> server_deps \<Rightarrow>
     'b live_manager reloader \<Rightarrow> response outcome" where
  "handleLanding render version commit now peers d r =
     (case vipStatuses d r of
        Panic msg \<Rightarrow> Panic msg
      | Ret vips \<Rightarrow>
          (let (out, ok) = render \<lparr>lp_router_id = rt_router_id (c_router (sd_config d)),
                 lp_asn = rt_asn (c_router (sd_config d)), lp_version = version, lp_commit = commit,
                 lp_generated_at = now, lp_peers = peers, lp_vips = vips, lp_config = configStatus d r\<rparr> in
           if ok then Ret \<lparr>rsp_code = 200, rsp_payload = PPage out\<rparr>
           else Ret \<lparr>rsp_code = (if out = [] then 500 else 200),
                     rsp_payload = PText (out @ ''internal server error'' @ [CHR 0x0A])\<rparr>))"

section \<open>Triggered checks\<close>

text \<open>
  The loop over the selected schedulers. \<open>answers s\<close> is the error of the request's context when the check of \<open>s\<close>
  is started and the result of the check otherwise. The accumulator is the combined result, the results, the
  health and the details.
\<close>

record trigger_acc =
  ta_combined :: check_result
  ta_results :: "(string, check_result) gomap"
  ta_healthy :: "(string, bool) gomap"
  ta_details :: "string list"

definition trigger_one :: "nat \<Rightarrow> string \<Rightarrow> check_result \<Rightarrow> trigger_acc \<Rightarrow> trigger_acc" where
  "trigger_one i name res acc =
     acc\<lparr>ta_results := gm_put name res (ta_results acc),
         ta_healthy := gm_put name (res_success res) (ta_healthy acc),
         ta_combined := (if i = 0 then res
                         else (ta_combined acc)\<lparr>res_duration := wrap64 (res_duration (ta_combined acc) + res_duration res)\<rparr>),
         ta_details := (if res_detail res \<noteq> [] then ta_details acc @ [name @ '': '' @ res_detail res]
                        else ta_details acc)\<rparr>"

fun trigger_loop ::
    "'p policy_iface \<Rightarrow> (sid \<Rightarrow> go_error option \<times> check_result) \<Rightarrow> nat \<Rightarrow> sid list \<Rightarrow> trigger_acc \<Rightarrow> 'p reloader \<Rightarrow>
     (go_error + trigger_acc) \<times> 'p reloader" where
  "trigger_loop P answers i [] acc r = (Inr acc, r)"
| "trigger_loop P answers i (s # ss) acc r =
     (case answers s of
        (Some err, _) \<Rightarrow> (Inl err, r)
      | (None, res) \<Rightarrow>
          trigger_loop P answers (i + 1) ss (trigger_one i (s_check_name (hp_obj (rl_heap r) s)) res acc)
            (run_scheduler P s res r))"

definition handleTriggerCheck ::
    "'p policy_iface \<Rightarrow> (string \<Rightarrow> (string, bool) gomap \<Rightarrow> 'p \<Rightarrow> bool option) \<Rightarrow>
     (sid \<Rightarrow> go_error option \<times> check_result) \<Rightarrow> server_deps \<Rightarrow> string \<Rightarrow> string \<Rightarrow> 'p reloader \<Rightarrow>
     response \<times> 'p reloader" where
  "handleTriggerCheck P combine answers d name only r =
     (let all = gm_get0 [] (schedulers d r) name in
      if all = [] then (writeJSON 404 (PError (''VIP not found: '' @ name)), r)
      else
        let scheds = (if only \<noteq> [] then filter (\<lambda>s. s_check_name (hp_obj (rl_heap r) s) = only) all else all) in
        if scheds = [] then (writeJSON 404 (PError (''check not found: '' @ only)), r)
        else
          case trigger_loop P answers 0 scheds
                 \<lparr>ta_combined = zero_result, ta_results = [], ta_healthy = [], ta_details = []\<rparr> r of
            (Inl err, r') \<Rightarrow> (writeJSON 500 (PError (error_text err)), r')
          | (Inr acc, r') \<Rightarrow>
              (let combined =
                     (if 1 < length all then
                        zero_result\<lparr>res_duration := res_duration (ta_combined acc),
                          res_detail := str_join (ta_details acc) ''; '',
                          res_success := (case combine name (ta_healthy acc) (rl_pol r') of Some b \<Rightarrow> b | None \<Rightarrow> False)\<rparr>
                      else ta_combined acc)
               in (writeJSON 200 (PTrigger name combined (ta_results acc)), r')))"

text \<open>\<open>CombineChecks\<close> of the manager behind the interface.\<close>

definition manager_combine :: "string \<Rightarrow> (string, bool) gomap \<Rightarrow> 'b live_manager \<Rightarrow> bool option" where
  "manager_combine vip healthy lm = CombineChecks vip healthy (lm_mgr lm)"

section \<open>Reload\<close>

definition reload_code :: "reload_outcome \<Rightarrow> nat" where
  "reload_code o' = (case o' of ReloadRejected \<Rightarrow> 422 | ReloadFailed \<Rightarrow> 500 | _ \<Rightarrow> 200)"

definition handleReload ::
    "reload_env \<Rightarrow> 'p policy_iface \<Rightarrow> server_deps \<Rightarrow> 'p reloader \<Rightarrow> (response \<times> 'p reloader) outcome" where
  "handleReload env P d r =
     (if \<not> sd_reloader d then Ret (writeJSON 501 (PError ''config reload is not available''), r)
      else case Reload env P r of
        Panic msg \<Rightarrow> Panic msg
      | Ret (r', res) \<Rightarrow> Ret (writeJSON (reload_code (rs_outcome res)) (PReload res), r'))"

section \<open>Lemmas\<close>

text \<open>The schedulers behind the checks of a status.\<close>

definition behind :: "(string \<Rightarrow> scheduler option) \<Rightarrow> check_status list \<Rightarrow> scheduler list" where
  "behind byName cs = List.map_filter (\<lambda>c. byName (cst_name c)) cs"

definition fold_counters :: "bool \<Rightarrow> scheduler list \<Rightarrow> int \<times> int \<Rightarrow> int \<times> int" where
  "fold_counters first ss x =
     (if ss = [] then x
      else (let oks = map s_consecutive_ok ss; fls = map s_consecutive_fail ss in
            if first then (Min (set oks), Max (set fls))
            else (Min (insert (fst x) (set oks)), Max (insert (snd x) (set fls)))))"

lemma fold_counters_Cons:
  "fold_counters first (s # ss) (ok, fl) =
     fold_counters False ss
       (if first \<or> s_consecutive_ok s < ok then s_consecutive_ok s else ok,
        if first \<or> fl < s_consecutive_fail s then s_consecutive_fail s else fl)"
  by (cases "ss = []"; cases first)
    (auto simp: fold_counters_def Let_def min_def max_def insert_commute not_less
      Min_insert2 Max_insert2)

lemma enrich_checks_eq:
  "enrich_checks byName first cs x =
     (map (\<lambda>c. case byName (cst_name c) of None \<Rightarrow> c
                | Some s \<Rightarrow> c\<lparr>cst_consecutive_ok := s_consecutive_ok s, cst_consecutive_fail := s_consecutive_fail s\<rparr>) cs,
      fold_counters first (behind byName cs) x)"
proof (induction cs arbitrary: first x)
  case Nil
  show ?case by (cases x) (simp add: behind_def List.map_filter_def fold_counters_def)
next
  case (Cons c cs)
  obtain ok fl where x: "x = (ok, fl)" by force
  show ?case
  proof (cases "byName (cst_name c)")
    case None
    then have "behind byName (c # cs) = behind byName cs" by (simp add: behind_def List.map_filter_simps)
    with None x show ?thesis by (simp add: Cons.IH split: prod.split)
  next
    case (Some s)
    then have "behind byName (c # cs) = s # behind byName cs" by (simp add: behind_def List.map_filter_simps)
    with Some x show ?thesis by (simp add: Cons.IH fold_counters_Cons Let_def split: prod.split)
  qed
qed

lemma runCheck_names [simp]:
  "s_check_name (fst (runCheck res s)) = s_check_name s" "s_vip_name (fst (runCheck res s)) = s_vip_name s"
  by (simp_all add: runCheck_def applyResult_def Let_def split: prod.split)

lemma deliver_heap [simp]: "rl_heap (deliver P s ev r) = rl_heap r" "rl_reg (deliver P s ev r) = rl_reg r"
  by (simp_all add: deliver_def shadow_result_def schedulerThresholds_def Let_def split: sched_event.split callback.split)

lemma fold_deliver_heap [simp]:
  "rl_heap (fold (deliver P s) evs r) = rl_heap r" "rl_reg (fold (deliver P s) evs r) = rl_reg r"
  by (induction evs arbitrary: r) simp_all

lemma run_scheduler_names [simp]:
  "s_check_name (hp_obj (rl_heap (run_scheduler P s res r)) t) = s_check_name (hp_obj (rl_heap r) t)"
  by (simp add: run_scheduler_def split: prod.split) (metis fst_conv runCheck_names(1))

abbreviation sched_name :: "'p reloader \<Rightarrow> sid \<Rightarrow> string" where
  "sched_name r s \<equiv> s_check_name (hp_obj (rl_heap r) s)"

text \<open>What the loop collects over the schedulers that ran.\<close>

definition ran :: "(sid \<Rightarrow> string) \<Rightarrow> (sid \<Rightarrow> check_result) \<Rightarrow> sid list \<Rightarrow> trigger_acc \<Rightarrow> bool" where
  "ran nm res ss acc \<longleftrightarrow>
     (\<forall>n. map_of (ta_results acc) n = map_of (rev (map (\<lambda>s. (nm s, res s)) ss)) n) \<and>
     (\<forall>n. map_of (ta_healthy acc) n = map_option res_success (map_of (ta_results acc) n)) \<and>
     (ss \<noteq> [] \<longrightarrow> res_success (ta_combined acc) = res_success (res (hd ss)) \<and>
                  (length ss = 1 \<longrightarrow> ta_combined acc = res (hd ss)))"

lemma ran_step:
  assumes "ran nm res ss acc"
  shows "ran nm res (ss @ [s]) (trigger_one (length ss) (nm s) (res s) acc)"
proof -
  have r: "map_of (ta_results acc) n = map_of (rev (map (\<lambda>s. (nm s, res s)) ss)) n"
    and h: "map_of (ta_healthy acc) n = map_option res_success (map_of (ta_results acc) n)" for n
    using assms by (simp_all add: ran_def)
  show ?thesis
    using assms by (cases "ss = []") (auto simp: ran_def trigger_one_def gomap_simps r h)
qed

lemma trigger_loop_runs:
  assumes "\<forall>s \<in> set ss. fst (answers s) = None" and "ran nm (\<lambda>s. snd (answers s)) past acc"
    and "\<And>s. sched_name r s = nm s"
  shows "\<exists>acc'. trigger_loop P answers (length past) ss acc r =
      (Inr acc', fold (\<lambda>s. run_scheduler P s (snd (answers s))) ss r) \<and> ran nm (\<lambda>s. snd (answers s)) (past @ ss) acc'"
  using assms
proof (induction ss arbitrary: past acc r)
  case (Cons s ss)
  let ?acc = "trigger_one (length past) (nm s) (snd (answers s)) acc" and ?r = "run_scheduler P s (snd (answers s)) r"
  have "ran nm (\<lambda>s. snd (answers s)) (past @ [s]) ?acc" using ran_step [OF Cons.prems(2), of s] by simp
  from Cons.IH [OF _ this, of ?r] Cons.prems obtain acc' where
    "trigger_loop P answers (length (past @ [s])) ss ?acc ?r = (Inr acc', fold (\<lambda>s. run_scheduler P s (snd (answers s))) ss ?r)"
    "ran nm (\<lambda>s. snd (answers s)) ((past @ [s]) @ ss) acc'" by auto
  with Cons.prems show ?case by (auto split: prod.split)
qed auto

lemma enrich_vip_eq:
  "enrich_vip d r st =
     (let by = sched_by_name d r (vst_name st);
          x = fold_counters True (behind by (vst_checks st)) (vst_consecutive_ok st, vst_consecutive_fail st)
      in st\<lparr>vst_checks := map (\<lambda>c. case by (cst_name c) of None \<Rightarrow> c
             | Some s \<Rightarrow> c\<lparr>cst_consecutive_ok := s_consecutive_ok s, cst_consecutive_fail := s_consecutive_fail s\<rparr>)
             (vst_checks st), vst_consecutive_ok := fst x, vst_consecutive_fail := snd x\<rparr>)"
  by (simp add: enrich_vip_def enrich_checks_eq Let_def case_prod_beta)

section \<open>Properties\<close>

text \<open>C32: Triggering checks through the API runs every selected scheduler of the VIP once with its result, exactly as
  a run on schedule would, and answers 200 with the result of each. With several checks the verdict is the VIP's
  checks policy on the results of this request, in which a check that was not run counts as failed; with one
  check it is that check's result. Nothing runs, and the answer is 404, when nothing is selected.\<close>

theorem trigger_check_verdict:
  assumes "handleTriggerCheck P combine answers d name only r = (resp, r')"
    and "all = gm_get0 [] (schedulers d r) name"
    and "sel = (if only = [] then all else filter (\<lambda>s. sched_name r s = only) all)"
    and "\<forall>s \<in> set sel. fst (answers s) = None" and "distinct (map (sched_name r) sel)"
  shows "if sel = [] then rsp_code resp = 404 \<and> r' = r
    else rsp_code resp = 200 \<and> r' = fold (\<lambda>s. run_scheduler P s (snd (answers s))) sel r \<and>
      (\<exists>combined results healthy. rsp_payload resp = PTrigger name combined results \<and>
         (\<forall>n. map_of results n = map_of (map (\<lambda>s. (sched_name r s, snd (answers s))) sel) n) \<and>
         (\<forall>n. map_of healthy n = map_option res_success (map_of results n)) \<and>
         (if 1 < length all then (res_success combined \<longleftrightarrow> combine name healthy (rl_pol r') = Some True)
          else combined = snd (answers (hd sel))))"
proof (cases "sel = []")
  case True
  then show ?thesis using assms(1-3) by (auto simp: handleTriggerCheck_def writeJSON_def Let_def split: if_splits)
next
  case False
  let ?acc = "\<lparr>ta_combined = zero_result, ta_results = [], ta_healthy = [], ta_details = []\<rparr>"
  have "ran (sched_name r) (\<lambda>s. snd (answers s)) [] ?acc" by (simp add: ran_def)
  from trigger_loop_runs [OF assms(4) this refl, of P] obtain acc' where
    loop: "trigger_loop P answers 0 sel ?acc r = (Inr acc', fold (\<lambda>s. run_scheduler P s (snd (answers s))) sel r)"
    and ran: "ran (sched_name r) (\<lambda>s. snd (answers s)) sel acc'" by auto
  have all: "all \<noteq> []" using False assms(3) by (auto split: if_splits)
  have single: "length sel = 1" if "\<not> 1 < length all"
  proof -
    have "length sel \<le> length all" using assms(3) by simp
    moreover have "0 < length sel" using False by simp
    ultimately show ?thesis using that by linarith
  qed
  let ?pairs = "map (\<lambda>s. (sched_name r s, snd (answers s))) sel"
  have "distinct (map fst ?pairs)" "distinct (map fst (rev ?pairs))"
    using assms(5) by (simp_all add: comp_def rev_map [symmetric])
  then have keys: "map_of (rev ?pairs) = map_of ?pairs" by (simp add: map_of_inject_set)
  have eq: "handleTriggerCheck P combine answers d name only r =
      (writeJSON 200 (PTrigger name
         (if 1 < length all then zero_result\<lparr>res_duration := res_duration (ta_combined acc'),
            res_detail := str_join (ta_details acc') ''; '',
            res_success := (case combine name (ta_healthy acc') (rl_pol (fold (\<lambda>s. run_scheduler P s (snd (answers s))) sel r)) of
                              Some b \<Rightarrow> b | None \<Rightarrow> False)\<rparr>
          else ta_combined acc') (ta_results acc')),
       fold (\<lambda>s. run_scheduler P s (snd (answers s))) sel r)"
    using loop False all unfolding handleTriggerCheck_def Let_def assms(2)[symmetric]
    by (simp add: assms(3) split: if_splits)
  show ?thesis
    using eq assms(1) ran single False keys
    by (auto simp: writeJSON_def ran_def comp_def split: option.splits)
qed


text \<open>In the status of the API the counters of a VIP summarise its checks: with at least one check that a
  scheduler runs, the consecutive successes are the least and the consecutive failures the greatest over those
  schedulers, and every check shows the counters of its own scheduler.\<close>

theorem status_counters:
  assumes "vipStatuses d r = Ret sts" and "st \<in> set sts"
    and "ss = behind (sched_by_name d r (vst_name st)) (vst_checks st)" and "ss \<noteq> []"
  shows "vst_consecutive_ok st = Min (s_consecutive_ok ` set ss) \<and>
    vst_consecutive_fail st = Max (s_consecutive_fail ` set ss) \<and>
    (\<forall>c \<in> set (vst_checks st). \<forall>s. sched_by_name d r (vst_name st) (cst_name c) = Some s \<longrightarrow>
       cst_consecutive_ok c = s_consecutive_ok s \<and> cst_consecutive_fail c = s_consecutive_fail s)"
proof -
  obtain st0 where st: "st = enrich_vip d r st0"
    using assms(1,2) by (auto simp: vipStatuses_def split: outcome.splits)
  let ?by = "sched_by_name d r (vst_name st0)"
  have same: "behind ?by (map (\<lambda>c. case ?by (cst_name c) of None \<Rightarrow> c
      | Some s \<Rightarrow> c\<lparr>cst_consecutive_ok := s_consecutive_ok s, cst_consecutive_fail := s_consecutive_fail s\<rparr>) cs) = behind ?by cs"
    for cs by (induction cs) (auto simp: behind_def List.map_filter_simps split: option.split)
  then have ss: "ss = behind ?by (vst_checks st0)" and eq: "vst_name st = vst_name st0"
    using assms(3) by (simp_all add: st enrich_vip_eq Let_def)
  then show ?thesis
    using assms(4) by (auto simp: st enrich_vip_eq fold_counters_def Let_def split: option.splits)
qed


section \<open>A daemon with one VIP\<close>

definition ex_api_sched :: "sid \<Rightarrow> scheduler" where
  "ex_api_sched s =
     (NewScheduler (ex_scheduler\<lparr>scfg_check_name := (if s = 0 then ''a'' else ''b'')\<rparr>))
       \<lparr>s_consecutive_ok := int s, s_consecutive_fail := 7 - int s\<rparr>"

definition ex_api :: "unit live_manager reloader" where
  "ex_api = ex_reloader
     \<lparr>rl_pol := \<lparr>lm_mgr = NewManager ex_pol_env [ex_vip ''web'' ''192.0.2.1/32'' [''a'', ''b'']] [] None (),
                lm_envs = (\<lambda>_. ex_pol_env)\<rparr>,
      rl_reg := NewRegistry\<lparr>reg_visible := [(''web'', [0, 1])]\<rparr>,
      rl_heap := \<lparr>hp_obj = ex_api_sched, hp_next = 2, hp_closed = []\<rparr>\<rparr>"

definition ex_deps :: server_deps where
  "ex_deps = \<lparr>sd_config = ex_config, sd_schedulers = [], sd_registry = True, sd_reloader = True\<rparr>"

lemma ex_api_sel [simp]:
  "schedulers ex_deps ex_api = [(''web'', [0, 1])]" "hp_obj (rl_heap ex_api) = ex_api_sched"
  "s_check_name (ex_api_sched 0) = ''a''" "s_check_name (ex_api_sched (Suc 0)) = ''b''"
  by (simp_all add: schedulers_def ex_deps_def ex_api_def reg_Schedulers_def ex_api_sched_def ex_scheduler_def NewScheduler_def)

theorem trigger_check_verdict_witness:
  "rsp_code (fst (handleTriggerCheck manager_iface manager_combine (\<lambda>_. (None, ex_result True)) ex_deps ''web'' ''b'' ex_api)) = 200"
proof -
  let ?h = "handleTriggerCheck manager_iface manager_combine (\<lambda>_. (None, ex_result True)) ex_deps ''web'' ''b'' ex_api"
  have "?h = (fst ?h, snd ?h)" "[0, 1] = gm_get0 [] (schedulers ex_deps ex_api) ''web''"
    by (simp_all add: gm_get0_def)
  from trigger_check_verdict [OF this refl] show ?thesis by simp
qed

definition ex_api_checks :: "check_status list" where
  "ex_api_checks = map (\<lambda>n. \<lparr>cst_name = n, cst_type = ''tcp'', cst_health = HealthUnknown, cst_health_name = ''unknown'',
     cst_consecutive_ok = 0, cst_consecutive_fail = 0, cst_last_success = False, cst_last_detail = [], cst_last_time = 0\<rparr>)
     [''a'', ''b'']"

lemma ex_api_statuses:
  "\<exists>st. GetVIPStatuses (lm_mgr (rl_pol ex_api)) = Ret [st] \<and> vst_name st = ''web'' \<and> vst_checks st = ex_api_checks"
  by (simp add: ex_api_def GetVIPStatuses_def NewManager_def newVIPEntry_def vip_status_of_def summarizeChecks_def
      ex_vip_def ex_check_def CheckList_def check_EffectiveName_def zero_result_def HealthStatus_String_def Let_def
      CheckTypeTCP_def ex_api_checks_def)

theorem status_counters_witness:
  "\<exists>st. vipStatuses ex_deps ex_api = Ret [st] \<and> vst_consecutive_ok st = 0 \<and> vst_consecutive_fail st = 7"
proof -
  obtain st0 where st0: "GetVIPStatuses (lm_mgr (rl_pol ex_api)) = Ret [st0]" "vst_name st0 = ''web''"
    "vst_checks st0 = ex_api_checks" using ex_api_statuses by blast
  let ?st = "enrich_vip ex_deps ex_api st0"
  have by_name: "sched_by_name ex_deps ex_api ''web'' = map_of [(''a'', ex_api_sched 0), (''b'', ex_api_sched 1)]"
    by (simp add: sched_by_name_def gm_get0_def)
  then have ss: "behind (sched_by_name ex_deps ex_api (vst_name ?st)) (vst_checks ?st) = [ex_api_sched 0, ex_api_sched 1]"
    by (simp add: behind_def enrich_vip_eq st0 Let_def ex_api_checks_def List.map_filter_simps)
  have ret: "vipStatuses ex_deps ex_api = Ret [?st]" by (simp add: vipStatuses_def st0)
  from status_counters [OF ret _ ss [symmetric]] ret show ?thesis by (auto simp: ex_api_sched_def)
qed

end
