(* ===== verification/Commands.thy ===== *)
theory Commands
  imports Checkers Http_Api
begin

text \<open>
  The subcommands of the binary (\<open>cmd/pathosd\<close>): \<open>check\<close>, \<open>healthcheck\<close>, \<open>reload\<close>, \<open>run\<close>, \<open>validate\<close>, \<open>jq-test\<close> and
  the exit of the process. A command is the function from what files, clock and network answer to its exit and
  what it prints; the layout of tables (\<open>text/tabwriter\<close>), JSON and jq are library code and arguments.
\<close>

definition exitUnhealthy :: nat where "exitUnhealthy = 1"
definition exitInternal :: nat where "exitInternal = 200"

text \<open>A command ends with success, with an exit code and message, or with a plain error (kong's exit code 1).\<close>

datatype cmd_exit = ExitOK | ExitCode nat string | ExitError go_error

section \<open>The check command\<close>

record check_cmd =
  cc_config :: string
  cc_vip :: "string list"
  cc_check :: "string list"
  cc_format :: string
  cc_timeout :: go_duration
  cc_skip_local_address :: bool

record check_result_report =
  cr_name :: string
  cr_type :: string
  cr_ran :: bool
  cr_success :: bool
  cr_detail :: string
  cr_duration :: go_duration
  cr_timed_out :: bool
  cr_details :: "check_details option"

record check_report =
  rep_vip :: string
  rep_prefix :: string
  rep_policy :: string
  rep_healthy :: bool
  rep_checks :: "check_result_report list"

fun select_named :: "vip_config list \<Rightarrow> string list \<Rightarrow> go_error + vip_config list" where
  "select_named all [] = Inr []"
| "select_named all (name # names) =
     (case find (\<lambda>v. v_name v = name) all of
        None \<Rightarrow> Inl (Errorf ''no VIP named %q in config'' [FStr name] None)
      | Some v \<Rightarrow> (case select_named all names of Inl e \<Rightarrow> Inl e | Inr vs \<Rightarrow> Inr (v # vs)))"

definition selectVIPs :: "config \<Rightarrow> string list \<Rightarrow> go_error + vip_config list" where
  "selectVIPs cfg names = (if names = [] then Inr (c_vips cfg) else select_named (c_vips cfg) names)"

fun verifyCheckNames :: "vip_config list \<Rightarrow> string list \<Rightarrow> go_error option" where
  "verifyCheckNames vips [] = None"
| "verifyCheckNames vips (want # wants) =
     (if list_ex (\<lambda>v. list_ex (\<lambda>c. check_EffectiveName c = want) (CheckList v)) vips then verifyCheckNames vips wants
      else Some (Errorf ''no check named %q in the selected VIPs'' [FStr want] None))"

text \<open>A built checker: the checker and the guard around it, if any.\<close>

definition build :: "'j checker_libs \<Rightarrow> bool \<Rightarrow> vip_config \<Rightarrow> check_config \<Rightarrow> go_error + 'j checker \<times> local_address_guard option" where
  "build libs skip v c =
     (case NewChecker libs c of
        Inl e \<Rightarrow> Inl e
      | Inr k \<Rightarrow>
          (if v_require_local_address v \<and> \<not> skip then
             (case NewLocalAddressGuard (v_name v) (v_prefix v) (v_local_interface v) of
                Inl e \<Rightarrow> Inl e | Inr g \<Rightarrow> Inr (k, Some g))
           else Inr (k, None)))"

text \<open>
  The run of one check: the world may depend on the VIP, the check and the timeout of its context. Reading the
  interfaces for the guard is the argument \<open>ifaces\<close>.
\<close>

definition run_built ::
    "go_error + net_interface list \<Rightarrow> ('d, 'j) world \<Rightarrow> 'j checker \<times> local_address_guard option \<Rightarrow> check_result" where
  "run_built ifaces w b =
     (case b of
        (k, None) \<Rightarrow> checker_Check k w
      | (k, Some g) \<Rightarrow> fst (guarded_Check ifaces (wd_elapsed w) (checker_Check k w) g))"

definition empty_report :: "check_config \<Rightarrow> check_result_report" where
  "empty_report c =
     \<lparr>cr_name = check_EffectiveName c, cr_type = ck_type c, cr_ran = False, cr_success = False, cr_detail = [],
      cr_duration = 0, cr_timed_out = False, cr_details = None\<rparr>"

definition report_of :: "check_config \<Rightarrow> check_result \<Rightarrow> check_result_report" where
  "report_of c res =
     (empty_report c)\<lparr>cr_ran := True, cr_success := res_success res,
       cr_detail := (if res_detail res = [] then (case res_err res of Some e \<Rightarrow> error_text e | None \<Rightarrow> [])
                     else res_detail res),
       cr_duration := res_duration res, cr_timed_out := res_timed_out res, cr_details := res_details res\<rparr>"

definition check_timeout :: "check_cmd \<Rightarrow> check_config \<Rightarrow> go_duration" where
  "check_timeout cmd c = (if 0 < cc_timeout cmd then cc_timeout cmd else (case ck_timeout c of Some t \<Rightarrow> t | None \<Rightarrow> 0))"

definition run_check ::
    "'j checker_libs \<Rightarrow> go_error + net_interface list \<Rightarrow> (string \<Rightarrow> string \<Rightarrow> go_duration \<Rightarrow> ('d, 'j) world) \<Rightarrow> check_cmd \<Rightarrow>
     vip_config \<Rightarrow> check_config \<Rightarrow> go_error + check_result_report" where
  "run_check libs ifaces world cmd v c =
     (if cc_check cmd \<noteq> [] \<and> \<not> List.member (cc_check cmd) (check_EffectiveName c) then
        Inr ((empty_report c)\<lparr>cr_detail := ''not selected''\<rparr>)
      else case build libs (cc_skip_local_address cmd) v c of
             Inl e \<Rightarrow> Inl (Errorf ''vip %s check %s: %w'' [FStr (v_name v), FStr (check_EffectiveName c)] (Some e))
           | Inr b \<Rightarrow>
               Inr (report_of c (run_built ifaces (world (v_name v) (check_EffectiveName c) (check_timeout cmd c)) b)))"

fun collect :: "('a \<Rightarrow> go_error + 'b) \<Rightarrow> 'a list \<Rightarrow> go_error + 'b list" where
  "collect f [] = Inr []"
| "collect f (x # xs) =
     (case f x of Inl e \<Rightarrow> Inl e | Inr y \<Rightarrow> (case collect f xs of Inl e \<Rightarrow> Inl e | Inr ys \<Rightarrow> Inr (y # ys)))"

text \<open>The health of a report: its checks combined by the policy; a check that did not run is unhealthy.\<close>

definition report_health :: "check_result_report list \<Rightarrow> (string, bool) gomap" where
  "report_health rs = fold (\<lambda>r m. gm_put (cr_name r) (cr_ran r \<and> cr_success r) m) rs []"

definition combine_report :: "expr_compiler \<Rightarrow> vip_config \<times> check_result_report list \<Rightarrow> go_error + check_report" where
  "combine_report ex vr =
     (case vr of (v, rs) \<Rightarrow>
        case CompileChecksPolicy ex (EffectiveChecksPolicy v) (map cr_name rs) of
          Inl e \<Rightarrow> Inl (Errorf ''vip %s: %w'' [FStr (v_name v)] (Some e))
        | Inr ev \<Rightarrow>
            Inr \<lparr>rep_vip = v_name v, rep_prefix = v_prefix v, rep_policy = EffectiveChecksPolicy v,
                 rep_healthy = Eval ev (report_health rs), rep_checks = rs\<rparr>)"

definition execute ::
    "'j checker_libs \<Rightarrow> expr_compiler \<Rightarrow> go_error + net_interface list \<Rightarrow>
     (string \<Rightarrow> string \<Rightarrow> go_duration \<Rightarrow> ('d, 'j) world) \<Rightarrow> check_cmd \<Rightarrow> config \<Rightarrow> go_error + check_report list" where
  "execute libs ex ifaces world cmd cfg =
     (case selectVIPs cfg (cc_vip cmd) of
        Inl e \<Rightarrow> Inl e
      | Inr vips \<Rightarrow>
          (case verifyCheckNames vips (cc_check cmd) of
             Some e \<Rightarrow> Inl e
           | None \<Rightarrow>
               (case collect (\<lambda>v. map_sum id (Pair v) (collect (run_check libs ifaces world cmd v) (CheckList v))) vips of
                  Inl e \<Rightarrow> Inl e
                | Inr rs \<Rightarrow> collect (combine_report ex) rs)))"

text \<open>The table: the mark of a check and its line; durations are rounded to microseconds.\<close>

definition check_mark :: "check_result_report \<Rightarrow> string" where
  "check_mark cr =
     (if \<not> cr_ran cr then ''SKIP''
      else if \<not> cr_success cr \<and> cr_timed_out cr then ''TIMEOUT''
      else if \<not> cr_success cr then ''FAIL''
      else ''OK'')"

text \<open>\<open>Duration.Round\<close>: to the nearest multiple, halves away from zero, saturating.\<close>

definition round_duration :: "go_duration \<Rightarrow> go_duration \<Rightarrow> go_duration" where
  "round_duration m d =
     (let r = abs d mod m; u = (if 2 * r < m then abs d - r else abs d + (m - r)) in
      max (- (2 ^ 63)) (min (2 ^ 63 - 1) (if d < 0 then - u else u)))"

text \<open>\<open>strings.TrimSpace\<close> on ASCII white space.\<close>

definition is_space :: "char \<Rightarrow> bool" where
  "is_space c = List.member [9, 10, 11, 12, 13, 32] (of_char c :: nat)"

definition trim_space :: "string \<Rightarrow> string" where
  "trim_space s = rev (dropWhile is_space (rev (dropWhile is_space s)))"

definition check_line :: "check_result_report \<Rightarrow> string" where
  "check_line cr =
     ''  '' @ str_join [check_mark cr, cr_name cr, cr_type cr,
       (if cr_ran cr then duration_text (round_duration 1000 (cr_duration cr)) else []), trim_space (cr_detail cr)]
       [CHR 0x09] @ [CHR 0x0A]"

definition report_text :: "check_report \<Rightarrow> string" where
  "report_text r =
     ''VIP '' @ rep_vip r @ '' ('' @ rep_prefix r @ ''): '' @ (if rep_healthy r then ''healthy'' else ''unhealthy'') @
     '' ['' @ rep_policy r @ '']'' @ [CHR 0x0A] @ concat (map check_line (rep_checks r))"

text \<open>\<open>flush\<close> lays out and writes the table, \<open>encode\<close> writes the reports as JSON.\<close>

definition check_print ::
    "(string \<Rightarrow> go_error option) \<Rightarrow> (check_report list \<Rightarrow> go_error option) \<Rightarrow> check_cmd \<Rightarrow> check_report list \<Rightarrow>
     go_error option" where
  "check_print flush encode cmd reports =
     (if cc_format cmd = ''json'' then encode reports
      else flush (str_join (map report_text reports) [CHR 0x0A]))"

definition CheckCmd_Run ::
    "load_env \<Rightarrow> 'j checker_libs \<Rightarrow> go_error + net_interface list \<Rightarrow> (string \<Rightarrow> string \<Rightarrow> go_duration \<Rightarrow> ('d, 'j) world) \<Rightarrow>
     (string \<Rightarrow> go_error option) \<Rightarrow> (check_report list \<Rightarrow> go_error option) \<Rightarrow> check_cmd \<Rightarrow> cmd_exit" where
  "CheckCmd_Run env libs ifaces world flush encode cmd =
     (case config_Load env (cc_config cmd) of
        Inl e \<Rightarrow> ExitCode exitInternal (''pathosd: error: loading config: '' @ error_text e)
      | Inr cfg \<Rightarrow>
          (case execute libs (vd_expr (le_validators env)) ifaces world cmd cfg of
             Inl e \<Rightarrow> ExitCode exitInternal (''pathosd: error: '' @ error_text e)
           | Inr reports \<Rightarrow>
               (case check_print flush encode cmd reports of
                  Some e \<Rightarrow> ExitCode exitInternal (''pathosd: error: '' @ error_text e)
                | None \<Rightarrow>
                    (let unhealthy = length (filter (\<lambda>r. \<not> rep_healthy r) reports) in
                     if 0 < unhealthy then
                       ExitCode exitUnhealthy (sprintf ''%d of %d VIPs unhealthy''
                         [FInt (int unhealthy), FInt (int (length reports))] [])
                     else ExitOK))))"

section \<open>Finding the daemon\<close>

definition defaultAPIAddr :: string where "defaultAPIAddr = ''127.0.0.1:59179''"

definition loopbackFor :: "string \<Rightarrow> go_error + string" where
  "loopbackFor listen =
     (case SplitHostPort listen of
        Inl e \<Rightarrow> Inl (Errorf ''api address %q: %w'' [FStr listen] (Some e))
      | Inr (host, port) \<Rightarrow>
          Inr (JoinHostPort (if host = [] \<or> host = ''0.0.0.0'' then ''127.0.0.1'' else if host = ''::'' then ''::1'' else host)
                 port))"

text \<open>\<open>not_exist\<close> is \<open>errors.Is (err, fs.ErrNotExist)\<close>.\<close>

definition resolveAPIAddr ::
    "(string \<Rightarrow> go_error + config) \<Rightarrow> (go_error \<Rightarrow> bool) \<Rightarrow> string \<Rightarrow> string \<Rightarrow> bool \<Rightarrow> go_error + string" where
  "resolveAPIAddr load not_exist addr configPath missingOK =
     (case (if addr = [] \<and> configPath \<noteq> [] then
              (case load configPath of
                 Inl e \<Rightarrow> if missingOK \<and> not_exist e then Inr [] else Inl (Errorf ''loading config: %w'' [] (Some e))
               | Inr cfg \<Rightarrow> Inr (api_listen (c_api cfg)))
            else Inr addr) of
        Inl e \<Rightarrow> Inl e
      | Inr listen \<Rightarrow> if listen = [] then Inr defaultAPIAddr else loopbackFor listen)"

section \<open>The health check command\<close>

record healthcheck_cmd =
  hk_addr :: string
  hk_config :: string
  hk_live :: bool
  hk_quiet :: bool

text \<open>An answer: the status code and the body, or the error of reading it; \<open>peers\<close> decodes a body.\<close>

record http_answer =
  an_code :: int
  an_body :: "go_error + string"

definition probe ::
    "(string \<Rightarrow> go_error + http_answer) \<Rightarrow> (string \<Rightarrow> peer_status list option) \<Rightarrow> healthcheck_cmd \<Rightarrow> string \<Rightarrow>
     string \<times> bool \<times> go_error option" where
  "probe get peers c addr =
     (let path = (if hk_live c then ''/healthz'' else ''/readyz'') in
      case get (''http://'' @ addr @ path) of
        Inl e \<Rightarrow> ([], False, Some e)
      | Inr a \<Rightarrow>
          (let code_err = Errorf ''GET %s: HTTP %d'' [FStr path, FInt (an_code a)] None in
           case an_body a of
             Inl e \<Rightarrow> ([], False, Some (Errorf ''reading %s: %w'' [FStr path] (Some e)))
           | Inr body \<Rightarrow>
               (if hk_live c then
                  (if an_code a \<noteq> 200 then ([], False, Some code_err)
                   else (''HTTP API answers on '' @ addr, True, None))
                else
                  let summary = (case peers body of None \<Rightarrow> error_text code_err | Some ps \<Rightarrow> SummarizePeers ps) in
                  if an_code a = 200 then (summary, True, None)
                  else if an_code a = 503 then (summary, False, None)
                  else ([], False, Some code_err))))"

text \<open>The exit and the line printed.\<close>

definition HealthcheckCmd_run ::
    "(string \<Rightarrow> go_error + config) \<Rightarrow> (go_error \<Rightarrow> bool) \<Rightarrow> (string \<Rightarrow> go_error + http_answer) \<Rightarrow>
     (string \<Rightarrow> peer_status list option) \<Rightarrow> healthcheck_cmd \<Rightarrow> cmd_exit \<times> string" where
  "HealthcheckCmd_run load not_exist get peers c =
     (case resolveAPIAddr load not_exist (hk_addr c) (hk_config c) True of
        Inl e \<Rightarrow> (ExitCode exitInternal (''pathosd: error: '' @ error_text e), [])
      | Inr addr \<Rightarrow>
          (let (summary0, healthy, err) = probe get peers c addr;
               summary = (case err of Some e \<Rightarrow> error_text e | None \<Rightarrow> summary0);
               verdict = (if hk_live c then ''alive'' else ''ready'') in
           if \<not> healthy then
             (ExitCode exitUnhealthy (if hk_quiet c then [] else ''not '' @ verdict @ '': '' @ summary), [])
           else (ExitOK, if hk_quiet c then [] else verdict @ '': '' @ summary @ [CHR 0x0A])))"

section \<open>The reload command\<close>

definition describeReload :: "reload_status \<Rightarrow> string" where
  "describeReload res =
     (let parts =
        (if rs_added res \<noteq> [] then [''added '' @ str_join (rs_added res) '', ''] else []) @
        (if rs_removed res \<noteq> [] then [''removed '' @ str_join (rs_removed res) '', ''] else []) @
        (if rs_changed res \<noteq> [] then
           [''changed '' @ str_join (rs_changed res) '', '' @
            (if rs_pending res \<noteq> [] then '' (pending verdict: '' @ str_join (rs_pending res) '', '' @ '')'' else [])]
         else []) @
        (if rs_error res \<noteq> [] then [rs_error res] else []) @
        rs_errors res
      in if parts = [] then outcome_text (rs_outcome res)
         else outcome_text (rs_outcome res) @ '': '' @ str_join parts ''; '')"

text \<open>
  \<open>decode\<close> is \<open>json.Unmarshal\<close> of the body; a status without an outcome is no reload status. \<open>trim\<close> drops the
  invalid UTF-8 of the body and the white space around it.
\<close>

definition postReload ::
    "(string \<Rightarrow> go_error + http_answer) \<Rightarrow> (string \<Rightarrow> reload_status option) \<Rightarrow> (string \<Rightarrow> string) \<Rightarrow> string \<Rightarrow>
     go_error + reload_status" where
  "postReload post decode trim addr =
     (case post (''http://'' @ addr @ ''/api/v1/reload'') of
        Inl e \<Rightarrow> Inl e
      | Inr a \<Rightarrow>
          (case an_body a of
             Inl e \<Rightarrow> Inl (Errorf ''reading response: %w'' [] (Some e))
           | Inr body \<Rightarrow>
               (case decode body of
                  Some res \<Rightarrow>
                    if rs_outcome res = ReloadNone
                    then Inl (Errorf ''POST /api/v1/reload: HTTP %d: %s'' [FInt (an_code a), FStr (trim body)] None)
                    else Inr res
                | None \<Rightarrow> Inl (Errorf ''POST /api/v1/reload: HTTP %d: %s'' [FInt (an_code a), FStr (trim body)] None))))"

definition ReloadCmd_run ::
    "(string \<Rightarrow> go_error + config) \<Rightarrow> (go_error \<Rightarrow> bool) \<Rightarrow> (string \<Rightarrow> go_error + http_answer) \<Rightarrow>
     (string \<Rightarrow> reload_status option) \<Rightarrow> (string \<Rightarrow> string) \<Rightarrow> string \<Rightarrow> string \<Rightarrow> cmd_exit \<times> string" where
  "ReloadCmd_run load not_exist post decode trim addr config =
     (case resolveAPIAddr load not_exist addr config False of
        Inl e \<Rightarrow> (ExitCode exitInternal (''pathosd: error: '' @ error_text e), [])
      | Inr a \<Rightarrow>
          (case postReload post decode trim a of
             Inl e \<Rightarrow> (ExitCode exitUnhealthy (''reload not applied: '' @ error_text e), [])
           | Inr res \<Rightarrow>
               (let line = describeReload res in
                if \<not> ReloadStatus_OK (Some res) then (ExitCode exitUnhealthy line, [])
                else (ExitOK, line @ [CHR 0x0A]))))"

section \<open>The run and validate commands\<close>

definition applyRunOverrides :: "config \<Rightarrow> bool \<Rightarrow> config" where
  "applyRunOverrides cfg debug =
     (if debug then cfg\<lparr>c_logging := (c_logging cfg)\<lparr>log_level := ''debug''\<rparr>\<rparr> else cfg)"

text \<open>\<open>daemon\<close> is what running the daemon on the configuration, the path, the bytes and the flag returns.\<close>

definition RunCmd_Run ::
    "load_env \<Rightarrow> (config \<Rightarrow> string \<Rightarrow> string option \<Rightarrow> bool \<Rightarrow> go_error option) \<Rightarrow> string \<Rightarrow> bool \<Rightarrow> cmd_exit" where
  "RunCmd_Run env daemon path debug =
     (case LoadRaw env path of
        (Inl e, _) \<Rightarrow> ExitError (Errorf ''loading config: %w'' [] (Some e))
      | (Inr cfg, raw) \<Rightarrow>
          (case daemon (applyRunOverrides cfg debug) path raw debug of
             Some e \<Rightarrow> ExitError (Errorf ''running daemon: %w'' [] (Some e))
           | None \<Rightarrow> ExitOK))"

definition ValidateCmd_Run :: "load_env \<Rightarrow> string \<Rightarrow> cmd_exit \<times> string" where
  "ValidateCmd_Run env path =
     (case config_Load env path of
        Inl e \<Rightarrow> (ExitError (Errorf ''validation failed: %w'' [] (Some e)), [])
      | Inr _ \<Rightarrow> (ExitOK, ''configuration is valid'' @ [CHR 0x0A]))"

section \<open>The jq-test command\<close>

text \<open>
  The loop over the results of a jq query. An iterator may be endless, so the loop is a partial function: \<open>None\<close>
  is a run that never ends. \<open>nxt it\<close> is the next result, printed as JSON, and the iterator after it.
\<close>

partial_function (option) jq_loop ::
    "('i \<Rightarrow> ((go_error + string) \<times> 'i) option) \<Rightarrow> 'i \<Rightarrow> string \<Rightarrow> (cmd_exit \<times> string) option" where
  "jq_loop nxt it out =
     (case nxt it of
        None \<Rightarrow> Some (ExitOK, out)
      | Some (Inl e, _) \<Rightarrow> Some (ExitError (Errorf ''JQ error: %w'' [] (Some e)), out)
      | Some (Inr text, it') \<Rightarrow> jq_loop nxt it' (out @ text @ [CHR 0x0A]))"

text \<open>
  The deferred function assigns a failed \<open>Close\<close> to the \<open>err\<close> of the inner block and not to the result, so closing
  has no effect on the exit.
\<close>

definition JQTestCmd_Run ::
    "(string \<Rightarrow> go_error + 'q) \<Rightarrow> (string \<Rightarrow> go_error + string) \<Rightarrow> string \<Rightarrow> (string \<Rightarrow> go_error + 'd) \<Rightarrow> ('q \<Rightarrow> 'd \<Rightarrow> 'i) \<Rightarrow>
     ('i \<Rightarrow> ((go_error + string) \<times> 'i) option) \<Rightarrow> string \<Rightarrow> string \<Rightarrow> (cmd_exit \<times> string) option" where
  "JQTestCmd_Run parse open_file stdin decode run nxt expression path =
     (case parse expression of
        Inl e \<Rightarrow> Some (ExitError (Errorf ''invalid JQ expression: %w'' [] (Some e)), [])
      | Inr query \<Rightarrow>
          (case (if path = [] then Inr stdin else open_file path) of
             Inl e \<Rightarrow> Some (ExitError e, [])
           | Inr input \<Rightarrow>
               (case decode input of
                  Inl e \<Rightarrow> Some (ExitError (Errorf ''invalid JSON input: %w'' [] (Some e)), [])
                | Inr v \<Rightarrow> jq_loop nxt (run query v) [])))"

section \<open>The exit of the process\<close>

text \<open>What goes to standard error and the exit code; \<open>fatal\<close> is \<open>FatalIfErrorf\<close> of kong on a plain error.\<close>

definition main_exit :: "(go_error \<Rightarrow> string \<times> nat) \<Rightarrow> cmd_exit \<Rightarrow> string \<times> nat" where
  "main_exit fatal ex =
     (case ex of
        ExitOK \<Rightarrow> ([], 0)
      | ExitCode code msg \<Rightarrow> (if msg \<noteq> [] then msg @ [CHR 0x0A] else [], code)
      | ExitError e \<Rightarrow> fatal e)"

section \<open>Termination of jq-test\<close>

text \<open>The iterator after \<open>n\<close> results that are not errors.\<close>

fun jq_advance :: "('i \<Rightarrow> ((go_error + string) \<times> 'i) option) \<Rightarrow> nat \<Rightarrow> 'i \<Rightarrow> 'i option" where
  "jq_advance nxt 0 it = Some it"
| "jq_advance nxt (Suc n) it = (case nxt it of Some (Inr _, it') \<Rightarrow> jq_advance nxt n it' | _ \<Rightarrow> None)"

definition jq_stops :: "('i \<Rightarrow> ((go_error + string) \<times> 'i) option) \<Rightarrow> 'i \<Rightarrow> bool" where
  "jq_stops nxt it \<longleftrightarrow> (case nxt it of Some (Inr _, _) \<Rightarrow> False | _ \<Rightarrow> True)"

lemma jq_loop_ends: "jq_loop nxt it out = Some y \<Longrightarrow> \<exists>n it'. jq_advance nxt n it = Some it' \<and> jq_stops nxt it'"
proof (induction nxt it out y rule: jq_loop.raw_induct [rotated, consumes 1, case_names step])
  case (step loop nxt it out y)
  show ?case
  proof (cases "nxt it")
    case None
    then have "jq_advance nxt 0 it = Some it" "jq_stops nxt it" by (simp_all add: jq_stops_def)
    then show ?thesis by blast
  next
    case (Some p)
    obtain v it' where p: "p = (v, it')" by force
    show ?thesis
    proof (cases v)
      case (Inl e)
      with Some p have "jq_advance nxt 0 it = Some it" "jq_stops nxt it" by (simp_all add: jq_stops_def)
      then show ?thesis by blast
    next
      case (Inr t)
      with step Some p obtain n i where "jq_advance nxt n it' = Some i" "jq_stops nxt i" by fastforce
      with Some p Inr have "jq_advance nxt (Suc n) it = Some i" "jq_stops nxt i" by simp_all
      then show ?thesis by blast
    qed
  qed
qed

lemma jq_loop_returns:
  "jq_advance nxt n it = Some it' \<Longrightarrow> jq_stops nxt it' \<Longrightarrow> \<exists>y. jq_loop nxt it out = Some y"
proof (induction n arbitrary: it out)
  case 0
  then show ?case by (subst jq_loop.simps) (auto simp: jq_stops_def split: option.splits sum.splits)
next
  case (Suc n)
  then obtain t i where "nxt it = Some (Inr t, i)" "jq_advance nxt n i = Some it'"
    by (auto split: option.splits prod.splits sum.splits)
  with Suc show ?case by (subst jq_loop.simps) simp
qed



section \<open>The verdict of the check command\<close>

lemma collect_Inr: "\<forall>x \<in> set xs. \<exists>y. f x = Inr y \<Longrightarrow> collect f xs = Inr (map (\<lambda>x. projr (f x)) xs)"
  by (induction xs) auto

lemma put_absent: "k \<notin> set (gm_keys m) \<Longrightarrow> gm_put k v m = m @ [(k, v)]"
  by (induction m) auto

lemma fold_put_distinct:
  "distinct (map k xs) \<Longrightarrow> k ` set xs \<inter> set (gm_keys m) = {} \<Longrightarrow>
     fold (\<lambda>x m. gm_put (k x) (f x) m) xs m = m @ map (\<lambda>x. (k x, f x)) xs"
proof (induction xs arbitrary: m)
  case (Cons x xs)
  then have "gm_put (k x) (f x) m = m @ [(k x, f x)]" by (intro put_absent) auto
  with Cons show ?case by auto
qed simp

text \<open>What the command reports of one check, when it can be built.\<close>

definition selected :: "check_cmd \<Rightarrow> check_config \<Rightarrow> bool" where
  "selected cmd c \<longleftrightarrow> cc_check cmd = [] \<or> check_EffectiveName c \<in> set (cc_check cmd)"

definition observed ::
    "'j checker_libs \<Rightarrow> go_error + net_interface list \<Rightarrow> (string \<Rightarrow> string \<Rightarrow> go_duration \<Rightarrow> ('d, 'j) world) \<Rightarrow> check_cmd \<Rightarrow>
     vip_config \<Rightarrow> check_config \<Rightarrow> check_result" where
  "observed libs ifaces world cmd v c =
     run_built ifaces (world (v_name v) (check_EffectiveName c) (check_timeout cmd c))
       (projr (build libs (cc_skip_local_address cmd) v c))"

lemma run_check_built:
  assumes "\<exists>b. build libs (cc_skip_local_address cmd) v c = Inr b"
  shows "\<exists>r. run_check libs ifaces world cmd v c = Inr r \<and> cr_name r = check_EffectiveName c \<and>
    (cr_ran r \<and> cr_success r \<longleftrightarrow> selected cmd c \<and> res_success (observed libs ifaces world cmd v c))"
  using assms by (auto simp: run_check_def selected_def observed_def report_of_def empty_report_def)

lemma report_health_eq:
  assumes "\<forall>c \<in> set cs. \<exists>r. f c = Inr r \<and> cr_name r = check_EffectiveName c \<and> (cr_ran r \<and> cr_success r \<longleftrightarrow> h c)"
    and "distinct (map check_EffectiveName cs)"
  shows "report_health (map (\<lambda>c. projr (f c)) cs) = map (\<lambda>c. (check_EffectiveName c, h c)) cs"
    and "map cr_name (map (\<lambda>c. projr (f c)) cs) = map check_EffectiveName cs"
proof -
  show names: "map cr_name (map (\<lambda>c. projr (f c)) cs) = map check_EffectiveName cs"
    using assms(1) by (induction cs) auto
  have "report_health (map (\<lambda>c. projr (f c)) cs) =
      map (\<lambda>r. (cr_name r, cr_ran r \<and> cr_success r)) (map (\<lambda>c. projr (f c)) cs)"
    unfolding report_health_def
    by (subst fold_put_distinct) (simp_all add: names assms(2) del: map_map)
  also have "\<dots> = map (\<lambda>c. (check_EffectiveName c, h c)) cs" using assms(1) by (induction cs) auto
  finally show "report_health (map (\<lambda>c. projr (f c)) cs) = map (\<lambda>c. (check_EffectiveName c, h c)) cs" .
qed

lemma select_named_set: "select_named all names = Inr vs \<Longrightarrow> set vs \<subseteq> set all"
  by (induction names arbitrary: vs) (auto split: option.splits sum.splits simp: find_Some_iff)

lemma selectVIPs_set: "selectVIPs cfg names = Inr vs \<Longrightarrow> set vs \<subseteq> set (c_vips cfg)"
  by (auto simp: selectVIPs_def dest: select_named_set split: if_splits)

text \<open>The evaluator of the policy manager is the one validation compiled.\<close>

lemma loaded_evaluator:
  assumes "config_Load env path = Inr cfg" and "v \<in> set (c_vips cfg)" and "pe_expr penv = vd_expr (le_validators env)"
  shows "CompileChecksPolicy (vd_expr (le_validators env)) (EffectiveChecksPolicy v) (map check_EffectiveName (CheckList v)) =
    Inr (ve_eval (newVIPEntry penv v))" and "distinct (map check_EffectiveName (CheckList v))"
  using loaded_vip [OF assms(1,2)] assms(3)
  by (auto simp: vip_valid_def vip_filled_def newVIPEntry_def Let_def EffectiveChecksPolicy_def)

text \<open>C33: The check command agrees with the daemon: on a file that loads, with a selection that exists and checks that
  can be built, it exits with 0 exactly when for every selected VIP the evaluator of the policy manager gives
  healthy on the results of this run, where a check that was not selected counts as failed; otherwise it exits
  with 1, never with the code of an internal error.\<close>

theorem check_command_verdict:
  assumes "config_Load env (cc_config cmd) = Inr cfg" and "selectVIPs cfg (cc_vip cmd) = Inr vips"
    and "verifyCheckNames vips (cc_check cmd) = None" and "\<And>t. flush t = None" and "\<And>rs. encode rs = None"
    and "\<And>v c. v \<in> set vips \<Longrightarrow> c \<in> set (CheckList v) \<Longrightarrow> \<exists>b. build libs (cc_skip_local_address cmd) v c = Inr b"
    and "pe_expr penv = vd_expr (le_validators env)"
  shows "(CheckCmd_Run env libs ifaces world flush encode cmd = ExitOK \<longleftrightarrow>
     (\<forall>v \<in> set vips. Eval (ve_eval (newVIPEntry penv v))
        (map (\<lambda>c. (check_EffectiveName c, selected cmd c \<and> res_success (observed libs ifaces world cmd v c))) (CheckList v)))) \<and>
    (CheckCmd_Run env libs ifaces world flush encode cmd = ExitOK \<or>
     (\<exists>msg. CheckCmd_Run env libs ifaces world flush encode cmd = ExitCode exitUnhealthy msg))"
proof -
  let ?run = "run_check libs ifaces world cmd"
  let ?health = "\<lambda>v. map (\<lambda>c. (check_EffectiveName c, selected cmd c \<and> res_success (observed libs ifaces world cmd v c))) (CheckList v)"
  let ?rs = "\<lambda>v. map (\<lambda>c. projr (?run v c)) (CheckList v)"
  have v: "v \<in> set (c_vips cfg)" if "v \<in> set vips" for v using that selectVIPs_set [OF assms(2)] by auto
  have checks: "\<forall>c \<in> set (CheckList v). \<exists>r. ?run v c = Inr r \<and> cr_name r = check_EffectiveName c \<and>
      (cr_ran r \<and> cr_success r \<longleftrightarrow> selected cmd c \<and> res_success (observed libs ifaces world cmd v c))"
    if "v \<in> set vips" for v using run_check_built assms(6) [OF that] by blast
  then have one: "collect (?run v) (CheckList v) = Inr (?rs v)" if "v \<in> set vips" for v
    using that by (intro collect_Inr) blast
  then have all: "collect (\<lambda>v. map_sum id (Pair v) (collect (?run v) (CheckList v))) vips = Inr (map (\<lambda>v. (v, ?rs v)) vips)"
    by (subst collect_Inr) (auto cong: map_cong)
  have report: "combine_report (vd_expr (le_validators env)) (v, ?rs v) =
      Inr \<lparr>rep_vip = v_name v, rep_prefix = v_prefix v, rep_policy = EffectiveChecksPolicy v,
           rep_healthy = Eval (ve_eval (newVIPEntry penv v)) (?health v), rep_checks = ?rs v\<rparr>" if "v \<in> set vips" for v
    using loaded_evaluator(1) [OF assms(1) v [OF that] assms(7)]
      report_health_eq [OF checks [OF that] loaded_evaluator(2) [OF assms(1) v [OF that] assms(7)]]
    by (simp add: combine_report_def del: map_map)
  obtain reports where ex: "execute libs (vd_expr (le_validators env)) ifaces world cmd cfg = Inr reports"
    and healthy: "(\<forall>r \<in> set reports. rep_healthy r) \<longleftrightarrow> (\<forall>v \<in> set vips. Eval (ve_eval (newVIPEntry penv v)) (?health v))"
  proof
    show "execute libs (vd_expr (le_validators env)) ifaces world cmd cfg =
        Inr (map (\<lambda>v. projr (combine_report (vd_expr (le_validators env)) (v, ?rs v))) vips)"
      using assms(2,3) all report by (simp add: execute_def collect_Inr)
    show "(\<forall>r \<in> set (map (\<lambda>v. projr (combine_report (vd_expr (le_validators env)) (v, ?rs v))) vips). rep_healthy r) \<longleftrightarrow>
        (\<forall>v \<in> set vips. Eval (ve_eval (newVIPEntry penv v)) (?health v))"
      using report by auto
  qed
  show ?thesis
    unfolding healthy [symmetric] using assms(1,4,5) ex
    by (auto simp: check_print_def CheckCmd_Run_def Let_def exitUnhealthy_def filter_empty_conv)
qed


definition ex_cmd :: check_cmd where
  "ex_cmd = \<lparr>cc_config = ''/etc/pathosd.yaml'', cc_vip = [], cc_check = [''a''], cc_format = ''text'', cc_timeout = 0,
             cc_skip_local_address = False\<rparr>"

lemma ex_loaded_vip: "\<exists>v. c_vips ex_loaded = [v] \<and> v_name v = ''web'' \<and> \<not> v_require_local_address v \<and>
    v_checks_policy v = ''any'' \<and> (\<exists>c d. CheckList v = [c, d] \<and> check_EffectiveName c = ''a'' \<and> check_EffectiveName d = ''b'' \<and>
      ck_type c = CheckTypeTCP \<and> ck_type d = CheckTypeTCP \<and>
      ck_tcp c = Some \<lparr>tcp_host = ''127.0.0.1'', tcp_port = 80\<rparr> \<and> ck_tcp d = Some \<lparr>tcp_host = ''127.0.0.1'', tcp_port = 80\<rparr>)"
  by (simp add: ex_loaded_eval CheckList_def check_EffectiveName_def)

theorem check_command_verdict_witness:
  "CheckCmd_Run ex_load_env ex_libs (Inr []) (\<lambda>_ _ _. ex_world) (\<lambda>_. None) (\<lambda>_. None) ex_cmd = ExitOK"
proof -
  obtain v c d where v: "c_vips ex_loaded = [v]" "v_name v = ''web''" "\<not> v_require_local_address v" "v_checks_policy v = ''any''"
    and cs: "CheckList v = [c, d]" "check_EffectiveName c = ''a''" "check_EffectiveName d = ''b''"
    and ty: "ck_type c = CheckTypeTCP" "ck_type d = CheckTypeTCP"
      "ck_tcp c = Some \<lparr>tcp_host = ''127.0.0.1'', tcp_port = 80\<rparr>" "ck_tcp d = Some \<lparr>tcp_host = ''127.0.0.1'', tcp_port = 80\<rparr>"
    using ex_loaded_vip by blast
  let ?penv = "ex_pol_env\<lparr>pe_expr := vd_expr ex_validators\<rparr>"
  have build: "build ex_libs False v x = Inr (TCPChecker \<lparr>tcp_host = ''127.0.0.1'', tcp_port = 80\<rparr>, None)"
    if "x = c \<or> x = d" for x
    using that v(3) ty by (auto simp: build_def NewChecker_def check_type_defs)
  have load: "config_Load ex_load_env (cc_config ex_cmd) = Inr ex_loaded" by (simp add: ex_cmd_def ex_load)
  have sel: "selectVIPs ex_loaded (cc_vip ex_cmd) = Inr [v]" "verifyCheckNames [v] (cc_check ex_cmd) = None"
    using v cs by (simp_all add: selectVIPs_def ex_cmd_def)
  have "CheckCmd_Run ex_load_env ex_libs (Inr []) (\<lambda>_ _ _. ex_world) (\<lambda>_. None) (\<lambda>_. None) ex_cmd = ExitOK \<longleftrightarrow>
     (\<forall>v \<in> set [v]. Eval (ve_eval (newVIPEntry ?penv v)) (map (\<lambda>x. (check_EffectiveName x,
        selected ex_cmd x \<and> res_success (observed ex_libs (Inr []) (\<lambda>_ _ _. ex_world) ex_cmd v x))) (CheckList v)))"
    by (rule check_command_verdict [THEN conjunct1, OF load sel])
      (use build cs in \<open>auto simp: ex_cmd_def ex_load_env_def\<close>)
  moreover have "res_success (observed ex_libs (Inr []) (\<lambda>_ _ _. ex_world) ex_cmd v c)"
    using build [of c] by (simp add: observed_def ex_cmd_def run_built_def tcp_Check_def ex_world_def Let_def)
  ultimately show ?thesis
    using v cs by (simp add: newVIPEntry_def Let_def CompileChecksPolicy_def ChecksPolicyAny_def Eval_def ChecksPolicyAll_def
        selected_def ex_cmd_def gm_get0_def)
qed

end
