(* ===== verification/Reload_Returns.thy ===== *)
theory Reload_Returns
  imports Reload_Properties
begin

text \<open>
  When a reload returns at all. The only call in it that can panic is \<open>Registry.RemoveVIP\<close>, which does so for a VIP that
  lists several checks; a panic inside leaves the registry and the reloader locked.
\<close>

text \<open>Every listed scheduler is listed under the name of its VIP.\<close>

definition listed_by_name :: "(sid \<Rightarrow> scheduler) \<Rightarrow> registry \<Rightarrow> bool" where
  "listed_by_name obj reg \<longleftrightarrow> (\<forall>n. \<forall>s \<in> set (visible_of reg n). s_vip_name (obj s) = n)"

lemma reg_wf_listed: "reg_wf obj reg \<Longrightarrow> listed_by_name obj reg"
  using reg_wfD(6) by (auto simp: listed_by_name_def)

text \<open>Removing a VIP with at most one listed check; \<open>visible_of\<close> of the other VIPs stays.\<close>

lemma RemoveVIP_one:
  assumes "listed_by_name obj reg" and "length (visible_of reg n) \<le> 1"
  shows "\<exists>reg'. reg_RemoveVIP obj n reg = Ret reg' \<and> visible_of reg' = (visible_of reg)(n := [])"
proof -
  have names: "\<forall>s \<in> set (visible_of reg n). s_vip_name (obj s) = n" using assms(1) by (simp add: listed_by_name_def)
  note c = reg_RemoveVIP_cases [OF names]
  show ?thesis
  proof (cases "visible_of reg n")
    case Nil
    then show ?thesis using c(1) by (auto simp: fun_eq_iff)
  next
    case (Cons s ss)
    then have "visible_of reg n = [s]" using assms(2) by simp
    then show ?thesis using c(2) [of s] names by (auto simp: fun_eq_iff visible_of_Remove)
  qed
qed

lemma visible_of_Adds_back:
  "\<forall>s \<in> set ss. s_vip_name (obj s) = n \<Longrightarrow> visible_of (fold (reg_Add obj) ss reg) = (visible_of reg)(n := visible_of reg n @ ss)"
  by (induction ss arbitrary: reg) (auto simp: visible_of_Add fun_eq_iff)

lemma apply_removed_returns:
  assumes "distinct (map v_name vs)" and "listed_by_name (hp_obj (rl_heap r)) (rl_reg r)"
  shows "(\<exists>msg. apply_removed P vs fl r res = Panic msg) \<longleftrightarrow> (\<exists>v \<in> set vs. 2 \<le> length (visible_of (rl_reg r) (v_name v)))"
  using assms
proof (induction vs arbitrary: fl r res)
  case (Cons v vs)
  let ?n = "v_name v" and ?obj = "hp_obj (rl_heap r)"
  have names: "\<forall>s \<in> set (visible_of (rl_reg r) ?n). s_vip_name (?obj s) = ?n" using Cons.prems(2) by (simp add: listed_by_name_def)
  have run: "gm_get0 [] (reg_Schedulers (rl_reg r)) ?n = visible_of (rl_reg r) ?n"
    by (simp add: visible_of_def reg_Schedulers_def)
  show ?case
  proof (cases "2 \<le> length (visible_of (rl_reg r) ?n)")
    case True
    then show ?thesis using reg_RemoveVIP_cases(3) [OF names] by (auto simp: Let_def)
  next
    case False
    then obtain reg' where g: "reg_RemoveVIP ?obj ?n (rl_reg r) = Ret reg'" "visible_of reg' = (visible_of (rl_reg r))(?n := [])"
      using RemoveVIP_one [OF Cons.prems(2), of ?n] by fastforce
    obtain err pol' where p: "pi_RemoveVIP P ?n (rl_pol r) = (err, pol')" by force
    obtain fl1 r1 res1 where step: "apply_removed P (v # vs) fl r res = apply_removed P vs fl1 r1 res1"
      "hp_obj (rl_heap r1) = ?obj" "\<forall>m. m \<noteq> ?n \<longrightarrow> visible_of (rl_reg r1) m = visible_of (rl_reg r) m"
      "visible_of (rl_reg r1) ?n \<in> {[], visible_of (rl_reg r) ?n}"
    proof (cases err)
      case None
      then have "apply_removed P (v # vs) fl r res = apply_removed P vs fl
          (r\<lparr>rl_reg := reg', rl_pol := pol', rl_heap := closeSchedulers (visible_of (rl_reg r) ?n) (rl_heap r)\<rparr>)
          (res\<lparr>rs_removed := rs_removed res @ [?n]\<rparr>)" using g(1) p by (simp add: Let_def run)
      from that [OF this] show ?thesis using g(2) by simp
    next
      case (Some e)
      let ?again = "fold (reg_Add ?obj) (visible_of (rl_reg r) ?n) reg'"
      from Some have "apply_removed P (v # vs) fl r res = apply_removed P vs (gm_put ?n v fl)
          (r\<lparr>rl_reg := ?again, rl_pol := pol'\<rparr>) (res\<lparr>rs_errors := rs_errors res @ [error_text e]\<rparr>)"
        using g(1) p by (simp add: Let_def run)
      from that [OF this] show ?thesis using visible_of_Adds_back [OF names, of reg'] g(2) by simp
    qed
    have "listed_by_name (hp_obj (rl_heap r1)) (rl_reg r1)"
      unfolding listed_by_name_def step(2)
    proof (intro allI ballI)
      fix m s assume s: "s \<in> set (visible_of (rl_reg r1) m)"
      have "s \<in> set (visible_of (rl_reg r) m)" using s step(3,4) by (cases "m = ?n") auto
      then show "s_vip_name (?obj s) = m" using Cons.prems(2) by (simp add: listed_by_name_def)
    qed
    moreover have "v_name w \<noteq> ?n" if "w \<in> set vs" for w
      using imageI [OF that, of v_name] Cons.prems(1) by auto
    ultimately show ?thesis using Cons.IH [of r1 fl1 res1] Cons.prems(1) step(1,3) False by auto
  qed
qed simp

section \<open>Dropping what is staged\<close>

text \<open>The listing of a reloader: allocated schedulers under the names of their VIPs, and no shadow among them.\<close>

definition listing_ok :: "'p reloader \<Rightarrow> bool" where
  "listing_ok r \<longleftrightarrow>
     listed_by_name (hp_obj (rl_heap r)) (rl_reg r) \<and>
     (\<forall>n. \<forall>s \<in> set (visible_of (rl_reg r) n). s < hp_next (rl_heap r)) \<and>
     (\<forall>(n, st) \<in> set (rl_staging r). \<forall>(c, s) \<in> set (sg_shadows st).
        s < hp_next (rl_heap r) \<and> s \<notin> set (visible_of (rl_reg r) (s_vip_name (hp_obj (rl_heap r) s))))"

lemma stop_unlisted:
  "s \<notin> set (visible_of (rl_reg r) (s_vip_name (hp_obj (rl_heap r) s))) \<Longrightarrow>
     visible_of (rl_reg (stop_and_close s r)) = visible_of (rl_reg r) \<and> hp_obj (rl_heap (stop_and_close s r)) = hp_obj (rl_heap r)"
  by (auto simp: stop_and_close_def visible_of_Remove fun_eq_iff remove1_idem closeSchedulers_def)

lemma dropStaging_listing:
  assumes "\<forall>(n, st) \<in> set (rl_staging r). \<forall>(c, s) \<in> set (sg_shadows st).
      s \<notin> set (visible_of (rl_reg r) (s_vip_name (hp_obj (rl_heap r) s)))"
  shows "visible_of (rl_reg (dropStagingLocked r)) = visible_of (rl_reg r) \<and>
    hp_obj (rl_heap (dropStagingLocked r)) = hp_obj (rl_heap r)"
proof -
  let ?view = "\<lambda>r. (visible_of (rl_reg r), hp_obj (rl_heap r))"
  have one: "?view (fold (\<lambda>(c, s) r. stop_and_close s r) shadows q) = ?view q"
    if "\<forall>(c, s) \<in> set shadows. s \<notin> set (visible_of (rl_reg q) (s_vip_name (hp_obj (rl_heap q) s)))"
    for q :: "'a reloader" and shadows :: "(string, sid) gomap"
    using that by (induction shadows arbitrary: q) (auto simp: stop_unlisted)
  have "?view (fold (\<lambda>(name, st) r. fold (\<lambda>(c, s) r. stop_and_close s r) (sg_shadows st) r) xs q) = ?view q"
    if "\<forall>(n, st) \<in> set xs. \<forall>(c, s) \<in> set (sg_shadows st). s \<notin> set (visible_of (rl_reg q) (s_vip_name (hp_obj (rl_heap q) s)))"
    for q :: "'a reloader" and xs :: "(string, staged_vip) gomap"
    using that
  proof (induction xs arbitrary: q)
    case (Cons x xs)
    obtain n st where x: "x = (n, st)" by force
    let ?q = "fold (\<lambda>(c, s) r. stop_and_close s r) (sg_shadows st) q"
    have "?view ?q = ?view q" using Cons.prems x by (intro one) auto
    then show ?case using Cons.IH [of ?q] Cons.prems x by simp
  qed simp
  from this [OF assms] show ?thesis by (simp add: dropStagingLocked_def)
qed

section \<open>The reload\<close>

lemma apply_diff_panics:
  assumes ok: "listing_ok r" and grows: "heap_grows (rl_heap r) h" and dist: "distinct (map v_name (df_removed diff))"
  shows "(\<exists>msg. apply_diff env P cfg hash diff added staged (r\<lparr>rl_heap := h\<rparr>) res = Panic msg) \<longleftrightarrow>
    list_ex (\<lambda>v. 2 \<le> length (visible_of (rl_reg r) (v_name v))) (df_removed diff)"
proof -
  let ?r = "r\<lparr>rl_heap := h\<rparr>" and ?d = "dropStagingLocked (r\<lparr>rl_heap := h\<rparr>)"
  have obj: "hp_obj h s = hp_obj (rl_heap r) s" if "s < hp_next (rl_heap r)" for s
    using grows that by (simp add: heap_grows_def)
  have "\<forall>(n, st) \<in> set (rl_staging ?r). \<forall>(c, s) \<in> set (sg_shadows st).
      s \<notin> set (visible_of (rl_reg ?r) (s_vip_name (hp_obj (rl_heap ?r) s)))"
    using ok obj by (fastforce simp: listing_ok_def)
  note drop = dropStaging_listing [OF this]
  have "listed_by_name (hp_obj h) (rl_reg r)" using ok obj by (simp add: listing_ok_def listed_by_name_def)
  then have "listed_by_name (hp_obj (rl_heap ?d)) (rl_reg ?d)" using drop by (simp add: listed_by_name_def)
  note ret = apply_removed_returns [OF dist this, of P "[]" res]
  have "(\<exists>msg. apply_diff env P cfg hash diff added staged ?r res = Panic msg) \<longleftrightarrow>
      (\<exists>msg. apply_removed P (df_removed diff) [] ?d res = Panic msg)"
    by (auto simp: apply_diff_def Let_def split: outcome.splits prod.splits)
  then show ?thesis using ret drop by (simp add: list_ex_iff)
qed

text \<open>C19: When a reload does not return. A reload panics (and leaves the mutexes of reloader and registry locked) exactly when
  the file loads, differs from the running one, needs no restart, all its new checks can be built, and it removes
  a VIP (or changes its prefix) that lists two or more checks; in every other case it returns.\<close>

theorem reload_panics_iff:
  assumes "listing_ok r" and "distinct (map v_name (effectiveVIPsLocked r))"
    and "\<And>cfg raw. re_LoadRaw env (rl_path r) = Inr (cfg, raw) \<Longrightarrow> distinct (map v_name (c_vips cfg))"
  shows "(\<exists>msg. Reload env P r = Panic msg) \<longleftrightarrow>
    (\<exists>cfg raw added h1 staged h2. re_LoadRaw env (rl_path r) = Inr (cfg, raw) \<and> re_sha256 env raw \<noteq> rl_cur_hash r \<and>
       RestartRequired (rl_cur r) cfg = [] \<and>
       build_added (re_newChecker env) (df_added (DiffVIPs (effectiveVIPsLocked r) (c_vips cfg))) [] (rl_heap r) = (None, added, h1) \<and>
       build_staged (re_newChecker env) (re_now env) (df_changed (DiffVIPs (effectiveVIPsLocked r) (c_vips cfg))) [] h1 =
         (None, staged, h2) \<and>
       list_ex (\<lambda>v. 2 \<le> length (visible_of (rl_reg r) (v_name v))) (df_removed (DiffVIPs (effectiveVIPsLocked r) (c_vips cfg))))"
proof -
  have locked: "(\<exists>msg. Reload env P r = Panic msg) \<longleftrightarrow> (\<exists>msg. reloadLocked env P r = Panic msg)"
    by (auto simp: Reload_def Let_def split: outcome.splits)
  show ?thesis
  proof (cases "re_LoadRaw env (rl_path r)")
    case (Inl err)
    then show ?thesis unfolding locked by (simp add: reloadLocked_def Let_def)
  next
    case (Inr p)
    obtain cfg raw where load: "re_LoadRaw env (rl_path r) = Inr (cfg, raw)" using Inr by (cases p) auto
    let ?diff = "DiffVIPs (effectiveVIPsLocked r) (c_vips cfg)"
    obtain e1 added h1 where a: "build_added (re_newChecker env) (df_added ?diff) [] (rl_heap r) = (e1, added, h1)"
      by (metis prod_cases3)
    obtain e2 staged h2 where b: "build_staged (re_newChecker env) (re_now env) (df_changed ?diff) [] h1 = (e2, staged, h2)"
      by (metis prod_cases3)
    have "heap_grows (rl_heap r) h2"
      using build_added_grows [of "rl_heap r" "re_newChecker env" "df_added ?diff" "[]"]
        build_staged_grows [of h1 "re_newChecker env" "re_now env" "df_changed ?diff" "[]"] a b
      by (auto intro: heap_grows_trans)
    note pan = apply_diff_panics [OF assms(1) this df_removed_distinct [OF assms(2) assms(3) [OF load]]]
    have "(\<exists>msg. reloadLocked env P r = Panic msg) \<longleftrightarrow>
        re_sha256 env raw \<noteq> rl_cur_hash r \<and> RestartRequired (rl_cur r) cfg = [] \<and> e1 = None \<and> e2 = None \<and>
        list_ex (\<lambda>v. 2 \<le> length (visible_of (rl_reg r) (v_name v))) (df_removed ?diff)"
      unfolding reloadLocked_def Let_def load sum.case prod.case a using b pan
      by (cases e1; cases e2) (simp_all add: empty_status_def reject_def Let_def)
    then show ?thesis unfolding locked using load a b by auto
  qed
qed

text \<open>A daemon that runs a VIP with two checks, and a reload of a file without it.\<close>

lemma ex_two_listed:
  "\<exists>r res. Reload ex_add_env manager_iface ex_reloader = Ret (r, res) \<and> reg_visible (rl_reg r) = [(''web'', [0, 1])] \<and>
     s_vip_name (hp_obj (rl_heap r) 0) = ''web'' \<and> s_vip_name (hp_obj (rl_heap r) 1) = ''web'' \<and> hp_next (rl_heap r) = 2 \<and>
     rl_cur r = ex_config_with [ex_vip ''web'' ''192.0.2.1/32'' [''a'', ''b'']] \<and> rl_staging r = [] \<and> rl_cur_hash r = ''v2''"
  by (simp add: ex_add_env_def reload_eval)

theorem reload_panics_iff_witness:
  "\<exists>r res msg. Reload ex_add_env manager_iface ex_reloader = Ret (r, res) \<and>
     Reload (ex_renv (Inr (ex_config, ''v3''))) manager_iface r = Panic msg"
proof -
  let ?v = "ex_vip ''web'' ''192.0.2.1/32'' [''a'', ''b'']" and ?env = "ex_renv (Inr (ex_config, ''v3''))"
  obtain r res where r: "Reload ex_add_env manager_iface ex_reloader = Ret (r, res)" "reg_visible (rl_reg r) = [(''web'', [0, 1])]"
    "s_vip_name (hp_obj (rl_heap r) 0) = ''web''" "s_vip_name (hp_obj (rl_heap r) 1) = ''web''" "hp_next (rl_heap r) = 2"
    "rl_cur r = ex_config_with [?v]" "rl_staging r = []" "rl_cur_hash r = ''v2''"
    using ex_two_listed by blast
  have vis: "visible_of (rl_reg r) n = (if n = ''web'' then [0, 1] else [])" for n
    by (simp add: visible_of_def r(2) gm_get0_def)
  have ok: "listing_ok r" using r(3-5,7) by (auto simp: listing_ok_def listed_by_name_def vis)
  have eff: "effectiveVIPsLocked r = [?v]" by (simp add: effectiveVIPsLocked_def r(6,7) ex_config_with_def)
  have cand: "c_vips ex_config = []" by (simp add: ex_config_def)
  have diff: "DiffVIPs [?v] [] = \<lparr>df_added = [], df_removed = [?v], df_changed = [], df_unchanged = []\<rparr>"
    by (simp add: DiffVIPs_def)
  have load: "re_LoadRaw ?env (rl_path r) = Inr (ex_config, ''v3'')" by (simp add: ex_renv_def)
  have "re_sha256 ?env ''v3'' \<noteq> rl_cur_hash r" "RestartRequired (rl_cur r) ex_config = []" "v_name ?v = ''web''"
    by (simp_all add: ex_renv_def r(6,8) RestartRequired_def ex_config_with_def)
  then have "\<exists>msg. Reload ?env manager_iface r = Panic msg"
    using load by (subst reload_panics_iff [OF ok]) (auto simp: eff cand diff vis)
  then show ?thesis using r(1) by blast
qed

end
