(* ===== verification/Daemon.thy ===== *)
theory Daemon
  imports Commands Reload_Properties Policy_Health Route_Properties
begin

text \<open>
  Wiring the daemon together (\<open>internal/daemon/daemon.go\<close>): which components are built from a configuration, what
  starts, and what the running daemon does with the results of its checks.

  Fx calls the constructors in the order of their dependencies; the model composes them in that order. The
  schedulers run concurrently, but a run changes the daemon only through the callbacks, which the policy manager
  serialises, so a history of the daemon is a list of runs in any interleaving.
\<close>

section \<open>Building the components\<close>

record config_file =
  cf_path :: string
  cf_raw :: string
  cf_debug_forced :: bool

text \<open>The largest check timeout, from which the buckets of the histograms are computed.\<close>

definition max_check_timeout :: "config \<Rightarrow> go_duration" where
  "max_check_timeout cfg =
     fold (\<lambda>v t. fold (\<lambda>c t. case ck_timeout c of Some d \<Rightarrow> if t < d then d else t | None \<Rightarrow> t) (CheckList v) t)
       (c_vips cfg) 0"

fun provide_loop ::
    "(check_config \<Rightarrow> go_error + string) \<Rightarrow> vip_config list \<Rightarrow> registry \<Rightarrow> sched_heap \<Rightarrow> (go_error + registry) \<times> sched_heap" where
  "provide_loop newChecker [] reg h = (Inr reg, h)"
| "provide_loop newChecker (v # vs) reg h =
     (case NewSchedulers newChecker v (CheckList v) h of
        (Inl err, h') \<Rightarrow> (Inl err, h')
      | (Inr scheds, h') \<Rightarrow> provide_loop newChecker vs (fold (reg_Add (hp_obj h')) scheds reg) h')"

definition provideSchedulers ::
    "(check_config \<Rightarrow> go_error + string) \<Rightarrow> config \<Rightarrow> sched_heap \<Rightarrow> (go_error + registry) \<times> sched_heap" where
  "provideSchedulers newChecker cfg h = provide_loop newChecker (c_vips cfg) NewRegistry h"

definition providePolicyManager :: "pol_env \<Rightarrow> config \<Rightarrow> metric_log \<Rightarrow> 'b bgp_notifier \<Rightarrow> 'b \<Rightarrow> 'b manager" where
  "providePolicyManager env cfg ml notifier b = NewManager env (c_vips cfg) ml (Some notifier) b"

definition provideReloader ::
    "go_time \<Rightarrow> (string \<Rightarrow> string) \<Rightarrow> config \<Rightarrow> config_file \<Rightarrow> 'p \<Rightarrow> registry \<Rightarrow> sched_heap \<Rightarrow> metric_log \<Rightarrow> 'p reloader" where
  "provideReloader now sha cfg file pol reg h ml =
     (let rl = reload_New now sha (cf_path file) cfg (cf_raw file) pol reg h ml (log_level (c_logging cfg))
                 (Some (log_level (c_logging cfg)))
      in if cf_debug_forced file then LockLogLevel rl else rl)"

definition provideHTTPServer :: "config \<Rightarrow> server_deps" where
  "provideHTTPServer cfg = \<lparr>sd_config = cfg, sd_schedulers = [], sd_registry = True, sd_reloader = True\<rparr>"

text \<open>The names the peer watcher shows for the configured neighbours.\<close>

definition neighborNames :: "config \<Rightarrow> (string, string) gomap" where
  "neighborNames cfg = fold (\<lambda>n m. gm_put (nb_address n) (nb_name n) m) (bgp_neighbors (c_bgp cfg)) []"

text \<open>
  \<open>registerSchedulersLifecycle\<close>: every listed scheduler reports to the policy manager, then the registry starts
  the goroutines.
\<close>

definition start_schedulers :: "'p reloader \<Rightarrow> 'p reloader" where
  "start_schedulers r =
     r\<lparr>rl_heap := fold (\<lambda>(vip, scheds) h. fold (\<lambda>s. set_callbacks s (Some CbPolicy) (Some CbPolicy)) scheds h)
                    (reg_Schedulers (rl_reg r)) (rl_heap r),
       rl_reg := reg_Start (rl_reg r)\<rparr>"

text \<open>
  What the daemon reads from outside while it starts: the clock, SHA-256, the constructor of checkers, the
  environment of the policy manager at its construction and at every later call, and BGP.
\<close>

record 'b daemon_env =
  de_now :: go_time
  de_sha256 :: "string \<Rightarrow> string"
  de_newChecker :: "check_config \<Rightarrow> go_error + string"
  de_pol_env :: pol_env
  de_pol_envs :: "nat \<Rightarrow> pol_env"
  de_notifier :: "'b bgp_notifier"
  de_bgp :: 'b
  de_heap :: sched_heap

definition daemon_build :: "'b daemon_env \<Rightarrow> config \<Rightarrow> config_file \<Rightarrow> go_error + 'b live_manager reloader" where
  "daemon_build de cfg file =
     (case provideSchedulers (de_newChecker de) cfg (de_heap de) of
        (Inl err, _) \<Rightarrow> Inl err
      | (Inr reg, h) \<Rightarrow>
          Inr (provideReloader (de_now de) (de_sha256 de) cfg file
                 \<lparr>lm_mgr = providePolicyManager (de_pol_env de) cfg [] (de_notifier de) (de_bgp de), lm_envs = de_pol_envs de\<rparr>
                 reg h []))"

definition daemon_start :: "'b daemon_env \<Rightarrow> config \<Rightarrow> config_file \<Rightarrow> go_error + 'b live_manager reloader" where
  "daemon_start de cfg file = map_sum id start_schedulers (daemon_build de cfg file)"

text \<open>The running daemon: runs of schedulers, each with the result of its checker.\<close>

definition daemon_runs :: "(sid \<times> check_result) list \<Rightarrow> 'b live_manager reloader \<Rightarrow> 'b live_manager reloader" where
  "daemon_runs runs r = fold (\<lambda>(s, res). run_scheduler manager_iface s res) runs r"


section \<open>The schedulers that are built\<close>

text \<open>The schedulers of a VIP as the registry lists them: one per check, in order, fresh from the constructor.\<close>

definition made :: "vip_config \<Rightarrow> sid list \<Rightarrow> sched_heap \<Rightarrow> bool" where
  "made v ss h \<longleftrightarrow>
     length ss = length (CheckList v) \<and> (\<forall>s \<in> set ss. s < hp_next h) \<and>
     (\<forall>i < length ss. \<exists>ty. hp_obj h (ss ! i) = NewScheduler (scheduler_config_of v (CheckList v ! i) ty))"

lemma made_grows: "made v ss h \<Longrightarrow> heap_grows h h' \<Longrightarrow> made v ss h'"
  by (fastforce simp: made_def heap_grows_def)

lemma NewSchedulers_made: "NewSchedulers newChecker v (CheckList v) h = (Inr ss, h') \<Longrightarrow> made v ss h'"
  using NewSchedulers_built [of newChecker v "CheckList v" h ss h'] by (auto simp: made_def built_def)

lemma made_vip: "made v ss h \<Longrightarrow> s \<in> set ss \<Longrightarrow> s_vip_name (hp_obj h s) = v_name v"
  by (auto simp: made_def in_set_conv_nth NewScheduler_def scheduler_config_of_def)

lemma visible_of_Adds:
  "\<forall>s \<in> set ss. s_vip_name (obj s) = n \<Longrightarrow>
     visible_of (fold (reg_Add obj) ss r) m = visible_of r m @ (if m = n then ss else [])"
  by (induction ss arbitrary: r) (auto simp: visible_of_Add)

lemma started_Adds [simp]: "reg_started (fold (reg_Add obj) ss r) = reg_started r"
  by (induction ss arbitrary: r) (simp_all add: reg_Add_def Let_def)

lemma provide_loop_made:
  "provide_loop newChecker vs reg h = (Inr reg', h') \<Longrightarrow> distinct (map v_name vs) \<Longrightarrow>
     (\<forall>v \<in> set vs. visible_of reg (v_name v) = []) \<Longrightarrow>
     heap_grows h h' \<and> reg_started reg' = reg_started reg \<and>
     (\<forall>n. n \<notin> v_name ` set vs \<longrightarrow> visible_of reg' n = visible_of reg n) \<and>
     (\<forall>v \<in> set vs. made v (visible_of reg' (v_name v)) h')"
proof (induction vs arbitrary: reg h)
  case (Cons v vs)
  obtain ss h1 where ss: "NewSchedulers newChecker v (CheckList v) h = (Inr ss, h1)"
    and rest: "provide_loop newChecker vs (fold (reg_Add (hp_obj h1)) ss reg) h1 = (Inr reg', h')"
    using Cons.prems(1) by (auto split: prod.splits sum.splits)
  let ?reg = "fold (reg_Add (hp_obj h1)) ss reg"
  have made: "made v ss h1" using ss by (rule NewSchedulers_made)
  have g: "heap_grows h h1" using NewSchedulers_grows [of h newChecker v "CheckList v"] ss by simp
  have vis: "visible_of ?reg m = visible_of reg m @ (if m = v_name v then ss else [])" for m
    using made_vip [OF made] by (intro visible_of_Adds) blast
  have empty: "\<forall>w \<in> set vs. visible_of ?reg (v_name w) = []" using Cons.prems(2,3) by (auto simp: vis image_iff)
  note IH = Cons.IH [OF rest _ empty]
  have "distinct (map v_name vs)" using Cons.prems(2) by simp
  note IH = IH [OF this]
  have "visible_of reg' (v_name v) = ss" using IH Cons.prems(2,3) by (simp add: vis)
  moreover have "made v ss h'" using made IH by (blast intro: made_grows)
  ultimately show ?case using IH g Cons.prems(2) by (auto simp: vis intro: heap_grows_trans)
qed simp

lemma daemon_build_made:
  assumes "daemon_build de cfg file = Inr r" and "distinct (map v_name (c_vips cfg))" and "v \<in> set (c_vips cfg)"
  shows "made v (visible_of (rl_reg r) (v_name v)) (rl_heap r)"
    and "lm_mgr (rl_pol r) = NewManager (de_pol_env de) (c_vips cfg) [] (Some (de_notifier de)) (de_bgp de)"
    and "\<not> reg_started (rl_reg r)"
proof -
  obtain reg h where p: "provide_loop (de_newChecker de) (c_vips cfg) NewRegistry (de_heap de) = (Inr reg, h)"
    and r: "rl_reg r = reg" "rl_heap r = h"
      "lm_mgr (rl_pol r) = NewManager (de_pol_env de) (c_vips cfg) [] (Some (de_notifier de)) (de_bgp de)"
    using assms(1)
    by (auto simp: daemon_build_def provideSchedulers_def provideReloader_def providePolicyManager_def LockLogLevel_def
        reload_New_def Let_def split: prod.splits sum.splits if_splits)
  have "\<forall>v \<in> set (c_vips cfg). visible_of NewRegistry (v_name v) = []" by (simp add: NewRegistry_def visible_of_def)
  note all = provide_loop_made [OF p assms(2) this]
  then show "made v (visible_of (rl_reg r) (v_name v)) (rl_heap r)" using assms(3) r by simp
  show "lm_mgr (rl_pol r) = NewManager (de_pol_env de) (c_vips cfg) [] (Some (de_notifier de)) (de_bgp de)" by (fact r)
  show "\<not> reg_started (rl_reg r)" using all r by (simp add: NewRegistry_def)
qed


lemma SetCallbacks_twice [simp]: "SetCallbacks t c (SetCallbacks t' c' s) = SetCallbacks t c s"
  by (simp add: SetCallbacks_def)

lemma fold_set_callbacks:
  "hp_obj (fold (\<lambda>s. set_callbacks s t c) ss h) s = (if s \<in> set ss then SetCallbacks t c (hp_obj h s) else hp_obj h s)"
  by (induction ss arbitrary: h) (auto simp: set_callbacks_def)

lemma fold_set_callbacks_all:
  "hp_obj (fold (\<lambda>(vip, ss) h. fold (\<lambda>s. set_callbacks s t c) ss h) m h) s =
     (if \<exists>p \<in> set m. s \<in> set (snd p) then SetCallbacks t c (hp_obj h s) else hp_obj h s)"
  by (induction m arbitrary: h) (auto simp: fold_set_callbacks)

lemma reg_Start_visible [simp]: "visible_of (reg_Start r) = visible_of r"
proof -
  have one: "reg_visible (fold (\<lambda>s r. if map_of (reg_running r) s = None then launchLocked s False r else r) ss r) = reg_visible r"
    for ss and r :: registry by (induction ss arbitrary: r) auto
  have "reg_visible (fold (\<lambda>(vip, list) r.
      fold (\<lambda>s r. if map_of (reg_running r) s = None then launchLocked s False r else r) list r) m r) = reg_visible r"
    for m :: "(string, sid list) gomap" and r :: registry
    by (induction m arbitrary: r) (auto simp: one)
  then show ?thesis by (simp add: reg_Start_def visible_of_def fun_eq_iff)
qed

lemma start_schedulers_sel:
  "rl_pol (start_schedulers r) = rl_pol r" "visible_of (rl_reg (start_schedulers r)) = visible_of (rl_reg r)"
  "s \<in> set (visible_of (rl_reg r) n) \<Longrightarrow>
     hp_obj (rl_heap (start_schedulers r)) s = SetCallbacks (Some CbPolicy) (Some CbPolicy) (hp_obj (rl_heap r) s)"
proof -
  assume "s \<in> set (visible_of (rl_reg r) n)"
  then have "\<exists>p \<in> set (reg_visible (rl_reg r)). s \<in> set (snd p)"
    by (auto simp: visible_of_def gm_get0_def split: option.splits) (metis map_of_SomeD snd_conv)
  then show "hp_obj (rl_heap (start_schedulers r)) s = SetCallbacks (Some CbPolicy) (Some CbPolicy) (hp_obj (rl_heap r) s)"
    by (simp add: start_schedulers_def fold_set_callbacks_all reg_Schedulers_def)
qed (simp_all add: start_schedulers_def)

section \<open>What the policy manager keeps\<close>

text \<open>The definition and the evaluator of a VIP do not change while it runs.\<close>

definition vip_static :: "'b manager \<Rightarrow> string \<Rightarrow> (vip_config \<times> checks_evaluator) option" where
  "vip_static m n = map_option (\<lambda>e. (ve_cfg e, ve_eval e)) (map_of (m_vips m) n)"

text \<open>A VIP of unknown health is withdrawn.\<close>

definition unknown_withdrawn :: "'b manager \<Rightarrow> bool" where
  "unknown_withdrawn m \<longleftrightarrow>
     (\<forall>n e. map_of (m_vips m) n = Some e \<longrightarrow> vs_health (ve_state e) = HealthUnknown \<longrightarrow> vs_state (ve_state e) = StateWithdrawn)"

lemma unknown_withdrawn_put:
  assumes "unknown_withdrawn m" and "m_vips m' = gm_put n e (m_vips m)"
    and "vs_health (ve_state e) = HealthUnknown \<Longrightarrow> vs_state (ve_state e) = StateWithdrawn"
  shows "unknown_withdrawn m'"
  using assms by (auto simp: unknown_withdrawn_def gomap_simps)

lemma combineHealth_known:
  "map_of cs k = Some c \<Longrightarrow> cks_health c \<noteq> HealthUnknown \<Longrightarrow> combineHealth ev cs \<noteq> HealthUnknown"
proof -
  assume "map_of cs k = Some c" "cks_health c \<noteq> HealthUnknown"
  then have "list_ex (\<lambda>(n, c). cks_health c \<noteq> HealthUnknown) cs" by (auto simp: list_ex_iff dest!: map_of_SomeD)
  then show ?thesis by (simp add: combineHealth_def)
qed

lemma transition_keeps:
  "vip_static (OnHealthTransition env t m) = vip_static m"
  "unknown_withdrawn m \<Longrightarrow> unknown_withdrawn (OnHealthTransition env t m)"
proof -
  have "vip_static (OnHealthTransition env t m) = vip_static m \<and>
      (unknown_withdrawn m \<longrightarrow> unknown_withdrawn (OnHealthTransition env t m))"
  proof (cases rule: OnHealthTransition_cases [of env t m])
    case same
    then show ?thesis by simp
  next
    case (recorded e key cs vs1)
    then show ?thesis
      by (auto simp: vip_static_def gomap_simps unknown_withdrawn_def)
  next
    case (evaluated e key cs vs1 vs2 drain reason m1 vs3)
    have m1: "m_vips m1 = m_vips m" using transitionStateLocked_frame [OF evaluated(7)] by simp
    have "combineHealth (ve_eval e) (vs_checks vs1) \<noteq> HealthUnknown"
      using combineHealth_known [of "vs_checks vs1" key _ "ve_eval e"] evaluated(3)
      by (cases "ht_healthy t") (auto simp: gomap_simps)
    then have "vs_health vs3 \<noteq> HealthUnknown" using transitionStateLocked_vs [OF evaluated(7)] evaluated(6) by simp
    then show ?thesis
      using evaluated(1,8) m1 by (auto simp: vip_static_def gomap_simps unknown_withdrawn_def)
  qed
  then show "vip_static (OnHealthTransition env t m) = vip_static m"
    "unknown_withdrawn m \<Longrightarrow> unknown_withdrawn (OnHealthTransition env t m)" by auto
qed

lemma result_keeps:
  "vip_static (OnCheckResult env v ck res m) = vip_static m"
  "unknown_withdrawn m \<Longrightarrow> unknown_withdrawn (OnCheckResult env v ck res m)"
proof -
  have "vip_static (OnCheckResult env v ck res m) = vip_static m \<and>
      (unknown_withdrawn m \<longrightarrow> unknown_withdrawn (OnCheckResult env v ck res m))"
  proof (cases rule: OnCheckResult_cases [of env v ck res m])
    case same
    then show ?thesis by simp
  next
    case (recorded e key cs drain vs1 m1 vs2 m2 vs3)
    note re = reevaluate_policy_vs [OF recorded(5)] and rt = retry_pending_frame [OF recorded(6)]
    have m2: "m_vips m2 = m_vips m" using re rt by simp
    have "vs_health vs3 = vs_health (ve_state e)" using re rt recorded(4) by simp
    moreover have "vs_state vs3 = vs_state (ve_state e)" if "vs_health (ve_state e) = HealthUnknown"
      using that re rt recorded(4,5) by (auto simp: reevaluate_policy_def)
    ultimately show ?thesis
      using recorded(1,7) m2 by (auto simp: vip_static_def gomap_simps unknown_withdrawn_def)
  qed
  then show "vip_static (OnCheckResult env v ck res m) = vip_static m"
    "unknown_withdrawn m \<Longrightarrow> unknown_withdrawn (OnCheckResult env v ck res m)" by auto
qed

lemma NewManager_static:
  assumes "distinct (map v_name vs)" and "v \<in> set vs"
  shows "vip_static (NewManager env vs ml n b) (v_name v) = Some (v, ve_eval (newVIPEntry env v))"
    and "unknown_withdrawn (NewManager env vs ml n b)"
    and "c \<in> set (CheckList v) \<Longrightarrow> check_health (NewManager env vs ml n b) (v_name v) (check_EffectiveName c) = Some HealthUnknown"
proof -
  have static: "vip_static (fold (AddVIP env) us m) (v_name u) = Some (u, ve_eval (newVIPEntry env u)) \<and>
      (\<forall>c \<in> set (CheckList u). check_health (fold (AddVIP env) us m) (v_name u) (check_EffectiveName c) = Some HealthUnknown)"
    if "distinct (map v_name us)" "\<forall>u \<in> set us. map_of (m_vips m) (v_name u) = None" "u \<in> set us"
    for us u and m :: "'b manager"
    using that
  proof (induction us arbitrary: m rule: rev_induct)
    case (snoc w us)
    let ?m = "fold (AddVIP env) us m"
    have keys: "map_of (m_vips (fold (AddVIP env) vs m)) k = None \<longleftrightarrow> k \<notin> v_name ` set vs \<and> map_of (m_vips m) k = None"
      for vs k by (induction vs arbitrary: m) (auto simp: AddVIP_def gomap_simps)
    have new: "map_of (m_vips ?m) (v_name w) = None" using snoc.prems by (auto simp: keys)
    then have pre: "vip_prefix ?m (v_name w) = None" by (simp add: vip_prefix_def)
    have add: "m_vips (AddVIP env w ?m) = gm_put (v_name w) (newVIPEntry env w) (m_vips ?m)"
      using new by (simp add: AddVIP_def)
    show ?case
    proof (cases "u = w")
      case True
      then show ?thesis using check_health_add(1) [OF pre]
        by (auto simp: vip_static_def add gomap_simps newVIPEntry_fields)
    next
      case False
      then have "u \<in> set us" "v_name u \<noteq> v_name w" using snoc.prems by (auto simp: image_iff)
      then show ?thesis
        using snoc check_health_add(1) [OF pre] by (auto simp: vip_static_def add gomap_simps)
    qed
  qed simp
  have withdrawn: "unknown_withdrawn m \<Longrightarrow> unknown_withdrawn (fold (AddVIP env) us m)" for us and m :: "'b manager"
  proof (induction us arbitrary: m)
    case (Cons u us)
    have "unknown_withdrawn (AddVIP env u m)"
      using Cons.prems by (auto simp: AddVIP_def newVIPEntry_fields unknown_withdrawn_def gomap_simps)
    then show ?case using Cons.IH by simp
  qed simp
  let ?m0 = "\<lparr>m_vips = [], m_order = [], m_metrics = ml, m_notifier = n, m_bgp = b,
      m_on_transition = False, m_transition_calls = 0\<rparr>"
  have "unknown_withdrawn ?m0" by (simp add: unknown_withdrawn_def)
  then show "unknown_withdrawn (NewManager env vs ml n b)" using withdrawn by (simp add: NewManager_fold [OF assms(1)])
  have "\<forall>u \<in> set vs. map_of (m_vips ?m0) (v_name u) = None" by simp
  note init = static [OF assms(1) this assms(2)]
  show "vip_static (NewManager env vs ml n b) (v_name v) = Some (v, ve_eval (newVIPEntry env v))"
    using init by (simp add: NewManager_fold [OF assms(1)])
  show "c \<in> set (CheckList v) \<Longrightarrow> check_health (NewManager env vs ml n b) (v_name v) (check_EffectiveName c) = Some HealthUnknown"
    using init by (simp add: NewManager_fold [OF assms(1)])
qed


section \<open>Health follows the results\<close>

text \<open>Whether a check has ever been healthy, and the health the manager should have recorded for it.\<close>

fun rose :: "nat \<Rightarrow> nat \<Rightarrow> bool list \<Rightarrow> bool" where
  "rose rise fall [] = False"
| "rose rise fall (b # bs) = (hysteresis rise fall (b # bs) \<or> rose rise fall bs)"

definition check_verdict :: "nat \<Rightarrow> nat \<Rightarrow> bool list \<Rightarrow> HealthStatus" where
  "check_verdict rise fall bs =
     (if \<not> rose rise fall bs then HealthUnknown
      else if hysteresis rise fall bs then HealthHealthy else HealthUnhealthy)"

lemma hysteresis_rose: "hysteresis rise fall bs \<Longrightarrow> rose rise fall bs"
  by (cases bs) auto

lemma check_verdict_step:
  "check_verdict rise fall (b # bs) =
     (if hysteresis rise fall (b # bs) = hysteresis rise fall bs then check_verdict rise fall bs
      else if hysteresis rise fall (b # bs) then HealthHealthy else HealthUnhealthy)"
  using hysteresis_rose [of rise fall bs] by (auto simp: check_verdict_def simp del: hysteresis.simps)

lemma applyResult_transition:
  "case snd (applyResult res s) of
     None \<Rightarrow> s_healthy (fst (applyResult res s)) = s_healthy s
   | Some t \<Rightarrow> s_healthy (fst (applyResult res s)) \<noteq> s_healthy s \<and> ht_vip_name t = s_vip_name s \<and>
       ht_check_name t = s_check_name s \<and> ht_healthy t = s_healthy (fst (applyResult res s))"
  by (simp add: applyResult_def Let_def)

definition tracked :: "(sid \<Rightarrow> bool list) \<Rightarrow> 'b live_manager reloader \<Rightarrow> string \<Rightarrow> sid \<Rightarrow> bool" where
  "tracked hist r n s \<longleftrightarrow>
     (let sc = hp_obj (rl_heap r) s in
      1 \<le> s_rise sc \<and> 1 \<le> s_fall sc \<and> represents sc (hist s) \<and>
      s_on_transition sc = Some CbPolicy \<and> s_on_check_result sc = Some CbPolicy \<and> s_vip_name sc = n \<and>
      check_health (lm_mgr (rl_pol r)) n (s_check_name sc) =
        Some (check_verdict (nat (s_rise sc)) (nat (s_fall sc)) (hist s)))"

definition daemon_inv :: "string set \<Rightarrow> (sid \<Rightarrow> bool list) \<Rightarrow> 'b live_manager reloader \<Rightarrow> bool" where
  "daemon_inv names hist r \<longleftrightarrow>
     mgr_wf (lm_mgr (rl_pol r)) \<and> unknown_withdrawn (lm_mgr (rl_pol r)) \<and>
     (\<forall>n \<in> names. distinct (map (sched_name r) (visible_of (rl_reg r) n)) \<and>
        (\<forall>s \<in> set (visible_of (rl_reg r) n). tracked hist r n s))"

text \<open>One run of a tracked scheduler: its object, and the manager after the callbacks.\<close>

lemma run_scheduler_manager:
  assumes "tracked hist r n s"
  shows "\<exists>env env'. let sc = hp_obj (rl_heap r) s; m1 = OnCheckResult env n (s_check_name sc) res (lm_mgr (rl_pol r)) in
    hp_obj (rl_heap (run_scheduler manager_iface s res r)) = (hp_obj (rl_heap r))(s := fst (applyResult res sc)) \<and>
    rl_reg (run_scheduler manager_iface s res r) = rl_reg r \<and>
    lm_mgr (rl_pol (run_scheduler manager_iface s res r)) =
      (case snd (applyResult res sc) of None \<Rightarrow> m1 | Some t \<Rightarrow> OnHealthTransition env' t m1)"
  using assms
  by (cases "snd (applyResult res (hp_obj (rl_heap r) s))")
    (force simp: tracked_def run_scheduler_def runCheck_def deliver_def manager_iface_def lm_next_def Let_def
      split: prod.splits)+

text \<open>A run moves the health of its own check to the verdict of the longer history, and no other health.\<close>

lemma run_scheduler_health:
  assumes tr: "tracked hist r n s" and wf: "mgr_wf (lm_mgr (rl_pol r))"
  defines "sc \<equiv> hp_obj (rl_heap r) s"
  shows "check_health (lm_mgr (rl_pol (run_scheduler manager_iface s res r))) v c =
    (if v = n \<and> c = s_check_name sc
     then Some (check_verdict (nat (s_rise sc)) (nat (s_fall sc)) (res_success res # hist s))
     else check_health (lm_mgr (rl_pol r)) v c)"
proof -
  let ?r = "run_scheduler manager_iface s res r" and ?c = "s_check_name sc" and ?sc' = "fst (applyResult res sc)"
  let ?v = "\<lambda>bs. check_verdict (nat (s_rise sc)) (nat (s_fall sc)) bs"
  obtain env env' m1 where m1: "m1 = OnCheckResult env n ?c res (lm_mgr (rl_pol r))"
    and mgr: "lm_mgr (rl_pol ?r) = (case snd (applyResult res sc) of None \<Rightarrow> m1 | Some t \<Rightarrow> OnHealthTransition env' t m1)"
    using run_scheduler_manager [OF tr, of res] by (auto simp: Let_def sc_def)
  have h1: "check_health m1 = check_health (lm_mgr (rl_pol r))" unfolding m1 by (rule check_health_result [OF wf])
  have rep: "represents ?sc' (res_success res # hist s)" and old: "represents sc (hist s)"
    and known: "check_health (lm_mgr (rl_pol r)) n ?c = Some (?v (hist s))" and vip: "s_vip_name sc = n"
    using tr by (auto simp: tracked_def Let_def sc_def intro: represents_step)
  have flags: "s_healthy sc = hysteresis (nat (s_rise sc)) (nat (s_fall sc)) (hist s)"
    "s_healthy ?sc' = hysteresis (nat (s_rise sc)) (nat (s_fall sc)) (res_success res # hist s)"
    using old rep by (simp_all add: represents_def frame_simps del: hysteresis.simps)
  show ?thesis
  proof (cases "snd (applyResult res sc)")
    case None
    then show ?thesis
      using applyResult_transition [of res sc] known flags by (simp add: mgr h1 check_verdict_step del: hysteresis.simps)
  next
    case (Some t)
    then have t: "ht_vip_name t = n" "ht_check_name t = ?c" "ht_healthy t = s_healthy ?sc'" "s_healthy ?sc' \<noteq> s_healthy sc"
      using applyResult_transition [of res sc] vip by simp_all
    have "check_health m1 (ht_vip_name t) (ht_check_name t) \<noteq> None" using known by (simp add: h1 t)
    from check_health_transition(1) [OF this] Some show ?thesis
      using flags t by (simp add: mgr h1 check_verdict_step del: hysteresis.simps)
  qed
qed

lemma daemon_inv_run:
  assumes inv: "daemon_inv names hist r" and n: "n \<in> names" "s \<in> set (visible_of (rl_reg r) n)"
  shows "daemon_inv names (hist(s := res_success res # hist s)) (run_scheduler manager_iface s res r)"
    and "rl_reg (run_scheduler manager_iface s res r) = rl_reg r"
    and "vip_static (lm_mgr (rl_pol (run_scheduler manager_iface s res r))) = vip_static (lm_mgr (rl_pol r))"
    and "(safe_step same)\<^sup>*\<^sup>* (lm_mgr (rl_pol r)) (lm_mgr (rl_pol (run_scheduler manager_iface s res r)))"
proof -
  let ?r = "run_scheduler manager_iface s res r" and ?sc = "hp_obj (rl_heap r) s"
  let ?c = "s_check_name ?sc" and ?sc' = "fst (applyResult res (hp_obj (rl_heap r) s))"
  have tr: "tracked hist r n s" using inv n by (auto simp: daemon_inv_def)
  obtain env env' m1 where m1: "m1 = OnCheckResult env n ?c res (lm_mgr (rl_pol r))"
    and heap: "hp_obj (rl_heap ?r) = (hp_obj (rl_heap r))(s := ?sc')" and reg: "rl_reg ?r = rl_reg r"
    and mgr: "lm_mgr (rl_pol ?r) = (case snd (applyResult res ?sc) of None \<Rightarrow> m1 | Some t \<Rightarrow> OnHealthTransition env' t m1)"
    using run_scheduler_manager [OF tr, of res] by (auto simp: Let_def)
  show "rl_reg ?r = rl_reg r" by (fact reg)
  have "safe_step same (lm_mgr (rl_pol r)) m1" unfolding m1 by (rule safe_step.result)
  moreover have "safe_step same m1 (OnHealthTransition env' t m1)" for t by (rule safe_step.health)
  ultimately show "(safe_step same)\<^sup>*\<^sup>* (lm_mgr (rl_pol r)) (lm_mgr (rl_pol ?r))"
    unfolding mgr by (auto split: option.split intro: converse_rtranclp_into_rtranclp)
  have wf: "mgr_wf (lm_mgr (rl_pol r))" "unknown_withdrawn (lm_mgr (rl_pol r))" using inv by (simp_all add: daemon_inv_def)
  show "vip_static (lm_mgr (rl_pol ?r)) = vip_static (lm_mgr (rl_pol r))"
    by (simp add: mgr m1 transition_keeps result_keeps split: option.split)
  have wf': "mgr_wf (lm_mgr (rl_pol ?r))" "unknown_withdrawn (lm_mgr (rl_pol ?r))"
    using wf by (simp_all add: mgr m1 OnHealthTransition_wf OnCheckResult_wf transition_keeps result_keeps split: option.split)
  note health = run_scheduler_health [OF tr wf(1), of res]
  have rep: "represents ?sc' (res_success res # hist s)" and vip: "s_vip_name ?sc = n"
    using tr by (auto simp: tracked_def Let_def intro: represents_step)
  have names: "sched_name ?r x = sched_name r x" for x by simp
  have "tracked (hist(s := res_success res # hist s)) ?r v x" if "v \<in> names" "x \<in> set (visible_of (rl_reg ?r) v)" for v x
  proof (cases "x = s")
    case True
    then have "v = n" using that reg inv vip by (auto simp: daemon_inv_def tracked_def Let_def)
    then show ?thesis
      using True tr rep by (simp add: tracked_def heap frame_simps health Let_def)
  next
    case False
    have x: "tracked hist r v x" using that reg inv by (auto simp: daemon_inv_def)
    have "\<not> (v = n \<and> sched_name r x = ?c)"
      using False inv n that reg by (auto simp: daemon_inv_def distinct_map inj_on_def)
    then show ?thesis using False x by (auto simp: tracked_def heap health Let_def)
  qed
  then show "daemon_inv names (hist(s := res_success res # hist s)) ?r"
    using inv wf' by (simp add: daemon_inv_def reg names)
qed


text \<open>The outcomes of the runs of a scheduler, newest first.\<close>

definition history :: "(sid \<times> check_result) list \<Rightarrow> sid \<Rightarrow> bool list" where
  "history runs s = rev (map (\<lambda>p. res_success (snd p)) (filter (\<lambda>p. fst p = s) runs))"

lemma daemon_inv_runs:
  assumes "daemon_inv names hist r" and "\<forall>p \<in> set runs. \<exists>n \<in> names. fst p \<in> set (visible_of (rl_reg r) n)"
  shows "daemon_inv names (\<lambda>s. history runs s @ hist s) (daemon_runs runs r) \<and> rl_reg (daemon_runs runs r) = rl_reg r \<and>
    vip_static (lm_mgr (rl_pol (daemon_runs runs r))) = vip_static (lm_mgr (rl_pol r)) \<and>
    (safe_step same)\<^sup>*\<^sup>* (lm_mgr (rl_pol r)) (lm_mgr (rl_pol (daemon_runs runs r)))"
  using assms
proof (induction runs arbitrary: r hist)
  case Nil
  then show ?case by (simp add: daemon_runs_def history_def)
next
  case (Cons p runs)
  obtain s res where p: "p = (s, res)" by force
  obtain n where n: "n \<in> names" "s \<in> set (visible_of (rl_reg r) n)" using Cons.prems(2) p by auto
  let ?r = "run_scheduler manager_iface s res r" and ?hist = "hist(s := res_success res # hist s)"
  note one = daemon_inv_run [OF Cons.prems(1) n, where res = res]
  have "\<forall>p \<in> set runs. \<exists>n \<in> names. fst p \<in> set (visible_of (rl_reg ?r) n)" using Cons.prems(2) one(2) by simp
  note IH = Cons.IH [OF one(1) this]
  have "(\<lambda>t. history runs t @ ?hist t) = (\<lambda>t. history (p # runs) t @ hist t)" by (auto simp: history_def p)
  moreover have "daemon_runs (p # runs) r = daemon_runs runs ?r" by (simp add: daemon_runs_def p)
  ultimately show ?case using IH one(2,3) rtranclp_trans [OF one(4)] by simp
qed

section \<open>A started daemon\<close>

lemma check_ready_name: "check_ready c \<Longrightarrow> check_EffectiveName c \<noteq> []"
  by (auto simp: check_ready_def block_set_def check_EffectiveName_def check_type_defs)

lemma loaded_ready:
  assumes "config_Load env path = Inr cfg" and "v \<in> set (c_vips cfg)" and "c \<in> set (CheckList v)"
  shows "check_ready c"
  using loaded_vip [OF assms(1,2)] assms(3)
  by (auto simp: vip_valid_def list_all_iff vip_filled_def intro: check_ready_from)

lemma loaded_names: "config_Load env path = Inr cfg \<Longrightarrow> distinct (map v_name (c_vips cfg))"
  using validate_vips_Nil [of "le_validators env" 0 "[]" "[]" "c_vips cfg"]
  by (auto dest!: config_Load_Inr(1) simp: Validate_def)

lemma built_scheduler:
  assumes "check_ready c"
  shows "s_check_name (NewScheduler (scheduler_config_of v c ty)) = check_EffectiveName c"
    and "1 \<le> s_rise (NewScheduler (scheduler_config_of v c ty))" and "1 \<le> s_fall (NewScheduler (scheduler_config_of v c ty))"
    and "represents (NewScheduler (scheduler_config_of v c ty)) []"
  using assms check_ready_name [OF assms]
  by (auto simp: NewScheduler_def scheduler_config_of_def check_ready_def represents_def)

lemma started_daemon_built:
  assumes load: "config_Load env path = Inr cfg" and start: "daemon_start de cfg file = Inr r"
  shows "v \<in> set (c_vips cfg) \<Longrightarrow> vip_static (lm_mgr (rl_pol r)) (v_name v) = Some (v, ve_eval (newVIPEntry (de_pol_env de) v))"
    and "v \<in> set (c_vips cfg) \<Longrightarrow> length (visible_of (rl_reg r) (v_name v)) = length (CheckList v)"
    and "v \<in> set (c_vips cfg) \<Longrightarrow> i < length (CheckList v) \<Longrightarrow>
      \<exists>ty. hp_obj (rl_heap r) (visible_of (rl_reg r) (v_name v) ! i) =
        SetCallbacks (Some CbPolicy) (Some CbPolicy) (NewScheduler (scheduler_config_of v (CheckList v ! i) ty))"
    and "lm_mgr (rl_pol r) = NewManager (de_pol_env de) (c_vips cfg) [] (Some (de_notifier de)) (de_bgp de)"
proof -
  obtain r0 where r0: "daemon_build de cfg file = Inr r0" and r: "r = start_schedulers r0"
    using start by (auto simp: daemon_start_def map_sum_def split: sum.splits)
  note names = loaded_names [OF load]
  note made = daemon_build_made [OF r0 names]
  have "c_vips cfg \<noteq> []" using config_Load_Inr(1) [OF load] by (simp add: Validate_def)
  note first = hd_in_set [OF this]
  have vis: "visible_of (rl_reg r) = visible_of (rl_reg r0)" and pol: "rl_pol r = rl_pol r0"
    by (simp_all add: r start_schedulers_sel)
  show mgr: "lm_mgr (rl_pol r) = NewManager (de_pol_env de) (c_vips cfg) [] (Some (de_notifier de)) (de_bgp de)"
    unfolding pol by (rule made(2) [OF first])
  show len: "length (visible_of (rl_reg r) (v_name v)) = length (CheckList v)" if "v \<in> set (c_vips cfg)" for v
    using made(1) [OF that] by (simp add: vis made_def)
  show obj: "\<exists>ty. hp_obj (rl_heap r) (visible_of (rl_reg r) (v_name v) ! i) =
      SetCallbacks (Some CbPolicy) (Some CbPolicy) (NewScheduler (scheduler_config_of v (CheckList v ! i) ty))"
    if v: "v \<in> set (c_vips cfg)" and i: "i < length (CheckList v)" for v i
  proof -
    have i': "i < length (visible_of (rl_reg r0) (v_name v))" using len [OF v] i by (simp add: vis)
    from nth_mem [OF this] have "hp_obj (rl_heap r) (visible_of (rl_reg r) (v_name v) ! i) =
        SetCallbacks (Some CbPolicy) (Some CbPolicy) (hp_obj (rl_heap r0) (visible_of (rl_reg r0) (v_name v) ! i))"
      unfolding r by (simp add: start_schedulers_sel)
    moreover obtain ty where "hp_obj (rl_heap r0) (visible_of (rl_reg r0) (v_name v) ! i) =
        NewScheduler (scheduler_config_of v (CheckList v ! i) ty)"
      using made(1) [OF v] i' by (auto simp: made_def)
    ultimately show ?thesis by auto
  qed
  show static: "vip_static (lm_mgr (rl_pol r)) (v_name v) = Some (v, ve_eval (newVIPEntry (de_pol_env de) v))"
    if "v \<in> set (c_vips cfg)" for v
    using NewManager_static(1) [OF names that] by (simp add: pol made(2) [OF that])
qed

lemma started_daemon_inv:
  assumes load: "config_Load env path = Inr cfg" and start: "daemon_start de cfg file = Inr r"
  shows "daemon_inv (v_name ` set (c_vips cfg)) (\<lambda>_. []) r"
proof -
  note names = loaded_names [OF load] and ready = loaded_ready [OF load]
  note len = started_daemon_built(2) [OF load start] and obj = started_daemon_built(3) [OF load start]
    and mgr = started_daemon_built(4) [OF load start]
  have "c_vips cfg \<noteq> []" using config_Load_Inr(1) [OF load] by (simp add: Validate_def)
  note first = hd_in_set [OF this]
  have one: "tracked (\<lambda>_. []) r (v_name v) (visible_of (rl_reg r) (v_name v) ! i)"
    and name: "sched_name r (visible_of (rl_reg r) (v_name v) ! i) = check_EffectiveName (CheckList v ! i)"
    if v: "v \<in> set (c_vips cfg)" and i: "i < length (CheckList v)" for v i
  proof -
    obtain ty where ty: "hp_obj (rl_heap r) (visible_of (rl_reg r) (v_name v) ! i) =
      SetCallbacks (Some CbPolicy) (Some CbPolicy) (NewScheduler (scheduler_config_of v (CheckList v ! i) ty))"
      using obj [OF v i] by blast
    note b = built_scheduler [OF ready [OF v nth_mem [OF i]], of v ty]
    have "check_health (lm_mgr (rl_pol r)) (v_name v) (check_EffectiveName (CheckList v ! i)) = Some HealthUnknown"
      using NewManager_static(3) [OF names v nth_mem [OF i]] by (simp add: mgr)
    with b show "tracked (\<lambda>_. []) r (v_name v) (visible_of (rl_reg r) (v_name v) ! i)"
      by (simp add: tracked_def ty SetCallbacks_def represents_def check_verdict_def)
        (simp add: NewScheduler_def scheduler_config_of_def)
    show "sched_name r (visible_of (rl_reg r) (v_name v) ! i) = check_EffectiveName (CheckList v ! i)"
      using b by (simp add: ty SetCallbacks_def)
  qed
  have "map (sched_name r) (visible_of (rl_reg r) (v_name v)) = map check_EffectiveName (CheckList v)"
    if "v \<in> set (c_vips cfg)" for v
    using name [OF that] len [OF that] by (intro nth_equalityI) simp_all
  then have "distinct (map (sched_name r) (visible_of (rl_reg r) (v_name v)))" if "v \<in> set (c_vips cfg)" for v
    using loaded_vip(1) [OF load that] that by (simp add: vip_valid_def)
  moreover have "tracked (\<lambda>_. []) r (v_name v) s" if "v \<in> set (c_vips cfg)" "s \<in> set (visible_of (rl_reg r) (v_name v))" for v s
    using that one len by (metis in_set_conv_nth)
  moreover have "mgr_wf (lm_mgr (rl_pol r)) \<and> unknown_withdrawn (lm_mgr (rl_pol r))"
    unfolding mgr by (intro conjI NewManager_wf [OF names] NewManager_static(2) [OF names first])
  ultimately show "daemon_inv (v_name ` set (c_vips cfg)) (\<lambda>_. []) r" by (auto simp: daemon_inv_def)
qed

lemmas started_daemon = started_daemon_inv started_daemon_built


section \<open>The state a VIP should have\<close>

text \<open>
  The specification of the daemon, from the outcomes of the checks of a VIP alone: each check has the verdict of
  its own history; while none has a verdict the VIP is withdrawn; after that the checks policy decides the
  health, a check without a verdict counting as failed, and the engine the state.
\<close>

definition verdict_of :: "check_config \<Rightarrow> bool list \<Rightarrow> HealthStatus" where
  "verdict_of c bs =
     check_verdict (nat (case ck_rise c of None \<Rightarrow> 1 | Some n \<Rightarrow> n)) (nat (case ck_fall c of None \<Rightarrow> 3 | Some n \<Rightarrow> n)) bs"

definition expected_state :: "checks_evaluator \<Rightarrow> bool \<Rightarrow> vip_config \<Rightarrow> bool list list \<Rightarrow> VIPState" where
  "expected_state ev drain v hists =
     (let verdicts = map2 verdict_of (CheckList v) hists in
      if list_all (\<lambda>h. h = HealthUnknown) verdicts then StateWithdrawn
      else Evaluate (Eval ev (zip (map check_EffectiveName (CheckList v)) (map (\<lambda>h. h = HealthHealthy) verdicts)))
             drain (v_policy v))"

text \<open>The health of a VIP, read off the health of its checks.\<close>

lemma entry_expected:
  assumes wf: "mgr_wf m" and un: "unknown_withdrawn m" and e: "map_of (m_vips m) (v_name v) = Some e" and v: "ve_cfg e = v"
    and hists: "length hists = length (CheckList v)"
    and checks: "\<And>i. i < length (CheckList v) \<Longrightarrow>
      check_health m (v_name v) (check_EffectiveName (CheckList v ! i)) = Some (verdict_of (CheckList v ! i) (hists ! i))"
    and dist: "distinct (map check_EffectiveName (CheckList v))"
  shows "vs_state (ve_state e) = expected_state (ve_eval e) (vs_lower_priority_file_on (ve_state e)) v hists"
proof -
  let ?cs = "vs_checks (ve_state e)" and ?vd = "map2 verdict_of (CheckList v) hists"
  let ?names = "map check_EffectiveName (CheckList v)"
  have ew: "gm_wf ?cs" "set (gm_keys ?cs) = set ?names" "ev_names (ve_eval e) = ?names" and eo: "entry_ok e"
    using mgr_wfD(4,5) [OF wf e] v by (auto simp: entry_wf_def)
  have look: "map_option cks_health (map_of ?cs (?names ! i)) = Some (?vd ! i)" if "i < length (CheckList v)" for i
    using checks [OF that] e that hists by (simp add: check_health_def)
  have known: "list_ex (\<lambda>(n, c). cks_health c \<noteq> HealthUnknown) ?cs \<longleftrightarrow> \<not> list_all (\<lambda>h. h = HealthUnknown) ?vd"
  proof
    assume "list_ex (\<lambda>(n, c). cks_health c \<noteq> HealthUnknown) ?cs"
    then obtain n c where nc: "(n, c) \<in> set ?cs" "cks_health c \<noteq> HealthUnknown" by (auto simp: list_ex_iff)
    then have "n \<in> set ?names" using ew(2) by force
    then obtain i where i: "i < length (CheckList v)" "n = ?names ! i" by (auto simp: in_set_conv_nth)
    have "map_of ?cs n = Some c" using nc(1) ew(1) by (simp add: gm_wf_def)
    then have "?vd ! i = cks_health c" using look [OF i(1)] i(2) by simp
    then show "\<not> list_all (\<lambda>h. h = HealthUnknown) ?vd" using nc(2) i(1) hists by (force simp: list_all_length)
  next
    assume "\<not> list_all (\<lambda>h. h = HealthUnknown) ?vd"
    then obtain i where i: "i < length (CheckList v)" "?vd ! i \<noteq> HealthUnknown" using hists by (auto simp: list_all_length)
    then obtain c where "map_of ?cs (?names ! i) = Some c" "cks_health c = ?vd ! i" using look [OF i(1)] by auto
    then show "list_ex (\<lambda>(n, c). cks_health c \<noteq> HealthUnknown) ?cs" using i(2) by (force simp: list_ex_iff dest: map_of_SomeD)
  qed
  let ?h = "map (\<lambda>(n, c). (n, cks_health c = HealthHealthy)) ?cs"
    and ?h' = "zip ?names (map (\<lambda>h. h = HealthHealthy) ?vd)"
  have "Eval (ve_eval e) ?h = Eval (ve_eval e) ?h'"
  proof (rule Eval_cong, unfold ew(3))
    fix n assume "n \<in> set ?names"
    then obtain i where i: "i < length (CheckList v)" "n = ?names ! i" by (auto simp: in_set_conv_nth)
    have "map_of ?h n = map_option (\<lambda>c. cks_health c = HealthHealthy) (map_of ?cs n)" by (simp add: map_of_map)
    also have "\<dots> = map_option (\<lambda>h. h = HealthHealthy) (map_option cks_health (map_of ?cs n))"
      by (simp add: option.map_comp comp_def)
    also have "\<dots> = Some (?vd ! i = HealthHealthy)" unfolding i(2) look [OF i(1)] by simp
    also have "\<dots> = map_of ?h' n"
      unfolding i(2) by (subst map_of_zip_nth) (use dist hists i(1) in simp_all)
    finally show "gm_get0 False ?h n = gm_get0 False ?h' n" by (simp add: gm_get0_def)
  qed
  then show ?thesis
    using eo un e v known
    by (auto simp: entry_ok_def combineHealth_def Let_def expected_state_def unknown_withdrawn_def split: if_splits)
qed


text \<open>Runs change neither the names nor the thresholds of a scheduler.\<close>

definition sched_static :: "scheduler \<Rightarrow> string \<times> string \<times> int \<times> int" where
  "sched_static s = (s_vip_name s, s_check_name s, s_rise s, s_fall s)"

lemma run_scheduler_static: "sched_static (hp_obj (rl_heap (run_scheduler P s res r)) x) = sched_static (hp_obj (rl_heap r) x)"
proof -
  obtain s' evs where run: "runCheck res (hp_obj (rl_heap r) s) = (s', evs)" by force
  then have "s' = fst (applyResult res (hp_obj (rl_heap r) s))" using fst_runCheck by (metis fst_conv)
  then show ?thesis using run by (simp add: run_scheduler_def sched_static_def frame_simps)
qed

lemma daemon_runs_static: "sched_static (hp_obj (rl_heap (daemon_runs runs r)) x) = sched_static (hp_obj (rl_heap r) x)"
  unfolding daemon_runs_def by (induction runs arbitrary: r) (auto simp: run_scheduler_static)

lemma daemon_state:
  assumes load: "config_Load env path = Inr cfg" and start: "daemon_start de cfg file = Inr r"
    and runs: "\<forall>p \<in> set runs. \<exists>v \<in> set (c_vips cfg). fst p \<in> set (visible_of (rl_reg r) (v_name v))"
    and v: "v \<in> set (c_vips cfg)"
  shows "\<exists>e. map_of (m_vips (lm_mgr (rl_pol (daemon_runs runs r)))) (v_name v) = Some e \<and> ve_cfg e = v \<and>
      ve_eval e = ve_eval (newVIPEntry (de_pol_env de) v) \<and>
      vs_state (ve_state e) = expected_state (ve_eval e) (vs_lower_priority_file_on (ve_state e)) v
        (map (history runs) (visible_of (rl_reg r) (v_name v)))"
proof -
  let ?r = "daemon_runs runs r" and ?ss = "visible_of (rl_reg r) (v_name v)"
  note started = started_daemon [OF load start]
  have "\<forall>p \<in> set runs. \<exists>n \<in> v_name ` set (c_vips cfg). fst p \<in> set (visible_of (rl_reg r) n)" using runs by blast
  note fin = daemon_inv_runs [OF started(1) this]
  have inv: "daemon_inv (v_name ` set (c_vips cfg)) (history runs) ?r" and reg: "rl_reg ?r = rl_reg r"
    and st: "vip_static (lm_mgr (rl_pol ?r)) (v_name v) = Some (v, ve_eval (newVIPEntry (de_pol_env de) v))"
    using fin started(2) [OF v] by simp_all
  then obtain e where e: "map_of (m_vips (lm_mgr (rl_pol ?r))) (v_name v) = Some e" "ve_cfg e = v"
    "ve_eval e = ve_eval (newVIPEntry (de_pol_env de) v)" by (auto simp: vip_static_def)
  have len: "length ?ss = length (CheckList v)" using started(3) [OF v] .
  have "check_health (lm_mgr (rl_pol ?r)) (v_name v) (check_EffectiveName (CheckList v ! i)) =
      Some (verdict_of (CheckList v ! i) (map (history runs) ?ss ! i))" if i: "i < length (CheckList v)" for i
  proof -
    obtain ty where ty: "hp_obj (rl_heap r) (?ss ! i) =
        SetCallbacks (Some CbPolicy) (Some CbPolicy) (NewScheduler (scheduler_config_of v (CheckList v ! i) ty))"
      using started(4) [OF v i] by blast
    note ready = loaded_ready [OF load v nth_mem [OF i]]
    have "sched_static (hp_obj (rl_heap ?r) (?ss ! i)) = sched_static (hp_obj (rl_heap r) (?ss ! i))"
      by (rule daemon_runs_static)
    then have names: "s_check_name (hp_obj (rl_heap ?r) (?ss ! i)) = check_EffectiveName (CheckList v ! i)"
      "s_rise (hp_obj (rl_heap ?r) (?ss ! i)) = (case ck_rise (CheckList v ! i) of None \<Rightarrow> 1 | Some n \<Rightarrow> n)"
      "s_fall (hp_obj (rl_heap ?r) (?ss ! i)) = (case ck_fall (CheckList v ! i) of None \<Rightarrow> 3 | Some n \<Rightarrow> n)"
      using built_scheduler(1) [OF ready, of v ty]
      by (simp_all add: sched_static_def ty SetCallbacks_def) (simp_all add: NewScheduler_def scheduler_config_of_def)
    have "tracked (history runs) ?r (v_name v) (?ss ! i)"
      using inv v len i reg by (auto simp: daemon_inv_def)
    then show ?thesis using len i by (simp add: tracked_def names verdict_of_def Let_def)
  qed
  moreover have "distinct (map check_EffectiveName (CheckList v))" using loaded_vip(1) [OF load v] by (simp add: vip_valid_def)
  moreover have "mgr_wf (lm_mgr (rl_pol ?r))" "unknown_withdrawn (lm_mgr (rl_pol ?r))" using inv by (simp_all add: daemon_inv_def)
  ultimately show ?thesis
    using e len entry_expected [of "lm_mgr (rl_pol ?r)" v e "map (history runs) ?ss"] by auto
qed


lemma loaded_prefixes:
  assumes "config_Load env path = Inr cfg" and "v \<in> set (c_vips cfg)" "w \<in> set (c_vips cfg)" and "v_name v \<noteq> v_name w"
  shows "\<not> same_nlri (v_prefix v) (v_prefix w)"
proof -
  have "validate_vips (le_validators env) 0 [] [] (c_vips cfg) = []"
    using config_Load_Inr(1) [OF assms(1)] by (simp add: Validate_def)
  then have "distinct (map vip_canonical (c_vips cfg))" using validate_vips_Nil by blast
  then have "vip_canonical v \<noteq> vip_canonical w" using assms(2-4) by (auto simp: distinct_map inj_on_def)
  then show ?thesis using same_nlri_canonical by blast
qed

section \<open>From checks to routes\<close>

text \<open>C1: The daemon announces what its checks say. Start it on a file that loads, with an empty BGP table, and let
  its schedulers run in any order with any results. Then every VIP is in the state the specification computes from
  the outcomes of its own checks, its compiled checks policy, the drain file as last seen and its fail action; and
  unless a BGP operation of the VIP failed and is pending, the table holds exactly the path of that state: none
  when withdrawn, otherwise the one with the attributes of the state.\<close>

theorem daemon_routes_follow_checks:
  assumes "config_Load env path = Inr cfg" and "pe_expr (de_pol_env de) = vd_expr (le_validators env)"
    and "daemon_start de cfg file = Inr r"
    and "\<forall>p \<in> set runs. \<exists>v \<in> set (c_vips cfg). fst p \<in> set (visible_of (rl_reg r) (v_name v))"
    and "de_notifier de = notifier_of g" and "de_bgp de = bgp_NewManager srv cfg metrics"
    and "gobgp_rib g rib used" and "\<And>k. rib srv k = None"
    and "v \<in> set (c_vips cfg)"
    and "hists = map (history runs) (visible_of (rl_reg r) (v_name v))"
  shows "\<exists>e ev. map_of (m_vips (lm_mgr (rl_pol (daemon_runs runs r)))) (v_name v) = Some e \<and>
    CompileChecksPolicy (vd_expr (le_validators env)) (EffectiveChecksPolicy v) (map check_EffectiveName (CheckList v)) = Inr ev \<and>
    (let st = expected_state ev (vs_lower_priority_file_on (ve_state e)) v hists;
         table = rib (bm_server (m_bgp (lm_mgr (rl_pol (daemon_runs runs r)))))
     in vs_state (ve_state e) = st \<and>
        (\<forall>k. nlri_of (v_prefix v) = Some k \<longrightarrow> \<not> vs_bgp_pending (ve_state e) \<longrightarrow>
           (if st = StateWithdrawn then table k = None
            else \<exists>path u. buildPath g (v_prefix v) (RouteAttrsFor (v_policy v) st) (bgp_NewManager srv cfg metrics) = Inr path \<and>
                   table k = Some (u, path))))"
proof -
  let ?m = "lm_mgr (rl_pol (daemon_runs runs r))"
  note started = started_daemon [OF assms(1,3)]
  obtain e where e: "map_of (m_vips ?m) (v_name v) = Some e" "ve_cfg e = v" "ve_eval e = ve_eval (newVIPEntry (de_pol_env de) v)"
    and st: "vs_state (ve_state e) = expected_state (ve_eval e) (vs_lower_priority_file_on (ve_state e)) v hists"
    using daemon_state [OF assms(1,3,4,9)] assms(10) by blast
  have ev: "CompileChecksPolicy (vd_expr (le_validators env)) (EffectiveChecksPolicy v)
      (map check_EffectiveName (CheckList v)) = Inr (ve_eval e)"
    unfolding e(3) by (rule loaded_evaluator(1) [OF assms(1,9,2)])
  have "\<forall>p \<in> set runs. \<exists>n \<in> v_name ` set (c_vips cfg). fst p \<in> set (visible_of (rl_reg r) n)" using assms(4) by blast
  from daemon_inv_runs [OF started(1) this, of same_nlri]
  have steps: "(safe_step same_nlri)\<^sup>*\<^sup>* (NewManager (de_pol_env de) (c_vips cfg) [] (Some (notifier_of g)) (bgp_NewManager srv cfg metrics)) ?m"
    by (simp add: started(5) assms(5,6))
  have inst: "bgp_instance g rib used" using assms(7) by (simp add: bgp_instance_def)
  have b0: "rib (bm_server (bgp_NewManager srv cfg metrics)) k = None" "bm_installed (bgp_NewManager srv cfg metrics) = []" for k
    by (simp_all add: bgp_NewManager_def assms(8))
  have "if vs_state (ve_state e) = StateWithdrawn then rib (bm_server (m_bgp ?m)) k = None
      else \<exists>path u. buildPath g (v_prefix v) (RouteAttrsFor (v_policy v) (vs_state (ve_state e)))
             (bgp_NewManager srv cfg metrics) = Inr path \<and> rib (bm_server (m_bgp ?m)) k = Some (u, path)"
    if "\<not> vs_bgp_pending (ve_state e)" "nlri_of (v_prefix v) = Some k" for k
    using that unfolding e(2) [symmetric]
    by (intro bgp_instance.routes_from_start(1) [OF inst b0 loaded_names [OF assms(1)] loaded_prefixes [OF assms(1)] steps e(1)])
  then show ?thesis using e(1) ev st by (auto simp: Let_def split: if_splits)
qed


section \<open>A daemon with one VIP\<close>

definition ex_denv :: "ref_server bgp_manager daemon_env" where
  "ex_denv =
     \<lparr>de_now = 1000, de_sha256 = (\<lambda>raw. raw), de_newChecker = (\<lambda>c. Inr (ck_type c)),
      de_pol_env = ex_env\<lparr>pe_expr := vd_expr ex_validators\<rparr>, de_pol_envs = (\<lambda>_. ex_env\<lparr>pe_expr := vd_expr ex_validators\<rparr>),
      de_notifier = notifier_of ref_gobgp, de_bgp = bgp_NewManager \<lparr>ref_next = 0, ref_table = []\<rparr> ex_loaded False,
      de_heap = \<lparr>hp_obj = ex_obj, hp_next = 0, hp_closed = []\<rparr>\<rparr>"

definition ex_file :: config_file where
  "ex_file = \<lparr>cf_path = ''/etc/pathosd.yaml'', cf_raw = ''asn: %{ASN}'', cf_debug_forced = False\<rparr>"

lemma ex_daemon: "\<exists>r. daemon_start ex_denv ex_loaded ex_file = Inr r \<and> visible_of (rl_reg r) ''web'' = [0, 1]"
proof -
  obtain v c d where v: "c_vips ex_loaded = [v]" "v_name v = ''web''" "\<not> v_require_local_address v" "CheckList v = [c, d]"
    using ex_loaded_vip by blast
  then show ?thesis
    by (simp add: daemon_start_def daemon_build_def provideSchedulers_def ex_denv_def NewSchedulers_def alloc_sched_def
        start_schedulers_sel provideReloader_def ex_file_def reload_New_def visible_of_Add NewRegistry_def)
      (simp add: NewScheduler_def scheduler_config_of_def visible_of_def)
qed



lemma ex_loaded_states:
  "\<exists>v c d. c_vips ex_loaded = [v] \<and> v_name v = ''web'' \<and> v_checks_policy v = ''any'' \<and> CheckList v = [c, d] \<and>
     check_EffectiveName c = ''a'' \<and> check_EffectiveName d = ''b'' \<and> ck_rise c = Some 1 \<and> ck_fall c = Some 3 \<and>
     ck_rise d = Some 1"
  by (simp add: ex_loaded_eval CheckList_def check_EffectiveName_def)

text \<open>Its first check passes once and its second check fails once: the policy \<open>any\<close> announces the VIP.\<close>

theorem daemon_routes_follow_checks_witness:
  "\<exists>r e. daemon_start ex_denv ex_loaded ex_file = Inr r \<and>
     map_of (m_vips (lm_mgr (rl_pol (daemon_runs [(0, ex_result True), (1, ex_result False)] r)))) ''web'' = Some e \<and>
     vs_state (ve_state e) \<noteq> StateWithdrawn"
proof -
  obtain r where r: "daemon_start ex_denv ex_loaded ex_file = Inr r" "visible_of (rl_reg r) ''web'' = [0, 1]"
    using ex_daemon by blast
  obtain v c d where v: "c_vips ex_loaded = [v]" "v_name v = ''web''" "v_checks_policy v = ''any''" "CheckList v = [c, d]"
    and n: "check_EffectiveName c = ''a''" "check_EffectiveName d = ''b''"
    and th: "ck_rise c = Some 1" "ck_fall c = Some 3" "ck_rise d = Some 1"
    using ex_loaded_states by blast
  let ?runs = "[(0, ex_result True), (1, ex_result False)]"
  have hists: "[[True], [False]] = map (history ?runs) (visible_of (rl_reg r) (v_name v))"
    using v(2) r(2) by (simp add: history_def)
  have verdicts: "verdict_of c [True] = HealthHealthy" "verdict_of d [False] = HealthUnknown"
    using th by (simp_all add: verdict_of_def check_verdict_def)
  let ?srv = "\<lparr>ref_next = 0, ref_table = []\<rparr>"
  have side: "pe_expr (de_pol_env ex_denv) = vd_expr (le_validators ex_load_env)"
    "\<forall>p \<in> set ?runs. \<exists>v \<in> set (c_vips ex_loaded). fst p \<in> set (visible_of (rl_reg r) (v_name v))"
    "de_notifier ex_denv = notifier_of ref_gobgp" "de_bgp ex_denv = bgp_NewManager ?srv ex_loaded False"
    "\<And>k. map_of (ref_table ?srv) k = None" "v \<in> set (c_vips ex_loaded)" "le_validators ex_load_env = ex_validators"
    using r(2) v(1,2) by (simp_all add: ex_denv_def ex_load_env_def)
  obtain e ev where e: "map_of (m_vips (lm_mgr (rl_pol (daemon_runs ?runs r)))) ''web'' = Some e"
    and ev: "CompileChecksPolicy (vd_expr ex_validators) (EffectiveChecksPolicy v) (map check_EffectiveName (CheckList v)) = Inr ev"
    and st: "vs_state (ve_state e) = expected_state ev (vs_lower_priority_file_on (ve_state e)) v [[True], [False]]"
    using daemon_routes_follow_checks [OF ex_load side(1) r(1) side(2-4) ref.gobgp_rib_axioms side(5,6) hists] v(2) side(7)
    unfolding Let_def by auto
  have "Eval ev [(''a'', True), (''b'', False)]"
    using ev v(3,4) n by (auto simp: EffectiveChecksPolicy_def CompileChecksPolicy_def ChecksPolicyAny_def
        ChecksPolicyAll_def Eval_def gm_get0_def split: if_splits)
  then have "vs_state (ve_state e) \<noteq> StateWithdrawn"
    using v(4) n verdicts by (simp add: st expected_state_def Evaluate_def)
  with r(1) e show ?thesis by blast
qed

end
