(* ===== verification/Governance.thy ===== *)
theory Governance
  imports Daemon
begin

text \<open>
  Reloads and the policy manager together: in every state of a running daemon the policy manager governs each VIP by
  the definition the reloader believes in (\<open>effectiveVIPsLocked\<close>). This is what makes the difference computed by the
  next reload right, and it says when a new definition takes over.
\<close>

section \<open>The definitions the policy manager goes by\<close>

definition defs_of :: "'b manager \<Rightarrow> string \<Rightarrow> vip_config option" where
  "defs_of m n = map_option ve_cfg (map_of (m_vips m) n)"

text \<open>A list of VIPs by name.\<close>

definition vip_table :: "vip_config list \<Rightarrow> string \<Rightarrow> vip_config option" where
  "vip_table vs n = find (\<lambda>v. v_name v = n) vs"

lemma vip_table_Some: "distinct (map v_name vs) \<Longrightarrow> vip_table vs n = Some v \<longleftrightarrow> v \<in> set vs \<and> v_name v = n"
  unfolding vip_table_def by (rule find_distinct)

lemma vip_table_None: "vip_table vs n = None \<longleftrightarrow> n \<notin> v_name ` set vs"
  by (auto simp: vip_table_def find_None_iff)

lemma defs_static: "defs_of m n = map_option fst (vip_static m n)"
  by (simp add: defs_of_def vip_static_def option.map_comp comp_def)

lemma defs_events:
  "defs_of (OnHealthTransition env t m) = defs_of m" "defs_of (OnCheckResult env v ck res m) = defs_of m"
  by (simp_all add: fun_eq_iff defs_static transition_keeps result_keeps)

lemma defs_add: "defs_of m (v_name v) = None \<Longrightarrow> defs_of (AddVIP env v m) = (defs_of m)(v_name v \<mapsto> v)"
  by (auto simp: defs_of_def AddVIP_def fun_eq_iff gomap_simps newVIPEntry_fields)

lemma defs_remove:
  "RemoveVIP n m = (err, m') \<Longrightarrow> defs_of m' = (if err = None then (defs_of m)(n := None) else defs_of m)"
  by (auto simp: RemoveVIP_def forget_vip_def defs_of_def fun_eq_iff gomap_simps Let_def
      split: option.splits prod.splits if_splits)

text \<open>A commit succeeds when every check has a seed or a running state and the policy compiles.\<close>

lemma commit_checks_complete:
  "\<forall>c \<in> set cs. map_of seeds (check_EffectiveName c) \<noteq> None \<or> map_of running (check_EffectiveName c) \<noteq> None \<Longrightarrow>
     fst (commit_checks seeds cs (running, nxt)) = None"
proof (induction seeds cs "(running, nxt)" arbitrary: running nxt rule: commit_checks.induct)
  case (2 seeds c cs running nxt)
  let ?n = "check_EffectiveName c"
  show ?case
  proof (cases "map_of seeds ?n")
    case None
    then obtain old where old: "map_of running ?n = Some old" using "2.prems" by fastforce
    have "\<forall>d \<in> set cs. map_of seeds (check_EffectiveName d) \<noteq> None \<or>
        map_of (gm_put ?n (old\<lparr>cks_cfg := c\<rparr>) running) (check_EffectiveName d) \<noteq> None"
      using "2.prems" by (auto simp: gomap_simps)
    then show ?thesis using "2.hyps"(1) [OF refl None old] None old by (simp add: Let_def)
  next
    case (Some seed)
    then show ?thesis using "2.hyps"(2) [OF refl Some] "2.prems" by (simp add: Let_def)
  qed
qed simp

definition compiles :: "expr_compiler \<Rightarrow> vip_config \<Rightarrow> bool" where
  "compiles expr v \<longleftrightarrow>
     (\<exists>ev. CompileChecksPolicy expr (EffectiveChecksPolicy v) (map check_EffectiveName (CheckList v)) = Inr ev)"

lemma defs_commit:
  assumes "mgr_wf m" and "defs_of m (v_name cfg) = Some old" and "v_prefix old = v_prefix cfg"
    and "\<forall>c \<in> set (CheckList cfg). map_of seeds (check_EffectiveName c) \<noteq> None \<or>
      check_EffectiveName c \<in> check_EffectiveName ` set (CheckList old)"
    and "compiles (pe_expr env) cfg" and "CommitVIP env cfg seeds m = (err, m')"
  shows "err = None" and "defs_of m' = (defs_of m)(v_name cfg \<mapsto> cfg)"
proof -
  obtain e where e: "map_of (m_vips m) (v_name cfg) = Some e" "ve_cfg e = old" using assms(2) by (auto simp: defs_of_def)
  have "set (gm_keys (vs_checks (ve_state e))) = check_EffectiveName ` set (CheckList old)"
    using mgr_wfD(4) [OF assms(1) e(1)] e(2) by (simp add: entry_wf_def)
  then have "\<forall>c \<in> set (CheckList cfg). map_of seeds (check_EffectiveName c) \<noteq> None \<or>
      map_of (vs_checks (ve_state e)) (check_EffectiveName c) \<noteq> None"
    using assms(4) by (simp add: map_of_eq_None_iff)
  note all = commit_checks_complete [OF this, of "[]"]
  show "err = None" "defs_of m' = (defs_of m)(v_name cfg \<mapsto> cfg)"
  proof (atomize (full), cases rule: CommitVIP_cases [of env cfg seeds m])
    case (refused er)
    then show "err = None \<and> defs_of m' = (defs_of m)(v_name cfg \<mapsto> cfg)" using e assms(3) by auto
  next
    case (failed e' missing running nxt er ops)
    then show "err = None \<and> defs_of m' = (defs_of m)(v_name cfg \<mapsto> cfg)"
      using all e assms(5) by (auto simp: compiles_def)
  next
    case (switched e' running nxt eval vs1 m2 m3 vs2)
    then show "err = None \<and> defs_of m' = (defs_of m)(v_name cfg \<mapsto> cfg)"
      using assms(6) commit_switch_vs(5) [OF switched(7)] by (auto simp: defs_of_def fun_eq_iff gomap_simps)
  qed
qed

section \<open>The policy behind the interface\<close>

definition envs_expr :: "expr_compiler \<Rightarrow> 'b live_manager \<Rightarrow> bool" where
  "envs_expr expr lm \<longleftrightarrow> (\<forall>n. pe_expr (lm_envs lm n) = expr)"

definition pol_ok :: "expr_compiler \<Rightarrow> 'b live_manager \<Rightarrow> bool" where
  "pol_ok expr lm \<longleftrightarrow> mgr_wf (lm_mgr lm) \<and> envs_expr expr lm"

abbreviation defs :: "'b live_manager \<Rightarrow> string \<Rightarrow> vip_config option" where
  "defs lm \<equiv> defs_of (lm_mgr lm)"

lemma envs_next: "envs_expr expr lm \<Longrightarrow> envs_expr expr (lm_next m lm)"
  by (simp add: envs_expr_def lm_next_def)

lemma lm_next_mgr [simp]: "lm_mgr (lm_next m lm) = m"
  by (simp add: lm_next_def)

lemma iface_events:
  "defs (pi_OnHealthTransition manager_iface t lm) = defs lm"
  "defs (pi_OnCheckResult manager_iface vip check res lm) = defs lm"
  "pol_ok expr lm \<Longrightarrow> pol_ok expr (pi_OnHealthTransition manager_iface t lm)"
  "pol_ok expr lm \<Longrightarrow> pol_ok expr (pi_OnCheckResult manager_iface vip check res lm)"
  by (simp_all add: manager_iface_def defs_events pol_ok_def envs_next wf_intros)

lemma iface_add:
  "pol_ok expr lm \<Longrightarrow> pol_ok expr (pi_AddVIP manager_iface v lm)"
  "defs lm (v_name v) = None \<Longrightarrow> defs (pi_AddVIP manager_iface v lm) = (defs lm)(v_name v \<mapsto> v)"
  by (simp_all add: manager_iface_def defs_add pol_ok_def envs_next wf_intros)

lemma iface_remove:
  assumes "pi_RemoveVIP manager_iface n lm = (err, lm')"
  shows "pol_ok expr lm \<Longrightarrow> pol_ok expr lm'"
    and "defs lm' = (if err = None then (defs lm)(n := None) else defs lm)"
proof -
  obtain m where m: "RemoveVIP n (lm_mgr lm) = (err, m)" "lm' = lm_next m lm"
    using assms by (auto simp: manager_iface_def split: prod.splits)
  then show "defs lm' = (if err = None then (defs lm)(n := None) else defs lm)" using defs_remove [OF m(1)] by simp
  show "pol_ok expr lm \<Longrightarrow> pol_ok expr lm'" using RemoveVIP_wf [of "lm_mgr lm" n] m by (simp add: pol_ok_def envs_next)
qed

lemma iface_commit:
  assumes "pol_ok expr lm" and "defs lm (v_name cfg) = Some old" and "v_prefix old = v_prefix cfg"
    and "\<forall>c \<in> set (CheckList cfg). map_of seeds (check_EffectiveName c) \<noteq> None \<or>
      check_EffectiveName c \<in> check_EffectiveName ` set (CheckList old)"
    and "compiles expr cfg" and "pi_CommitVIP manager_iface cfg seeds lm = (err, lm')"
  shows "err = None" and "pol_ok expr lm'" and "defs lm' = (defs lm)(v_name cfg \<mapsto> cfg)"
proof -
  obtain m where m: "CommitVIP (lm_envs lm 0) cfg seeds (lm_mgr lm) = (err, m)" "lm' = lm_next m lm"
    using assms(6) by (auto simp: manager_iface_def split: prod.splits)
  have "pe_expr (lm_envs lm 0) = expr" using assms(1) by (simp add: pol_ok_def envs_expr_def)
  then show "err = None" "defs lm' = (defs lm)(v_name cfg \<mapsto> cfg)"
    using defs_commit [OF _ assms(2-4) _ m(1)] assms(1,5) m(2) by (simp_all add: pol_ok_def)
  show "pol_ok expr lm'"
    using assms(1) CommitVIP_wf [of "lm_mgr lm" "lm_envs lm 0" cfg seeds] m by (simp add: pol_ok_def envs_next)
qed

section \<open>What leaves the policy alone\<close>

lemma pol_ops [frame_simps]:
  "rl_pol (stop_and_close s r) = rl_pol r" "rl_pol (dropStagingLocked r) = rl_pol r" "rl_pol (add_scheduler s r) = rl_pol r"
  "rl_pol (drop_check v c r) = rl_pol r" "rl_pol (start_shadow s r) = rl_pol r" "rl_pol (promote_shadow s r) = rl_pol r"
  "rl_pol (shadow_result s r) = rl_pol r" "rl_pol (commit_outcome vip err r) = rl_pol r"
  "rl_pol (fst (apply_log_level env cfg r res)) = rl_pol r" "rl_pol (notify_if b r) = rl_pol r"
  "rl_pol (pending_gauge r) = rl_pol r" "rl_pol (pollFile env r) = rl_pol r"
proof -
  show c: "rl_pol (stop_and_close s r) = rl_pol r" for s and r :: "'p reloader" by (simp add: stop_and_close_def)
  show "rl_pol (dropStagingLocked r) = rl_pol r"
    by (auto simp: dropStagingLocked_def c intro!: fold_frame [of _ rl_pol])
  show "rl_pol (drop_check v c' r) = rl_pol r" for c' by (simp add: drop_check_def c split: option.split)
qed (simp_all add: add_scheduler_def start_shadow_def watchShadow_def promote_shadow_def shadow_result_def commit_outcome_def
    apply_log_level_def notify_if_def pending_gauge_def pollFile_def Let_def split: option.split prod.split)

lemma cur_ops [frame_simps]:
  "rl_cur (promote_shadow s r) = rl_cur r" "rl_cur (drop_check v c r) = rl_cur r" "rl_cur (deliver P s ev r) = rl_cur r"
  "rl_cur (run_scheduler P s res r) = rl_cur r" "rl_cur (attach_shadow P vip ok seeds p r) = rl_cur r"
  "rl_cur (commit_outcome vip err r) = rl_cur r" "rl_cur (notify_if b r) = rl_cur r"
  "rl_cur (pending_gauge r) = rl_cur r" "rl_cur (pollFile env r) = rl_cur r"
proof -
  show d: "rl_cur (deliver P s ev r) = rl_cur r" for P s ev and r :: "'p reloader"
    by (simp add: deliver_def shadow_result_def Let_def split: sched_event.split callback.split prod.split)
  show "rl_cur (run_scheduler P s res r) = rl_cur r"
    by (auto simp: run_scheduler_def d split: prod.split intro!: fold_frame [of _ rl_cur, THEN trans])
qed (simp_all add: promote_shadow_def drop_check_def stop_and_close_def attach_shadow_def commit_outcome_def
    notify_if_def pending_gauge_def pollFile_def Let_def split: option.split prod.split)

lemma cur_commit: "rl_cur (commitLocked now during P st r) = rl_cur r"
proof -
  have "rl_cur (fold (run_scheduler P s) rs r) = rl_cur r" for s rs r
    by (rule fold_frame) (simp add: frame_simps)
  then show ?thesis by (simp add: commitLocked_def Let_def case_prod_beta frame_simps fold_frame [of _ rl_cur])
qed

text \<open>Runs of schedulers, and attaching the callbacks after a commit, keep the definitions.\<close>

definition quiet :: "expr_compiler \<Rightarrow> 'b live_manager \<Rightarrow> 'b live_manager \<Rightarrow> bool" where
  "quiet expr lm lm' \<longleftrightarrow> defs lm' = defs lm \<and> (pol_ok expr lm \<longrightarrow> pol_ok expr lm')"

lemma quiet_refl [simp]: "quiet expr lm lm"
  by (simp add: quiet_def)

lemma quiet_fold:
  "(\<And>x r. x \<in> set xs \<Longrightarrow> quiet expr (rl_pol r) (rl_pol (f x r))) \<Longrightarrow> quiet expr (rl_pol r) (rl_pol (fold f xs r))"
  by (induction xs arbitrary: r) (auto simp: quiet_def)

lemma quiet_deliver: "quiet expr (rl_pol r) (rl_pol (deliver manager_iface s ev r))"
  by (simp add: deliver_def quiet_def iface_events frame_simps split: sched_event.split callback.split)

lemma quiet_run: "quiet expr (rl_pol r) (rl_pol (run_scheduler manager_iface s res r))"
proof -
  obtain s' evs where run: "runCheck res (hp_obj (rl_heap r) s) = (s', evs)" by force
  show ?thesis
    using quiet_fold [of evs expr "deliver manager_iface s" "r\<lparr>rl_heap := (rl_heap r)\<lparr>hp_obj := (hp_obj (rl_heap r))(s := s')\<rparr>\<rparr>",
        OF quiet_deliver]
    by (simp add: run_scheduler_def run)
qed

lemma quiet_attach: "quiet expr (rl_pol r) (rl_pol (attach_shadow manager_iface vip ok seeds p r))"
  by (simp add: attach_shadow_def quiet_def iface_events Let_def split: prod.split)

section \<open>The invariant\<close>

text \<open>The definition that governs a VIP: the old one while it is staged, otherwise the one of the running file.\<close>

definition governing :: "'p reloader \<Rightarrow> string \<Rightarrow> vip_config option" where
  "governing r n =
     (case vip_table (c_vips (rl_cur r)) n of
        None \<Rightarrow> None
      | Some v \<Rightarrow> Some (case map_of (rl_staging r) n of None \<Rightarrow> v | Some st \<Rightarrow> sg_old st))"

definition staged_ok :: "expr_compiler \<Rightarrow> vip_config list \<Rightarrow> string \<Rightarrow> staged_vip \<Rightarrow> bool" where
  "staged_ok expr vips n st \<longleftrightarrow>
     sg_cfg st \<in> set vips \<and> v_name (sg_cfg st) = n \<and> same_vip (sg_old st) (sg_cfg st) \<and> compiles expr (sg_cfg st) \<and>
     (\<forall>c \<in> set (CheckList (sg_cfg st)). map_of (sg_shadows st) (check_EffectiveName c) \<noteq> None \<or>
        check_EffectiveName c \<in> check_EffectiveName ` set (CheckList (sg_old st)))"

definition governed :: "expr_compiler \<Rightarrow> 'b live_manager reloader \<Rightarrow> bool" where
  "governed expr r \<longleftrightarrow>
     pol_ok expr (rl_pol r) \<and> distinct (map v_name (c_vips (rl_cur r))) \<and> gm_wf (rl_staging r) \<and>
     (\<forall>n st. map_of (rl_staging r) n = Some st \<longrightarrow> staged_ok expr (c_vips (rl_cur r)) n st) \<and>
     defs (rl_pol r) = governing r"

lemma governed_quiet:
  assumes "governed expr r" and "quiet expr (rl_pol r) (rl_pol r')" and "rl_cur r' = rl_cur r" and "rl_staging r' = rl_staging r"
  shows "governed expr r'"
proof -
  have "governing r' = governing r" unfolding fun_eq_iff governing_def assms(3,4) by simp
  then show ?thesis using assms by (simp add: governed_def quiet_def)
qed

lemma governed_run: "governed expr r \<Longrightarrow> governed expr (run_scheduler manager_iface s res r)"
  by (rule governed_quiet) (simp_all add: quiet_run frame_simps)

text \<open>It is what \<open>effectiveVIPsLocked\<close> lists.\<close>

lemma effective_governing:
  assumes "\<And>n st. map_of (rl_staging r) n = Some st \<Longrightarrow> v_name (sg_old st) = n"
  shows "vip_table (effectiveVIPsLocked r) n = governing r n"
proof -
  let ?eff = "\<lambda>v. case map_of (rl_staging r) (v_name v) of None \<Rightarrow> v | Some st \<Rightarrow> sg_old st"
  have name: "v_name (?eff v) = v_name v" for v using assms by (simp split: option.split)
  have "find (\<lambda>v. v_name v = n) (map ?eff vs) = map_option ?eff (find (\<lambda>v. v_name v = n) vs)" for vs
    by (induction vs) (auto simp: name)
  moreover have "effectiveVIPsLocked r = map ?eff (c_vips (rl_cur r))" by (simp add: effectiveVIPsLocked_def)
  ultimately have "vip_table (effectiveVIPsLocked r) n = map_option ?eff (vip_table (c_vips (rl_cur r)) n)"
    by (simp add: vip_table_def)
  moreover have "v_name v = n" if "vip_table (c_vips (rl_cur r)) n = Some v" for v
    using that by (auto simp: vip_table_def find_Some_iff)
  ultimately show ?thesis by (cases "vip_table (c_vips (rl_cur r)) n") (simp_all add: governing_def)
qed

lemma governed_old_name: "governed expr r \<Longrightarrow> map_of (rl_staging r) n = Some st \<Longrightarrow> v_name (sg_old st) = n"
  by (auto simp: governed_def staged_ok_def same_vip_def)

section \<open>Commits\<close>

lemma governed_commit:
  assumes g: "governed expr r" and st: "map_of (rl_staging r) n = Some st"
  shows "governed expr (commitLocked now during manager_iface st r)"
proof -
  have ok: "staged_ok expr (c_vips (rl_cur r)) n st" and pol: "pol_ok expr (rl_pol r)"
    and dist: "distinct (map v_name (c_vips (rl_cur r)))" and eq: "defs (rl_pol r) = governing r"
    using g st by (auto simp: governed_def)
  define r1 where "r1 = r\<lparr>rl_staging := gm_del n (rl_staging r)\<rparr>"
  define r3 where "r3 = fold promote_shadow (map snd (sg_shadows st)) (fold (drop_check n) (sg_removed st) r1)"
  define seeds where "seeds = map (\<lambda>(name, s). (name, seed_of now (hp_obj (rl_heap r3) s))) (sg_shadows st)"
  have r3: "rl_pol r3 = rl_pol r" "rl_cur r3 = rl_cur r"
    by (simp_all add: r3_def r1_def fold_frame [of _ rl_pol] fold_frame [of _ rl_cur] frame_simps)
  obtain err pol' where c: "pi_CommitVIP manager_iface (sg_cfg st) seeds (rl_pol r3) = (err, pol')" by force
  have in_seeds: "map_of seeds k \<noteq> None \<longleftrightarrow> map_of (sg_shadows st) k \<noteq> None" for k
    by (simp add: seeds_def map_of_map)
  have tab: "vip_table (c_vips (rl_cur r)) n = Some (sg_cfg st)" using ok dist by (simp add: vip_table_Some staged_ok_def)
  then have old: "defs (rl_pol r3) (v_name (sg_cfg st)) = Some (sg_old st)"
    using eq st ok by (simp add: r3 governing_def staged_ok_def)
  have "v_prefix (sg_old st) = v_prefix (sg_cfg st)" "compiles expr (sg_cfg st)"
    "\<forall>c \<in> set (CheckList (sg_cfg st)). map_of seeds (check_EffectiveName c) \<noteq> None \<or>
      check_EffectiveName c \<in> check_EffectiveName ` set (CheckList (sg_old st))"
    using ok unfolding in_seeds by (simp_all only: staged_ok_def same_vip_def) simp_all
  note com = iface_commit [OF pol [folded r3(1)] old this(1,3,2) c]
  define r5 where "r5 = fold (\<lambda>s r. fold (run_scheduler manager_iface s) (during s) r) (map snd (sg_shadows st)) (r3\<lparr>rl_pol := pol'\<rparr>)"
  define r6 where "r6 = fold (attach_shadow manager_iface n (err = None) seeds) (sg_shadows st) r5"
  have "quiet expr (rl_pol (r3\<lparr>rl_pol := pol'\<rparr>)) (rl_pol r5)" unfolding r5_def by (intro quiet_fold quiet_run)
  moreover have "quiet expr (rl_pol r5) (rl_pol r6)" unfolding r6_def by (intro quiet_fold quiet_attach)
  ultimately have q: "quiet expr pol' (rl_pol r6)" by (simp add: quiet_def)
  have r': "commitLocked now during manager_iface st r = commit_outcome n err r6"
    using c ok by (simp add: commitLocked_def Let_def r6_def r5_def r3_def r1_def seeds_def staged_ok_def)
  have cur: "rl_cur (commitLocked now during manager_iface st r) = rl_cur r" by (rule cur_commit)
  have stg: "rl_staging (commitLocked now during manager_iface st r) = gm_del n (rl_staging r)"
    using ok by (simp add: staging_commit staged_ok_def)
  have "defs (rl_pol (commitLocked now during manager_iface st r)) = (governing r)(n \<mapsto> sg_cfg st)"
    using q com(3) eq ok by (simp add: r' frame_simps quiet_def r3 staged_ok_def)
  also have "\<dots> = governing (commitLocked now during manager_iface st r)"
    using tab unfolding fun_eq_iff governing_def cur stg by (simp add: gomap_simps split: option.split)
  finally show ?thesis
    using g com(2) q unfolding governed_def cur stg by (auto simp: r' frame_simps quiet_def gomap_simps gm_wf_del)
qed

lemma governed_verdict:
  assumes g: "governed expr r" and st: "map_of (rl_staging r) n = Some st"
  shows "governed expr (r\<lparr>rl_staging := gm_put n (st\<lparr>sg_verdicts := vs\<rparr>) (rl_staging r)\<rparr>)"
proof -
  let ?r = "r\<lparr>rl_staging := gm_put n (st\<lparr>sg_verdicts := vs\<rparr>) (rl_staging r)\<rparr>"
  have "governing ?r = governing r"
    unfolding fun_eq_iff governing_def using st by (auto simp: gomap_simps split: option.split)
  then show ?thesis using g st by (auto simp: governed_def staged_ok_def gm_wf_put gomap_simps)
qed

lemma governed_ready_loop:
  "governed expr r \<Longrightarrow> governed expr (snd (commit_ready_loop now during manager_iface ss (changed, r)))"
proof (induction ss arbitrary: changed r)
  case (Cons s ss)
  let ?sh = "hp_obj (rl_heap r) s"
  show ?case
  proof (cases "map_of (rl_staging r) (s_vip_name ?sh)")
    case None
    then show ?thesis using Cons by (simp add: Let_def)
  next
    case (Some st)
    define st1 where "st1 = st\<lparr>sg_verdicts := gm_put (s_check_name ?sh) True (sg_verdicts st)\<rparr>"
    define r1 where "r1 = r\<lparr>rl_staging := gm_put (s_vip_name ?sh) st1 (rl_staging r)\<rparr>"
    have r1: "governed expr r1" unfolding r1_def st1_def by (rule governed_verdict [OF Cons.prems Some])
    have "map_of (rl_staging r1) (s_vip_name ?sh) = Some st1" by (simp add: r1_def gomap_simps)
    from governed_commit [OF r1 this] show ?thesis
      using Cons Some r1 by (simp add: Let_def st1_def [symmetric] r1_def [symmetric])
  qed
qed simp

lemma governed_wake: "governed expr r \<Longrightarrow> governed expr (run_wake now during manager_iface r)"
proof -
  assume "governed expr r"
  then have "governed expr (r\<lparr>rl_wake := False, rl_verdicts := []\<rparr>)" by (rule governed_quiet) simp_all
  from governed_ready_loop [OF this, of now during "rl_verdicts r" False]
  show ?thesis
    using \<open>governed expr r\<close>
    by (auto simp: run_wake_def commitReady_def case_prod_beta notify_if_def pending_gauge_def Let_def elim!: governed_quiet)
qed

lemma governed_commits:
  assumes "governed expr r" and "distinct (map fst xs)" and "\<forall>(n, st) \<in> set xs. map_of (rl_staging r) n = Some st"
  shows "governed expr (fold (\<lambda>(n, st). commitLocked now during manager_iface st) xs r)"
  using assms
proof (induction xs arbitrary: r)
  case (Cons x xs)
  obtain n st where x: "x = (n, st)" by force
  let ?r = "commitLocked now during manager_iface st r"
  have st: "map_of (rl_staging r) n = Some st" using Cons.prems(3) x by simp
  have "v_name (sg_cfg st) = n" using Cons.prems(1) st by (auto simp: governed_def staged_ok_def)
  then have "\<forall>(k, s) \<in> set xs. map_of (rl_staging ?r) k = Some s"
    using Cons.prems(2,3) x by (force simp: staging_commit gomap_simps)
  then show ?case using Cons.IH [OF governed_commit [OF Cons.prems(1) st]] Cons.prems(2) x by simp
qed simp

lemma governed_tick: "governed expr r \<Longrightarrow> governed expr (run_tick env during manager_iface r)"
proof -
  assume g: "governed expr r"
  let ?ex = "filter (\<lambda>(name, st). sg_deadline st \<le> re_now env) (rl_staging r)"
  have "gm_wf (rl_staging r)" using g by (simp add: governed_def)
  then have "distinct (map fst ?ex)" "\<forall>(n, st) \<in> set ?ex. map_of (rl_staging r) n = Some st"
    by (auto simp: gm_wf_def distinct_map_filter map_of_is_SomeI)
  from governed_commits [OF g this]
  have "governed expr (fold (\<lambda>(n, st). commitLocked (re_now env) during manager_iface st) ?ex r)" .
  then show ?thesis
    by (rule governed_quiet)
      (simp_all add: run_tick_def expireStaged_def Let_def frame_simps, simp_all add: pollFile_def notify_if_def pending_gauge_def Let_def)
qed

lemma tick_side:
  "rl_staging (run_tick env during P r) = rl_staging (expireStaged (re_now env) during P r)"
  "rl_cur (run_tick env during P r) = rl_cur r"
proof -
  have "rl_cur (fold (\<lambda>(name, st). commitLocked now during P st) xs r) = rl_cur r" for now r and xs :: "(string, staged_vip) gomap"
    by (rule fold_frame) (auto simp: cur_commit)
  then show "rl_cur (run_tick env during P r) = rl_cur r"
    by (simp add: run_tick_def expireStaged_def frame_simps Let_def)
qed (simp add: run_tick_def pollFile_def notify_if_def Let_def)

lemma tick_late:
  assumes g: "governed expr r" and late: "\<forall>(n, st) \<in> set (rl_staging r). sg_deadline st \<le> re_now env"
  shows "governing (run_tick env during manager_iface r) n = vip_table (c_vips (rl_cur r)) n"
proof -
  have "v_name (sg_cfg st) = k" if "map_of (rl_staging r) k = Some st" for k st
    using g that by (auto simp: governed_def staged_ok_def)
  moreover have "gm_wf (rl_staging r)" using g by (simp add: governed_def)
  ultimately have "map_of (rl_staging (run_tick env during manager_iface r)) n = None"
    using late staging_expire [of r "re_now env" during manager_iface n]
    by (auto simp: tick_side(1) split: option.split dest: map_of_SomeD)
  then show ?thesis by (simp add: governing_def tick_side(2) split: option.split)
qed

section \<open>The phases of a reload\<close>

lemma removed_defs:
  "apply_removed manager_iface vs fl r res = Ret (fl', r', res') \<Longrightarrow> distinct (map v_name vs) \<Longrightarrow> gm_wf fl \<Longrightarrow>
     \<forall>v \<in> set vs. map_of fl (v_name v) = None \<Longrightarrow> pol_ok expr (rl_pol r) \<Longrightarrow>
     pol_ok expr (rl_pol r') \<and>
     (\<forall>n. defs (rl_pol r') n = (if n \<in> v_name ` set vs \<and> map_of fl' n = None then None else defs (rl_pol r) n))"
proof (induction vs arbitrary: fl r res)
  case (Cons v vs)
  let ?n = "v_name v" and ?run = "gm_get0 [] (reg_Schedulers (rl_reg r)) (v_name v)"
  obtain reg' where g: "reg_RemoveVIP (hp_obj (rl_heap r)) ?n (rl_reg r) = Ret reg'"
    using Cons.prems(1) by (auto simp: Let_def split: outcome.splits)
  obtain err pol' where p: "pi_RemoveVIP manager_iface ?n (rl_pol r) = (err, pol')" by force
  note pol = iface_remove(1) [OF p, of expr] iface_remove(2) [OF p]
  define fl1 where "fl1 = (if err = None then fl else gm_put ?n v fl)"
  have new: "?n \<notin> v_name ` set vs" using Cons.prems(2) by simp
  have f1: "gm_wf fl1" "\<forall>w \<in> set vs. map_of fl1 (v_name w) = None" "map_of fl1 ?n = None \<longleftrightarrow> err = None"
    using Cons.prems(3,4) new by (auto simp: fl1_def gm_wf_put gomap_simps image_iff)
  obtain r1 res1 where step: "apply_removed manager_iface vs fl1 r1 res1 = Ret (fl', r', res')" "rl_pol r1 = pol'"
    using Cons.prems(1) g p by (cases err) (auto simp: Let_def fl1_def)
  have keep: "map_of fl' ?n = map_of fl1 ?n"
    using apply_removed_split [OF step(1) _ f1(1,2)] Cons.prems(2) new by auto
  from Cons.IH [OF step(1) _ f1(1,2)] Cons.prems(2,5) pol(1)
  have "pol_ok expr (rl_pol r')" "\<forall>n. defs (rl_pol r') n =
      (if n \<in> v_name ` set vs \<and> map_of fl' n = None then None else defs pol' n)" by (simp_all add: step(2))
  then show ?case using pol(2) keep f1(3) new by (auto split: if_splits)
qed auto

lemma added_defs:
  "pol_ok expr (rl_pol r) \<Longrightarrow> distinct (map v_name vs) \<Longrightarrow>
     \<forall>v \<in> set vs. map_of fl (v_name v) = None \<longrightarrow> defs (rl_pol r) (v_name v) = None \<Longrightarrow>
     pol_ok expr (rl_pol (fst (apply_added manager_iface added fl vs r res))) \<and>
     (\<forall>n. defs (rl_pol (fst (apply_added manager_iface added fl vs r res))) n =
        (if n \<in> v_name ` set vs \<and> map_of fl n = None then vip_table vs n else defs (rl_pol r) n))"
proof (induction vs arbitrary: r res)
  case (Cons v vs)
  let ?n = "v_name v" and ?ss = "gm_get0 [] added (v_name v)"
  have new: "?n \<notin> v_name ` set vs" using Cons.prems(2) by simp
  show ?case
  proof (cases "map_of fl ?n = None")
    case False
    let ?r = "r\<lparr>rl_heap := closeSchedulers ?ss (rl_heap r)\<rparr>"
    have "apply_added manager_iface added fl (v # vs) r res = apply_added manager_iface added fl vs ?r res"
      using False by (simp add: Let_def)
    then show ?thesis using Cons.IH [of ?r res] Cons.prems False new by (auto simp: vip_table_def image_iff)
  next
    case True
    let ?p = "pi_AddVIP manager_iface v (rl_pol r)"
    let ?r = "fold add_scheduler ?ss (r\<lparr>rl_pol := ?p\<rparr>)" and ?res = "res\<lparr>rs_added := rs_added res @ [?n]\<rparr>"
    have r: "rl_pol ?r = ?p" by (simp add: fold_frame [of _ rl_pol] frame_simps)
    have p: "pol_ok expr ?p" "defs ?p = (defs (rl_pol r))(?n \<mapsto> v)"
      using iface_add(1) [of expr "rl_pol r" v] iface_add(2) [of "rl_pol r" v] Cons.prems(1,3) True by simp_all
    have "\<forall>w \<in> set vs. map_of fl (v_name w) = None \<longrightarrow> defs (rl_pol ?r) (v_name w) = None"
      using Cons.prems(3) new by (auto simp: r p(2)) (metis imageI)
    moreover have "apply_added manager_iface added fl (v # vs) r res = apply_added manager_iface added fl vs ?r ?res"
      using True by (simp add: Let_def)
    ultimately show ?thesis
      using Cons.IH [of ?r ?res] Cons.prems(2) p True new by (auto simp: r vip_table_def image_iff)
  qed
qed auto

text \<open>Every changed check of a staged VIP has its shadow.\<close>

lemma stage_vip_complete:
  assumes "NewSchedulers newChecker (ch_new ch) (ch_checks_changed ch) h = (Inr ss, h')"
    and "c \<in> set (ch_checks_changed ch)" and "check_ready c"
  shows "map_of (sg_shadows (stage_vip now ch ss h')) (check_EffectiveName c) \<noteq> None"
proof -
  have keys: "map_of (fold (\<lambda>s m. gm_put (s_check_name (hp_obj h' s)) s m) ts m) k \<noteq> None \<longleftrightarrow>
      k \<in> (\<lambda>s. s_check_name (hp_obj h' s)) ` set ts \<or> map_of m k \<noteq> None" for ts m k
    by (induction ts arbitrary: m) (auto simp: gomap_simps)
  obtain i where i: "i < length (ch_checks_changed ch)" "c = ch_checks_changed ch ! i" using assms(2) by (auto simp: in_set_conv_nth)
  then obtain ty where "i < length ss" "hp_obj h' (ss ! i) = NewScheduler (scheduler_config_of (ch_new ch) c ty)"
    using NewSchedulers_built [OF assms(1)] by (auto simp: built_def)
  then have "check_EffectiveName c \<in> (\<lambda>s. s_check_name (hp_obj h' s)) ` set ss"
    using built_scheduler(1) [OF assms(3)] by (metis imageI nth_mem)
  then show ?thesis unfolding stage_vip_def staged_vip.simps keys by simp
qed

definition stages :: "vip_change \<Rightarrow> staged_vip \<Rightarrow> bool" where
  "stages ch st \<longleftrightarrow>
     sg_cfg st = ch_new ch \<and> sg_old st = ch_old ch \<and>
     (\<forall>c \<in> set (ch_checks_changed ch). check_ready c \<longrightarrow> map_of (sg_shadows st) (check_EffectiveName c) \<noteq> None)"

lemma build_staged_lookup:
  "build_staged newChecker now chs staged h = (None, staged', h') \<Longrightarrow> distinct (map (v_name \<circ> ch_new) chs) \<Longrightarrow>
     gm_wf staged \<Longrightarrow> \<forall>ch \<in> set chs. map_of staged (v_name (ch_new ch)) = None \<Longrightarrow>
     gm_wf staged' \<and> (\<forall>q. q \<notin> (v_name \<circ> ch_new) ` set chs \<longrightarrow> map_of staged' q = map_of staged q) \<and>
     (\<forall>ch \<in> set chs. if ch_checks_changed ch = [] then map_of staged' (v_name (ch_new ch)) = None
        else \<exists>st. map_of staged' (v_name (ch_new ch)) = Some st \<and> stages ch st)"
proof (induction chs arbitrary: staged h)
  case (Cons ch chs)
  let ?n = "v_name (ch_new ch)"
  have new: "?n \<notin> (v_name \<circ> ch_new) ` set chs" using Cons.prems(2) by simp
  show ?case
  proof (cases "ch_checks_changed ch = []")
    case True
    then have step: "build_staged newChecker now chs staged h = (None, staged', h')" using Cons.prems(1) by simp
    show ?thesis using Cons.IH [OF step] Cons.prems(2-4) True new by auto
  next
    case False
    obtain ss h1 where n: "NewSchedulers newChecker (ch_new ch) (ch_checks_changed ch) h = (Inr ss, h1)"
      using Cons.prems(1) False by (cases "NewSchedulers newChecker (ch_new ch) (ch_checks_changed ch) h") (auto split: sum.splits)
    define st where "st = stage_vip now ch ss h1"
    have st: "stages ch st"
      using stage_vip_complete [OF n] by (auto simp: stages_def st_def stage_vip_def)
    have step: "build_staged newChecker now chs (gm_put ?n st staged) h1 = (None, staged', h')"
      using Cons.prems(1) False n by (simp add: st_def)
    have fresh: "\<forall>c \<in> set chs. map_of (gm_put ?n st staged) (v_name (ch_new c)) = None"
      using Cons.prems(4) new by (auto simp: gomap_simps image_iff)
    have IH: "gm_wf staged'" "\<forall>q. q \<notin> (v_name \<circ> ch_new) ` set chs \<longrightarrow> map_of staged' q = map_of (gm_put ?n st staged) q"
      "\<forall>ch \<in> set chs. if ch_checks_changed ch = [] then map_of staged' (v_name (ch_new ch)) = None
        else \<exists>st. map_of staged' (v_name (ch_new ch)) = Some st \<and> stages ch st"
      using Cons.IH [OF step _ _ fresh] Cons.prems(2,3) by (simp_all add: gm_wf_put)
    have "map_of staged' ?n = Some st" using IH(2) new by (simp add: gomap_simps)
    then show ?thesis using IH st False by (auto simp: gomap_simps)
  qed
qed simp

lemma changed_defs:
  "pol_ok expr (rl_pol r) \<Longrightarrow> distinct (map (v_name \<circ> ch_new) chs) \<Longrightarrow>
     \<forall>ch \<in> set chs. map_of staged (v_name (ch_new ch)) = None \<longrightarrow>
       defs (rl_pol r) (v_name (ch_new ch)) = Some (ch_old ch) \<and> v_prefix (ch_old ch) = v_prefix (ch_new ch) \<and>
       check_EffectiveName ` set (CheckList (ch_new ch)) \<subseteq> check_EffectiveName ` set (CheckList (ch_old ch)) \<and>
       compiles expr (ch_new ch) \<Longrightarrow>
     apply_changed manager_iface staged chs r res = (r', res') \<Longrightarrow>
     pol_ok expr (rl_pol r') \<and> rs_errors res' = rs_errors res \<and> (gm_wf (rl_staging r) \<longrightarrow> gm_wf (rl_staging r')) \<and>
     (\<forall>n. n \<notin> (v_name \<circ> ch_new) ` set chs \<longrightarrow>
        defs (rl_pol r') n = defs (rl_pol r) n \<and> map_of (rl_staging r') n = map_of (rl_staging r) n) \<and>
     (\<forall>ch \<in> set chs. \<forall>n. n = v_name (ch_new ch) \<longrightarrow>
        (map_of staged n = None \<longrightarrow> defs (rl_pol r') n = Some (ch_new ch) \<and> map_of (rl_staging r') n = map_of (rl_staging r) n) \<and>
        (\<forall>st. map_of staged n = Some st \<longrightarrow> defs (rl_pol r') n = defs (rl_pol r) n \<and> map_of (rl_staging r') n = Some st))"
proof (induction chs arbitrary: r res)
  case (Cons ch chs)
  let ?n = "v_name (ch_new ch)" and ?res1 = "res\<lparr>rs_changed := rs_changed res @ [v_name (ch_new ch)]\<rparr>"
  have new: "?n \<notin> (v_name \<circ> ch_new) ` set chs" using Cons.prems(2) by simp
  have other: "v_name (ch_new c) \<noteq> ?n" if "c \<in> set chs" for c using new that by (metis comp_apply imageI)
  show ?case
  proof (cases "map_of staged ?n")
    case (Some st)
    define r1 where "r1 = fold start_shadow (map snd (sg_shadows st)) (r\<lparr>rl_staging := gm_put ?n st (rl_staging r)\<rparr>)"
    have r1: "rl_pol r1 = rl_pol r" "rl_staging r1 = gm_put ?n st (rl_staging r)"
      by (simp_all add: r1_def fold_frame [of _ rl_pol] fold_frame [of _ rl_staging] frame_simps)
    have step: "apply_changed manager_iface staged chs r1 (?res1\<lparr>rs_pending := rs_pending ?res1 @ [?n]\<rparr>) = (r', res')"
      using Cons.prems(4) Some by (simp add: Let_def r1_def)
    note IH = Cons.IH [OF _ _ _ step, unfolded r1]
    have "map_of (gm_put ?n st (rl_staging r)) (v_name (ch_new c)) = map_of (rl_staging r) (v_name (ch_new c))" if "c \<in> set chs" for c
      using other [OF that] by (simp add: gomap_simps)
    then show ?thesis using IH Cons.prems(1-3) Some new by (auto simp: gm_wf_put gomap_simps)
  next
    case None
    define r1 where "r1 = fold (\<lambda>c r. drop_check ?n (check_EffectiveName c) r) (ch_checks_removed ch) r"
    have r1: "rl_pol r1 = rl_pol r" "rl_staging r1 = rl_staging r"
      by (simp_all add: r1_def fold_frame [of _ rl_pol] fold_frame [of _ rl_staging] frame_simps)
    obtain err pol' where c: "pi_CommitVIP manager_iface (ch_new ch) [] (rl_pol r) = (err, pol')" by force
    have pre: "defs (rl_pol r) ?n = Some (ch_old ch)" "v_prefix (ch_old ch) = v_prefix (ch_new ch)"
      "\<forall>c \<in> set (CheckList (ch_new ch)). map_of [] (check_EffectiveName c) \<noteq> None \<or>
        check_EffectiveName c \<in> check_EffectiveName ` set (CheckList (ch_old ch))" "compiles expr (ch_new ch)"
      using Cons.prems(3) None by auto
    note com = iface_commit [OF Cons.prems(1) pre c]
    let ?r2 = "r1\<lparr>rl_pol := pol'\<rparr>"
    have step: "apply_changed manager_iface staged chs ?r2 ?res1 = (r', res')"
      using Cons.prems(4) None c com(1) by (simp add: Let_def r1_def [symmetric] r1)
    have same: "defs pol' (v_name (ch_new c)) = defs (rl_pol r) (v_name (ch_new c))" if "c \<in> set chs" for c
      using other [OF that] by (simp add: com(3))
    note IH = Cons.IH [OF _ _ _ step, simplified]
    show ?thesis using IH Cons.prems(2,3) None new com(2) same by (auto simp: r1 com(3))
  qed
qed simp

section \<open>A reload keeps the invariant\<close>

lemma diff_names:
  assumes "distinct (map v_name candidate)"
  shows "distinct (map v_name (df_added (DiffVIPs running candidate)))"
    and "distinct (map (v_name \<circ> ch_new) (df_changed (DiffVIPs running candidate)))"
proof -
  show "distinct (map v_name (df_added (DiffVIPs running candidate)))"
    using assms by (simp add: DiffVIPs_def Let_def diff_candidate_lists distinct_map_filter)
  have "map (v_name \<circ> ch_new) (map (\<lambda>nv. diffVIP (f nv) nv) vs) = map v_name vs" for f vs by simp
  then show "distinct (map (v_name \<circ> ch_new) (df_changed (DiffVIPs running candidate)))"
    using assms by (simp add: DiffVIPs_def Let_def diff_candidate_lists distinct_map_filter comp_def)
qed

lemma diffVIP_old_or_changed:
  assumes "c \<in> set (CheckList nv)"
  shows "c \<in> set (ch_checks_changed (diffVIP ov nv)) \<or> check_EffectiveName c \<in> check_EffectiveName ` set (CheckList ov)"
proof -
  have "map_of (fold (\<lambda>c m. gm_put (check_EffectiveName c) c m) cs m) k \<noteq> None \<longleftrightarrow>
      k \<in> check_EffectiveName ` set cs \<or> map_of m k \<noteq> None" for cs m k
    by (induction cs arbitrary: m) (auto simp: gomap_simps)
  from this [of "CheckList ov" "[]" "check_EffectiveName c"] show ?thesis
    using assms by (auto simp: diffVIP_def Let_def split: option.split)
qed

text \<open>How a name occurs in the difference of two lists with distinct names.\<close>

lemma diff_by_name:
  assumes "distinct (map v_name running)" and "distinct (map v_name candidate)"
  defines "d \<equiv> DiffVIPs running candidate"
  shows "n \<in> v_name ` set (df_removed d) \<longleftrightarrow>
      (\<exists>ov. vip_table running n = Some ov \<and> (\<forall>nv. vip_table candidate n = Some nv \<longrightarrow> \<not> same_vip ov nv))"
    and "n \<in> v_name ` set (df_added d) \<longleftrightarrow>
      (\<exists>nv. vip_table candidate n = Some nv \<and> (\<forall>ov. vip_table running n = Some ov \<longrightarrow> \<not> same_vip ov nv))"
    and "n \<in> (v_name \<circ> ch_new) ` set (df_changed d) \<longleftrightarrow>
      (\<exists>ov nv. vip_table running n = Some ov \<and> vip_table candidate n = Some nv \<and> same_vip ov nv \<and> ov \<noteq> nv)"
    and "n \<in> v_name ` set (df_added d) \<Longrightarrow> vip_table (df_added d) n = vip_table candidate n"
    and "ch \<in> set (df_changed d) \<Longrightarrow> v_name (ch_new ch) = n \<Longrightarrow>
      vip_table running n = Some (ch_old ch) \<and> vip_table candidate n = Some (ch_new ch) \<and>
      same_vip (ch_old ch) (ch_new ch) \<and> ch = diffVIP (ch_old ch) (ch_new ch)"
proof -
  note tab = vip_table_Some [OF assms(1)] vip_table_Some [OF assms(2)]
  have rem: "set (df_removed d) = {ov \<in> set running. \<forall>nv \<in> set candidate. \<not> same_vip ov nv}"
    and add: "set (df_added d) = {nv \<in> set candidate. \<forall>ov \<in> set running. \<not> same_vip ov nv}"
    and chg: "set (df_changed d) =
      {diffVIP ov nv | ov nv. ov \<in> set running \<and> nv \<in> set candidate \<and> same_vip ov nv \<and> ov \<noteq> nv}"
    unfolding d_def by (rule df_removed_set [OF assms(1,2)], rule df_added_set [OF assms(1)], rule df_changed_set [OF assms(1)])
  show "n \<in> v_name ` set (df_removed d) \<longleftrightarrow>
      (\<exists>ov. vip_table running n = Some ov \<and> (\<forall>nv. vip_table candidate n = Some nv \<longrightarrow> \<not> same_vip ov nv))"
    unfolding rem tab by (auto simp: same_vip_def image_iff) metis+
  show "n \<in> v_name ` set (df_added d) \<longleftrightarrow>
      (\<exists>nv. vip_table candidate n = Some nv \<and> (\<forall>ov. vip_table running n = Some ov \<longrightarrow> \<not> same_vip ov nv))"
    unfolding add tab by (auto simp: same_vip_def)
  show "n \<in> (v_name \<circ> ch_new) ` set (df_changed d) \<longleftrightarrow>
      (\<exists>ov nv. vip_table running n = Some ov \<and> vip_table candidate n = Some nv \<and> same_vip ov nv \<and> ov \<noteq> nv)"
    (is "?L \<longleftrightarrow> ?R")
  proof
    assume ?L
    then obtain ov nv where "ov \<in> set running" "nv \<in> set candidate" "v_name nv = n" "same_vip ov nv" "ov \<noteq> nv"
      by (auto simp: chg)
    then show ?R unfolding tab by (intro exI [of _ ov] exI [of _ nv]) (simp add: same_vip_def)
  next
    assume ?R
    then obtain ov nv where v: "ov \<in> set running" "nv \<in> set candidate" "v_name nv = n" "same_vip ov nv" "ov \<noteq> nv"
      by (auto simp: tab)
    then have "diffVIP ov nv \<in> set (df_changed d)" by (auto simp: chg)
    from imageI [OF this, of "v_name \<circ> ch_new"] show ?L using v(3) by simp
  qed
  show "vip_table (df_added d) n = vip_table candidate n" if new: "n \<in> v_name ` set (df_added d)"
  proof -
    obtain v where v: "v \<in> set (df_added d)" "v_name v = n" using new by auto
    then have "vip_table (df_added d) n = Some v"
      using vip_table_Some diff_names(1) [OF assms(2)] unfolding d_def by blast
    then show ?thesis using v tab(2) [of n v] by (simp add: add)
  qed
  show "vip_table running n = Some (ch_old ch) \<and> vip_table candidate n = Some (ch_new ch) \<and>
      same_vip (ch_old ch) (ch_new ch) \<and> ch = diffVIP (ch_old ch) (ch_new ch)"
    if "ch \<in> set (df_changed d)" "v_name (ch_new ch) = n"
    using that unfolding chg tab by (auto simp: same_vip_def)
qed

lemma keep_failed_table:
  assumes "distinct (map v_name vs)" and "gm_wf fl" and "\<And>n w. map_of fl n = Some w \<Longrightarrow> v_name w = n"
  shows "distinct (map v_name (keep_failed fl vs))"
    and "vip_table (keep_failed fl vs) n = (case map_of fl n of None \<Rightarrow> vip_table vs n | Some w \<Rightarrow> Some w)"
proof -
  have "\<forall>(n, old) \<in> set fl. v_name old = n" using assms(3) map_of_mem_iff [OF assms(2)] by auto
  note kf = keep_failed_set [OF assms(1,2) this]
  then show d: "distinct (map v_name (keep_failed fl vs))" by simp
  show "vip_table (keep_failed fl vs) n = (case map_of fl n of None \<Rightarrow> vip_table vs n | Some w \<Rightarrow> Some w)"
  proof (cases "map_of fl n")
    case (Some w)
    then have "w \<in> snd ` set fl" using map_of_SomeD by force
    then show ?thesis using kf vip_table_Some [OF d, of n w] Some assms(3) by simp
  next
    case None
    then have n: "n \<notin> fst ` set fl" by (simp add: map_of_eq_None_iff)
    have "w \<in> snd ` set fl \<Longrightarrow> v_name w \<noteq> n" for w
    proof -
      assume "w \<in> snd ` set fl"
      then obtain k where k: "(k, w) \<in> set fl" by auto
      then have "v_name w = k" using assms(3) map_of_mem_iff [OF assms(2)] by blast
      then show "v_name w \<noteq> n" using k n by force
    qed
    then have "vip_table (keep_failed fl vs) n = Some w \<longleftrightarrow> vip_table vs n = Some w" for w
      unfolding vip_table_Some [OF d] vip_table_Some [OF assms(1)] using kf n by auto
    then show ?thesis using None by (cases "vip_table vs n"; cases "vip_table (keep_failed fl vs) n") auto
  qed
qed

text \<open>The candidate of a reload: distinct names, policies that compile, checks that are ready.\<close>

definition candidate_ok :: "expr_compiler \<Rightarrow> config \<Rightarrow> bool" where
  "candidate_ok expr cfg \<longleftrightarrow>
     distinct (map v_name (c_vips cfg)) \<and>
     (\<forall>v \<in> set (c_vips cfg). compiles expr v \<and> (\<forall>c \<in> set (CheckList v). check_ready c))"

lemma loaded_candidate:
  assumes "config_Load le path = Inr cfg"
  shows "candidate_ok (vd_expr (le_validators le)) cfg"
proof -
  have "compiles (vd_expr (le_validators le)) v" if "v \<in> set (c_vips cfg)" for v
    using loaded_evaluator(1) [OF assms that, of "undefined\<lparr>pe_expr := vd_expr (le_validators le)\<rparr>"] by (auto simp: compiles_def)
  then show ?thesis using loaded_names [OF assms] loaded_ready [OF assms] by (auto simp: candidate_ok_def)
qed

text \<open>After the removals and additions, by name: a failed removal keeps its old definition, an addition is in.\<close>

lemma removed_added_defs:
  assumes g: "governed expr r" and d2: "distinct (map v_name (c_vips cfg))"
    and diff: "diff = DiffVIPs (effectiveVIPsLocked r) (c_vips cfg)"
    and removed: "apply_removed manager_iface (df_removed diff) [] (dropStagingLocked (r\<lparr>rl_heap := h\<rparr>)) res = Ret (fl, r1, res1)"
    and res: "rs_removed res = []"
    and added: "apply_added manager_iface added fl (df_added diff) r1 res1 = (r2, res2)"
  shows "pol_ok expr (rl_pol r2)" and "gm_wf fl" and "rl_staging r2 = []"
    and "map_of fl n = Some w \<Longrightarrow> w \<in> set (df_removed diff) \<and> v_name w = n \<and> vip_table (effectiveVIPsLocked r) n = Some w"
    and "defs (rl_pol r2) n =
      (if map_of fl n \<noteq> None then vip_table (effectiveVIPsLocked r) n
       else if n \<in> v_name ` set (df_added diff) then vip_table (c_vips cfg) n
       else if n \<in> v_name ` set (df_removed diff) then None
       else vip_table (effectiveVIPsLocked r) n)"
proof -
  let ?eff = "effectiveVIPsLocked r"
  have d1: "distinct (map v_name ?eff)"
    using g effective_names [of r, OF governed_old_name [OF g]] by (simp add: governed_def)
  have D0: "defs (rl_pol r) n = vip_table ?eff n" for n
    using g effective_governing [of r, OF governed_old_name [OF g]] by (simp add: governed_def)
  note by_name = diff_by_name [OF d1 d2, folded diff]
  note rdist = df_removed_distinct [OF d1 d2, folded diff]
  have p0: "pol_ok expr (rl_pol (dropStagingLocked (r\<lparr>rl_heap := h\<rparr>)))" "rl_pol (dropStagingLocked (r\<lparr>rl_heap := h\<rparr>)) = rl_pol r"
    using g by (simp_all add: frame_simps governed_def)
  have "\<forall>v \<in> set (df_removed diff). map_of [] (v_name v) = None" by simp
  note rem = removed_defs [OF removed rdist gm_wf_Nil this p0(1), unfolded p0(2)]
  note fresh = apply_removed_fresh [OF removed rdist res]
  show "gm_wf fl" by (rule fresh(1))
  have fl: "w \<in> set (df_removed diff) \<and> v_name w = n" if w: "map_of fl n = Some w" for n w
  proof -
    have "n \<in> v_name ` set (df_removed diff)" using w fresh(4) [of n] by fastforce
    then obtain v where v: "v \<in> set (df_removed diff)" "v_name v = n" by blast
    then show ?thesis using w fresh(3,5) [OF v(1)] by auto
  qed
  then show "map_of fl n = Some w \<Longrightarrow> w \<in> set (df_removed diff) \<and> v_name w = n \<and> vip_table ?eff n = Some w"
    using df_removed_set [OF d1 d2, folded diff] by (auto simp: vip_table_Some [OF d1])
  have D1: "defs (rl_pol r1) n = (if n \<in> v_name ` set (df_removed diff) \<and> map_of fl n = None then None else vip_table ?eff n)" for n
    using rem by (simp add: D0)
  have "defs (rl_pol r1) (v_name v) = None" if "v \<in> set (df_added diff)" "map_of fl (v_name v) = None" for v
    using that by_name(1,2) [of "v_name v"] by (cases "vip_table ?eff (v_name v)") (auto simp: D1)
  then have pre: "\<forall>v \<in> set (df_added diff). map_of fl (v_name v) = None \<longrightarrow> defs (rl_pol r1) (v_name v) = None" by blast
  note add = added_defs [OF conjunct1 [OF rem] diff_names(1) [OF d2, of ?eff, folded diff] pre, of added res1, unfolded added fst_conv]
  then show "pol_ok expr (rl_pol r2)" by simp
  show "rl_staging r2 = []"
    using staging_added [of manager_iface added fl "df_added diff" r1 res1] added fresh(2) by (simp add: frame_simps)
  show "defs (rl_pol r2) n =
      (if map_of fl n \<noteq> None then vip_table ?eff n else if n \<in> v_name ` set (df_added diff) then vip_table (c_vips cfg) n
       else if n \<in> v_name ` set (df_removed diff) then None else vip_table ?eff n)"
    using add by_name(4) [of n] by (simp add: D1)
qed

text \<open>
  The changes, after the removals and the additions: a changed VIP was not kept by a failed removal, is staged when
  checks of it changed and switched at once otherwise, and no other VIP is touched.
\<close>

lemma phases_changed:
  assumes g: "governed expr r" and cand: "candidate_ok expr cfg"
    and diff: "diff = DiffVIPs (effectiveVIPsLocked r) (c_vips cfg)"
    and staged: "build_staged newChecker now (df_changed diff) [] h1 = (None, staged, h2)"
    and removed: "apply_removed manager_iface (df_removed diff) [] (dropStagingLocked (r\<lparr>rl_heap := h\<rparr>)) res = Ret (fl, r1, res1)"
    and res: "rs_removed res = []"
    and added: "apply_added manager_iface added fl (df_added diff) r1 res1 = (r2, res2)"
    and changed: "apply_changed manager_iface staged (df_changed diff) r2 res2 = (r3, res3)"
  shows "pol_ok expr (rl_pol r3)" and "gm_wf (rl_staging r3)" and "rs_errors res3 = rs_errors res1"
    and "n \<notin> (v_name \<circ> ch_new) ` set (df_changed diff) \<Longrightarrow>
      defs (rl_pol r3) n = defs (rl_pol r2) n \<and> map_of (rl_staging r3) n = None"
    and "ch \<in> set (df_changed diff) \<Longrightarrow> v_name (ch_new ch) = n \<Longrightarrow>
      if ch_checks_changed ch = [] then defs (rl_pol r3) n = Some (ch_new ch) \<and> map_of (rl_staging r3) n = None
      else \<exists>st. map_of (rl_staging r3) n = Some st \<and> stages ch st \<and> defs (rl_pol r3) n = Some (ch_old ch)"
    and "ch \<in> set (df_changed diff) \<Longrightarrow> v_name (ch_new ch) = n \<Longrightarrow> map_of fl n = None"
proof -
  let ?eff = "effectiveVIPsLocked r" and ?T = "c_vips cfg"
  have d: "distinct (map v_name ?eff)" "distinct (map v_name ?T)"
    using g cand effective_names [of r, OF governed_old_name [OF g]] by (simp_all add: governed_def candidate_ok_def)
  note by_name = diff_by_name [OF d, folded diff]
  note ra = removed_added_defs [OF g d(2) diff removed res added]
  have "gm_wf []" "\<forall>ch \<in> set (df_changed diff). map_of [] (v_name (ch_new ch)) = None" by simp_all
  note st = build_staged_lookup [OF staged diff_names(2) [OF d(2), of ?eff, folded diff] this]
  have keep: "defs (rl_pol r2) n = Some (ch_old ch) \<and> map_of fl n = None"
    if ch: "ch \<in> set (df_changed diff)" "v_name (ch_new ch) = n" for ch n
  proof -
    note b = by_name(5) [OF ch]
    have "n \<notin> v_name ` set (df_added diff)" "n \<notin> v_name ` set (df_removed diff)" using b by_name(1,2) [of n] by auto
    then show ?thesis using b ra(4) [of n] ra(5) [of n] by (cases "map_of fl n") auto
  qed
  have pre: "\<forall>ch \<in> set (df_changed diff). map_of staged (v_name (ch_new ch)) = None \<longrightarrow>
       defs (rl_pol r2) (v_name (ch_new ch)) = Some (ch_old ch) \<and> v_prefix (ch_old ch) = v_prefix (ch_new ch) \<and>
       check_EffectiveName ` set (CheckList (ch_new ch)) \<subseteq> check_EffectiveName ` set (CheckList (ch_old ch)) \<and>
       compiles expr (ch_new ch)"
  proof (intro ballI impI)
    fix ch assume ch: "ch \<in> set (df_changed diff)" and none: "map_of staged (v_name (ch_new ch)) = None"
    note b = by_name(5) [OF ch refl]
    have "ch_checks_changed ch = []" using st ch none by (metis option.distinct(1))
    then have "check_EffectiveName ` set (CheckList (ch_new ch)) \<subseteq> check_EffectiveName ` set (CheckList (ch_old ch))"
      using b diffVIP_old_or_changed [of _ "ch_new ch" "ch_old ch"] by fastforce
    then show "defs (rl_pol r2) (v_name (ch_new ch)) = Some (ch_old ch) \<and> v_prefix (ch_old ch) = v_prefix (ch_new ch) \<and>
       check_EffectiveName ` set (CheckList (ch_new ch)) \<subseteq> check_EffectiveName ` set (CheckList (ch_old ch)) \<and>
       compiles expr (ch_new ch)"
      using b keep [OF ch refl] cand vip_table_Some [OF d(2)] by (auto simp: candidate_ok_def same_vip_def)
  qed
  note chg = changed_defs [OF ra(1) diff_names(2) [OF d(2), of ?eff, folded diff] pre changed]
  show "pol_ok expr (rl_pol r3)" "gm_wf (rl_staging r3)" "rs_errors res3 = rs_errors res1"
    using chg ra(3) apply_added_errors [of manager_iface added fl "df_added diff" r1 res1] added by simp_all
  show untouched: "defs (rl_pol r3) n = defs (rl_pol r2) n \<and> map_of (rl_staging r3) n = None"
    if "n \<notin> (v_name \<circ> ch_new) ` set (df_changed diff)" for n
    using chg ra(3) that by simp
  show touched: "if ch_checks_changed ch = [] then defs (rl_pol r3) n = Some (ch_new ch) \<and> map_of (rl_staging r3) n = None
      else \<exists>st. map_of (rl_staging r3) n = Some st \<and> stages ch st \<and> defs (rl_pol r3) n = Some (ch_old ch)"
    if ch: "ch \<in> set (df_changed diff)" "v_name (ch_new ch) = n" for ch n
    using st chg ra(3) ch keep [OF ch] by (cases "ch_checks_changed ch = []") (auto, metis)
  show "map_of fl n = None" if "ch \<in> set (df_changed diff)" "v_name (ch_new ch) = n" for ch n
    using keep [OF that] by simp
qed

text \<open>
  After the changes: what is kept of a failed removal stays, a staged VIP keeps its old definition, and every other
  VIP of the file has its definition of the file.
\<close>

lemma phases_defs:
  assumes g: "governed expr r" and cand: "candidate_ok expr cfg"
    and diff: "diff = DiffVIPs (effectiveVIPsLocked r) (c_vips cfg)"
    and staged: "build_staged newChecker now (df_changed diff) [] h1 = (None, staged, h2)"
    and removed: "apply_removed manager_iface (df_removed diff) [] (dropStagingLocked (r\<lparr>rl_heap := h\<rparr>)) res = Ret (fl, r1, res1)"
    and res: "rs_removed res = []"
    and added: "apply_added manager_iface added fl (df_added diff) r1 res1 = (r2, res2)"
    and changed: "apply_changed manager_iface staged (df_changed diff) r2 res2 = (r3, res3)"
  shows "pol_ok expr (rl_pol r3)" and "gm_wf (rl_staging r3)" and "rs_errors res3 = rs_errors res1"
    and "map_of (rl_staging r3) n = Some st \<Longrightarrow>
      map_of fl n = None \<and> staged_ok expr (c_vips cfg) n st \<and> vip_table (effectiveVIPsLocked r) n = Some (sg_old st)"
    and "defs (rl_pol r3) n =
      (if map_of fl n \<noteq> None then map_of fl n
       else case map_of (rl_staging r3) n of Some st \<Rightarrow> Some (sg_old st) | None \<Rightarrow> vip_table (c_vips cfg) n)"
proof -
  let ?eff = "effectiveVIPsLocked r" and ?T = "c_vips cfg"
  have d: "distinct (map v_name ?eff)" "distinct (map v_name ?T)"
    using g cand effective_names [of r, OF governed_old_name [OF g]] by (simp_all add: governed_def candidate_ok_def)
  note by_name = diff_by_name [OF d, folded diff]
  note ra = removed_added_defs [OF g d(2) diff removed res added]
  note pc = phases_changed [OF g cand diff staged removed res added changed]
  note untouched = pc(4) and touched = pc(5) and fresh = pc(6)
  show "pol_ok expr (rl_pol r3)" "gm_wf (rl_staging r3)" "rs_errors res3 = rs_errors res1" by (rule pc(1-3))+
  show "map_of fl n = None \<and> staged_ok expr ?T n st \<and> vip_table ?eff n = Some (sg_old st)" if s: "map_of (rl_staging r3) n = Some st" for st
  proof -
    obtain ch where ch: "ch \<in> set (df_changed diff)" "v_name (ch_new ch) = n" using untouched [of n] s by fastforce
    have sg: "stages ch st" using touched [OF ch] s by (auto split: if_splits)
    have new: "ch_new ch \<in> set ?T" "compiles expr (ch_new ch)" "\<forall>c \<in> set (CheckList (ch_new ch)). check_ready c"
      using by_name(5) [OF ch] vip_table_Some [OF d(2)] cand by (auto simp: candidate_ok_def)
    have "map_of (sg_shadows st) (check_EffectiveName c) \<noteq> None \<or> check_EffectiveName c \<in> check_EffectiveName ` set (CheckList (ch_old ch))"
      if "c \<in> set (CheckList (ch_new ch))" for c
      using diffVIP_old_or_changed [OF that, of "ch_old ch"] by_name(5) [OF ch] new(3) that sg unfolding stages_def by metis
    then show ?thesis
      using by_name(5) [OF ch] fresh [OF ch] new sg ch(2) by (simp add: staged_ok_def stages_def)
  qed
  show "defs (rl_pol r3) n =
      (if map_of fl n \<noteq> None then map_of fl n
       else case map_of (rl_staging r3) n of Some st \<Rightarrow> Some (sg_old st) | None \<Rightarrow> vip_table ?T n)"
  proof (cases "n \<in> (v_name \<circ> ch_new) ` set (df_changed diff)")
    case True
    then obtain ch where ch: "ch \<in> set (df_changed diff)" "v_name (ch_new ch) = n" by auto
    show ?thesis
      using touched [OF ch] fresh [OF ch] by_name(5) [OF ch] by (auto simp: stages_def split: if_splits)
  next
    case False
    then show ?thesis
      using untouched [OF False] ra(4) [of n] ra(5) [of n] by_name(1-3) [of n]
      by (cases "map_of fl n"; cases "vip_table ?eff n"; cases "vip_table ?T n") auto
  qed
qed

lemma apply_removed_no_failure:
  "apply_removed P vs fl r res = Ret (fl', r', res') \<Longrightarrow> fl' = [] \<Longrightarrow> rs_errors res' = rs_errors res \<and> fl = []"
proof (induction P vs fl r res rule: apply_removed.induct)
  case (2 P v vs fl r res)
  obtain reg' where g: "reg_RemoveVIP (hp_obj (rl_heap r)) (v_name v) (rl_reg r) = Ret reg'"
    using "2.prems" by (auto simp: Let_def split: outcome.splits)
  obtain err pol' where p: "pi_RemoveVIP P (v_name v) (rl_pol r) = (err, pol')" by force
  show ?case
    using "2.IH"(1) [OF refl refl refl g p [symmetric]] "2.IH"(2) [OF refl refl refl g p [symmetric]] "2.prems" g p
      gm_put_neq_Nil_length [of "v_name v" v fl]
    by (cases err) (auto simp: Let_def)
qed simp

lemma governed_applied:
  assumes g: "governed expr r" and cand: "candidate_ok expr cfg"
    and diff: "diff = DiffVIPs (effectiveVIPsLocked r) (c_vips cfg)"
    and staged: "build_staged newChecker now (df_changed diff) [] h1 = (None, staged, h2)"
    and phases: "apply_diff env manager_iface cfg hash diff added staged (r\<lparr>rl_heap := h2\<rparr>) (empty_status t0) = Ret (r', res)"
  shows "governed expr r'"
    and "rs_outcome res = ReloadApplied \<Longrightarrow> rl_cur r' = cfg"
    and "rs_outcome res = ReloadFailed \<Longrightarrow> rl_file_changed r' \<or> re_SetLevel env (log_level (c_logging cfg)) \<noteq> None"
    and "map_of (rl_staging r') n = Some st \<Longrightarrow> vip_table (effectiveVIPsLocked r) n = Some (sg_old st)"
proof -
  have e: "rs_removed (empty_status t0) = []" "rs_errors (empty_status t0) = []" by (simp_all add: empty_status_def)
  from phases e(2) obtain fl r1 res1 r2 res2 r3 res3 r4 res4 where ph:
      "apply_removed manager_iface (df_removed diff) [] (dropStagingLocked (r\<lparr>rl_heap := h2\<rparr>)) (empty_status t0) = Ret (fl, r1, res1)"
      "apply_added manager_iface added fl (df_added diff) r1 res1 = (r2, res2)"
      "apply_changed manager_iface staged (df_changed diff) r2 res2 = (r3, res3)"
      "apply_log_level env cfg r3 res3 = (r4, res4)" "(r', res) = finish_reload cfg hash fl r4 res4"
      "cfg_side r4 = cfg_side (r\<lparr>rl_heap := h2\<rparr>)" "rs_outcome res = ReloadApplied \<longrightarrow> fl = []"
    by (rule apply_diff_end)
  have d2: "distinct (map v_name (c_vips cfg))" using cand by (simp add: candidate_ok_def)
  note ra = removed_added_defs [OF g d2 diff ph(1) e(1) ph(2)]
  note p = phases_defs [OF g cand diff staged ph(1) e(1) ph(2,3)]
  have r4: "rl_pol r4 = rl_pol r3" "rl_staging r4 = rl_staging r3"
    using pol_ops(9) [of env cfg r3 res3] staging_ops(5) [of env cfg r3 res3] ph(4) by simp_all
  have r': "rl_pol r' = rl_pol r3" "rl_staging r' = rl_staging r3" "rl_file_changed r' = (fl \<noteq> [])"
      "rl_cur r' = cfg\<lparr>c_vips := keep_failed fl (c_vips cfg)\<rparr>"
    using ph(5) r4 by (simp_all add: finish_reload_def)
  have names: "map_of fl k = Some w \<Longrightarrow> v_name w = k" for k w using ra(4) by blast
  note kf = keep_failed_table [OF d2 ra(2) names]
  have st_in: "staged_ok expr (keep_failed fl (c_vips cfg)) k st" if "map_of (rl_staging r3) k = Some st" for k st
  proof -
    have s: "map_of fl k = None" "staged_ok expr (c_vips cfg) k st" using p(4) [OF that] by auto
    then have "vip_table (keep_failed fl (c_vips cfg)) k = Some (sg_cfg st)"
      using kf(2) [of k] vip_table_Some [OF d2, of k "sg_cfg st"] by (simp add: staged_ok_def)
    then show ?thesis using s(2) vip_table_Some [OF kf(1)] by (auto simp: staged_ok_def)
  qed
  have "defs (rl_pol r3) k = governing r' k" for k
  proof (cases "map_of fl k")
    case (Some w)
    then have "map_of (rl_staging r3) k = None" using p(4) [of k] by (cases "map_of (rl_staging r3) k") auto
    then show ?thesis using Some kf(2) [of k] p(5) [of k] by (simp add: governing_def r')
  next
    case None
    have "vip_table (c_vips cfg) k \<noteq> None" if "map_of (rl_staging r3) k = Some st" for st
      using p(4) [OF that] vip_table_Some [OF d2, of k "sg_cfg st"] by (auto simp: staged_ok_def)
    then show ?thesis
      using None kf(2) [of k] p(5) [of k] unfolding governing_def r' by (auto split: option.splits)
  qed
  then show "governed expr r'"
    using p(1,2) kf(1) st_in by (simp add: governed_def r' fun_eq_iff)
  show "rs_outcome res = ReloadApplied \<Longrightarrow> rl_cur r' = cfg" using ph(7) r'(4) by (simp add: keep_failed_def)
  show "map_of (rl_staging r') n = Some st \<Longrightarrow> vip_table (effectiveVIPsLocked r) n = Some (sg_old st)"
    using p(4) by (simp add: r')
  show "rl_file_changed r' \<or> re_SetLevel env (log_level (c_logging cfg)) \<noteq> None" if "rs_outcome res = ReloadFailed"
    using that apply_removed_no_failure [OF ph(1)] p(3) e(2) ph(4,5) r'(3)
    by (auto simp: finish_reload_def apply_log_level_def split: if_splits option.splits)
qed

lemma Reload_locked:
  assumes "Reload env P r = Ret (r', res)"
  obtains r0 where "reloadLocked env P r = Ret (r0, res)" "r' = (recordLocked res r0)\<lparr>rl_on_change := rl_on_change r0 + 1\<rparr>"
  using assms by (auto simp: Reload_def Let_def recordLocked_def split: outcome.splits)

lemma governed_Reload:
  assumes g: "governed expr r" and "Reload env manager_iface r = Ret (r', res)"
    and cand: "\<forall>cfg raw. re_LoadRaw env (rl_path r) = Inr (cfg, raw) \<longrightarrow> candidate_ok expr cfg"
  shows "governed expr r'"
    and "rs_outcome res = ReloadApplied \<Longrightarrow> \<exists>raw. re_LoadRaw env (rl_path r) = Inr (rl_cur r', raw)"
    and "rs_outcome res = ReloadFailed \<Longrightarrow>
      rl_file_changed r' \<or> (\<exists>cfg raw. re_LoadRaw env (rl_path r) = Inr (cfg, raw) \<and> re_SetLevel env (log_level (c_logging cfg)) \<noteq> None)"
    and "rs_outcome res = ReloadApplied \<Longrightarrow> map_of (rl_staging r') n = Some st \<Longrightarrow>
      vip_table (effectiveVIPsLocked r) n = Some (sg_old st)"
proof -
  obtain r0 where l: "reloadLocked env manager_iface r = Ret (r0, res)"
    and r': "r' = (recordLocked res r0)\<lparr>rl_on_change := rl_on_change r0 + 1\<rparr>" using Reload_locked [OF assms(2)] .
  have same: "rl_pol r' = rl_pol r0" "rl_cur r' = rl_cur r0" "rl_staging r' = rl_staging r0" "rl_file_changed r' = rl_file_changed r0"
    by (simp_all add: r' recordLocked_def)
  have "governed expr r0 \<and> (rs_outcome res = ReloadApplied \<longrightarrow> (\<exists>raw. re_LoadRaw env (rl_path r) = Inr (rl_cur r0, raw)) \<and>
        (\<forall>st. map_of (rl_staging r0) n = Some st \<longrightarrow> vip_table (effectiveVIPsLocked r) n = Some (sg_old st))) \<and>
      (rs_outcome res = ReloadFailed \<longrightarrow> rl_file_changed r0 \<or>
        (\<exists>cfg raw. re_LoadRaw env (rl_path r) = Inr (cfg, raw) \<and> re_SetLevel env (log_level (c_logging cfg)) \<noteq> None))"
    using l
  proof (cases rule: reloadLocked_cases)
    case (applied cfg raw diff added h1 staged h2)
    note ga = governed_applied [OF g cand [rule_format, OF applied(1)] applied(4,6,7)]
    show ?thesis using ga applied(1) by auto
  next
    case (unreadable err)
    then show ?thesis using g by simp
  next
    case (same cfg raw)
    have "governed expr r0" using g unfolding same(3) by (rule governed_quiet) simp_all
    then show ?thesis using same(4) by simp
  next
    case (restart cfg raw)
    have "governed expr r0" using g unfolding restart(3) by (rule governed_quiet) simp_all
    then show ?thesis using restart(4) by simp
  next
    case (rejected cfg raw h)
    have "governed expr r0" using g unfolding rejected(3) by (rule governed_quiet) simp_all
    then show ?thesis using rejected(4) by simp
  qed
  then show "governed expr r'" "rs_outcome res = ReloadApplied \<Longrightarrow> \<exists>raw. re_LoadRaw env (rl_path r) = Inr (rl_cur r', raw)"
    "rs_outcome res = ReloadFailed \<Longrightarrow>
      rl_file_changed r' \<or> (\<exists>cfg raw. re_LoadRaw env (rl_path r) = Inr (cfg, raw) \<and> re_SetLevel env (log_level (c_logging cfg)) \<noteq> None)"
    "rs_outcome res = ReloadApplied \<Longrightarrow> map_of (rl_staging r') n = Some st \<Longrightarrow>
      vip_table (effectiveVIPsLocked r) n = Some (sg_old st)"
    by (auto simp: same elim: governed_quiet)
qed

section \<open>The running daemon\<close>

text \<open>The reloader loads with \<open>config.LoadRaw\<close>.\<close>

definition load_raw :: "load_env \<Rightarrow> string \<Rightarrow> go_error + config \<times> string" where
  "load_raw le path =
     (case LoadRaw le path of (Inl e, _) \<Rightarrow> Inl e | (Inr cfg, raw) \<Rightarrow> Inr (cfg, case raw of Some b \<Rightarrow> b | None \<Rightarrow> []))"

text \<open>
  The steps of a running daemon, in any order: a scheduler runs (listed, shadow or stopped a moment ago), a reload
  reads whatever the file holds by then, the reload loop commits verdicts or polls. The expression compiler stays
  the same; clock, environment, drain files and the file change as they like.
\<close>

inductive daemon_step :: "expr_compiler \<Rightarrow> 'b live_manager reloader \<Rightarrow> 'b live_manager reloader \<Rightarrow> bool" for expr where
  run: "daemon_step expr r (run_scheduler manager_iface s res r)"
| reload: "re_LoadRaw env = load_raw le \<Longrightarrow> vd_expr (le_validators le) = expr \<Longrightarrow> Reload env manager_iface r = Ret (r', res) \<Longrightarrow>
    daemon_step expr r r'"
| wake: "daemon_step expr r (run_wake now during manager_iface r)"
| tick: "daemon_step expr r (run_tick env during manager_iface r)"

lemma load_raw_candidate:
  "load_raw le path = Inr (cfg, raw) \<Longrightarrow> candidate_ok (vd_expr (le_validators le)) cfg \<and> config_Load le path = Inr cfg"
  using loaded_candidate [of le path cfg] by (auto simp: load_raw_def config_Load_def split: prod.splits sum.splits)

lemma governed_step: "daemon_step expr r r' \<Longrightarrow> governed expr r \<Longrightarrow> governed expr r'"
proof (induction rule: daemon_step.induct)
  case (reload env le r r' res)
  have "\<forall>cfg raw. re_LoadRaw env (rl_path r) = Inr (cfg, raw) \<longrightarrow> candidate_ok expr cfg"
    using load_raw_candidate [of le "rl_path r"] reload.hyps(1,2) by simp
  then show ?case by (rule governed_Reload(1) [OF reload.prems reload.hyps(3)])
qed (simp_all add: governed_run governed_wake governed_tick)

lemma started_side:
  assumes "daemon_start de cfg file = Inr r"
  shows "rl_cur r = cfg" "rl_staging r = []" "lm_envs (rl_pol r) = de_pol_envs de" "rl_path r = cf_path file"
    "rl_cur_hash r = de_sha256 de (cf_raw file)"
  using assms by (auto simp: daemon_start_def daemon_build_def provideReloader_def reload_New_def LockLogLevel_def
      start_schedulers_def map_sum_def Let_def split: sum.splits prod.splits if_splits)

lemma governed_started:
  assumes load: "config_Load le path = Inr cfg" and start: "daemon_start de cfg file = Inr r"
    and envs: "\<And>n. pe_expr (de_pol_envs de n) = expr"
  shows "governed expr r"
proof -
  note vips = started_side(1-3) [OF start]
  note names = loaded_names [OF load] and st = started_daemon [OF load start]
  have "mgr_wf (lm_mgr (rl_pol r))" using st(1) by (simp add: daemon_inv_def)
  moreover have "defs (rl_pol r) n = vip_table (c_vips cfg) n" for n
  proof (cases "vip_table (c_vips cfg) n")
    case (Some v)
    then have v: "v \<in> set (c_vips cfg)" "v_name v = n" using vip_table_Some [OF names] by auto
    then show ?thesis using st(2) [OF v(1)] Some by (simp add: defs_static)
  next
    case None
    have keys: "map_of (m_vips (fold (AddVIP e) vs m)) k = None \<longleftrightarrow> k \<notin> v_name ` set vs \<and> map_of (m_vips m) k = None"
      for e vs k and m :: "'a manager" by (induction vs arbitrary: m) (auto simp: AddVIP_def gomap_simps)
    have "map_of (m_vips (lm_mgr (rl_pol r))) n = None"
      unfolding st(5) NewManager_fold [OF names] keys using None by (simp add: vip_table_None)
    then show ?thesis using None by (simp add: defs_of_def)
  qed
  ultimately show ?thesis
    using names envs by (simp add: governed_def pol_ok_def envs_expr_def vips governing_def fun_eq_iff split: option.split)
qed

lemma governed_reachable: "(daemon_step expr)\<^sup>*\<^sup>* r r' \<Longrightarrow> governed expr r \<Longrightarrow> governed expr r'"
  by (induction rule: rtranclp_induct) (auto intro: governed_step)

section \<open>Properties\<close>

text \<open>What a reload that reports success leaves to govern: the file, and the previous definition of a pending VIP.\<close>

lemma applied_governing:
  assumes g: "governed expr r" and "Reload env manager_iface r = Ret (r', res)" and ok: "rs_outcome res = ReloadApplied"
    and "\<forall>cfg raw. re_LoadRaw env (rl_path r) = Inr (cfg, raw) \<longrightarrow> candidate_ok expr cfg"
  shows "governing r' n = (if n \<in> set (pendingLocked r') then governing r n else vip_table (c_vips (rl_cur r')) n)"
proof -
  note rl = governed_Reload [OF assms(1,2,4)]
  show ?thesis
  proof (cases "map_of (rl_staging r') n")
    case None
    then have "governing r' n = vip_table (c_vips (rl_cur r')) n" by (simp add: governing_def split: option.split)
    moreover have "n \<notin> set (pendingLocked r')" using None by (simp add: pendingLocked_def map_of_eq_None_iff)
    ultimately show ?thesis by simp
  next
    case (Some st)
    then have "map_of (rl_staging r') n \<noteq> None" by simp
    then have "n \<in> set (pendingLocked r')" unfolding map_of_eq_None_iff by (simp add: pendingLocked_def)
    moreover have "governing r n = Some (sg_old st)"
      using rl(4) [OF ok Some] effective_governing [of r, OF governed_old_name [OF g]] by simp
    moreover have "governing r' n = Some (sg_old st)"
      using rl(1) Some vip_table_Some [of "c_vips (rl_cur r')" n "sg_cfg st"]
      by (auto simp: governing_def governed_def staged_ok_def)
    ultimately show ?thesis by simp
  qed
qed

text \<open>C2: Reloader and policy manager never disagree. However a daemon that was started on a file that loads runs on (any
  interleaving of check runs, reloads of any file contents, commits of staged VIPs, expiries and polls), the
  policy manager governs exactly the VIPs that the reloader takes to be in effect, each by the very definition the
  reloader believes in: the file's, or the old one while the VIP is staged or its removal failed. So the difference
  the next reload computes is the difference to what really runs.\<close>

theorem definitions_follow_reloads:
  assumes "config_Load le path = Inr cfg" and "daemon_start de cfg file = Inr r0"
    and "\<And>n. pe_expr (de_pol_envs de n) = expr" and "(daemon_step expr)\<^sup>*\<^sup>* r0 r"
  shows "map_option ve_cfg (map_of (m_vips (lm_mgr (rl_pol r))) n) = find (\<lambda>v. v_name v = n) (effectiveVIPsLocked r) \<and>
    distinct (map v_name (effectiveVIPsLocked r))"
proof -
  have g: "governed expr r" using governed_reachable [OF assms(4)] governed_started [OF assms(1,2)] assms(3) by blast
  then have "defs (rl_pol r) n = vip_table (effectiveVIPsLocked r) n"
    using effective_governing [of r, OF governed_old_name [OF g]] by (simp add: governed_def)
  then show ?thesis
    using g effective_names [of r, OF governed_old_name [OF g]] by (simp add: defs_of_def vip_table_def governed_def)
qed

text \<open>C3: An applied reload installs the file. In a running daemon, a reload that reports success leaves the policy manager
  with exactly the VIPs of the file: each is governed by its definition in the file, except for the pending ones,
  which keep their previous definition; and the first tick of the poll timer after their deadlines makes the file
  govern every VIP. A reload that reports failure could not withdraw a route, which it will retry, or not set the
  log level: no commit ever fails.\<close>

theorem reload_installs_file:
  assumes "config_Load le0 path = Inr cfg0" and "daemon_start de cfg0 file = Inr r0"
    and "\<And>n. pe_expr (de_pol_envs de n) = expr" and "(daemon_step expr)\<^sup>*\<^sup>* r0 r"
    and "re_LoadRaw env = load_raw le" and "vd_expr (le_validators le) = expr" and "Reload env manager_iface r = Ret (r', res)"
    and "config_Load le (rl_path r) = Inr cfg"
  shows "(rs_outcome res = ReloadApplied \<longrightarrow>
      (\<forall>n. map_option ve_cfg (map_of (m_vips (lm_mgr (rl_pol r'))) n) =
         (if n \<in> set (pendingLocked r') then map_option ve_cfg (map_of (m_vips (lm_mgr (rl_pol r))) n)
          else find (\<lambda>v. v_name v = n) (c_vips cfg))) \<and>
      ((\<forall>(n, st) \<in> set (rl_staging r'). sg_deadline st \<le> re_now env') \<longrightarrow>
         (\<forall>n. map_option ve_cfg (map_of (m_vips (lm_mgr (rl_pol (run_tick env' during manager_iface r')))) n) =
            find (\<lambda>v. v_name v = n) (c_vips cfg)))) \<and>
    (rs_outcome res = ReloadFailed \<longrightarrow> rl_file_changed r' \<or> re_SetLevel env (log_level (c_logging cfg)) \<noteq> None)"
proof -
  have g: "governed expr r" using governed_reachable [OF assms(4)] governed_started [OF assms(1,2)] assms(3) by blast
  have cand: "\<forall>cfg' raw. re_LoadRaw env (rl_path r) = Inr (cfg', raw) \<longrightarrow> candidate_ok expr cfg'"
    using load_raw_candidate [of le "rl_path r"] assms(5,6) by simp
  have loaded: "cfg' = cfg" if "re_LoadRaw env (rl_path r) = Inr (cfg', raw)" for cfg' raw
    using load_raw_candidate [of le "rl_path r" cfg' raw] that assms(5,8) by simp
  note rl = governed_Reload [OF g assms(7) cand]
  have defs: "map_option ve_cfg (map_of (m_vips (lm_mgr (rl_pol q))) n) = governing q n" if "governed expr q" for q n
    using that by (auto simp: governed_def defs_of_def fun_eq_iff)
  show ?thesis
  proof (intro conjI impI allI)
    assume ok: "rs_outcome res = ReloadApplied"
    obtain raw where "re_LoadRaw env (rl_path r) = Inr (rl_cur r', raw)" using rl(2) [OF ok] by (elim exE)
    then have cur: "rl_cur r' = cfg" by (rule loaded)
    show "map_option ve_cfg (map_of (m_vips (lm_mgr (rl_pol r'))) n) =
         (if n \<in> set (pendingLocked r') then map_option ve_cfg (map_of (m_vips (lm_mgr (rl_pol r))) n)
          else find (\<lambda>v. v_name v = n) (c_vips cfg))" for n
      using applied_governing [OF g assms(7) ok cand, of n] by (simp add: defs [OF rl(1)] defs [OF g] cur vip_table_def)
    assume late: "\<forall>(n, st) \<in> set (rl_staging r'). sg_deadline st \<le> re_now env'"
    show "map_option ve_cfg (map_of (m_vips (lm_mgr (rl_pol (run_tick env' during manager_iface r')))) n) =
        find (\<lambda>v. v_name v = n) (c_vips cfg)" for n
      using tick_late [OF rl(1) late] by (simp add: defs [OF governed_tick [OF rl(1)]] cur vip_table_def)
  next
    assume bad: "rs_outcome res = ReloadFailed"
    show "rl_file_changed r' \<or> re_SetLevel env (log_level (c_logging cfg)) \<noteq> None" using rl(3) [OF bad] loaded by metis
  qed
qed

section \<open>The properties on a daemon with one VIP\<close>

lemma ex_pol_envs: "pe_expr (de_pol_envs ex_denv n) = vd_expr (le_validators ex_load_env)"
  by (simp add: ex_denv_def ex_load_env_def)

theorem definitions_follow_reloads_witness:
  "\<exists>r. daemon_start ex_denv ex_loaded ex_file = Inr r \<and>
     map_option ve_cfg (map_of (m_vips (lm_mgr (rl_pol (run_scheduler manager_iface 0 (ex_result True) r)))) ''web'') =
       find (\<lambda>v. v_name v = ''web'') (effectiveVIPsLocked (run_scheduler manager_iface 0 (ex_result True) r))"
proof -
  obtain r where r: "daemon_start ex_denv ex_loaded ex_file = Inr r" using ex_daemon by blast
  let ?r = "run_scheduler manager_iface 0 (ex_result True) r"
  have "(daemon_step (vd_expr (le_validators ex_load_env)))\<^sup>*\<^sup>* r ?r" by (blast intro: daemon_step.run)
  from definitions_follow_reloads [OF ex_load r ex_pol_envs this, of "''web''"] show ?thesis using r by blast
qed

text \<open>A reload of the same VIPs with other bytes in the file.\<close>

definition ex_again :: reload_env where
  "ex_again =
     \<lparr>re_now = 2000, re_LoadRaw = load_raw ex_load_env, re_ReadFile = (\<lambda>_. Inr ''v2''), re_sha256 = (\<lambda>raw. ''v2''),
      re_newChecker = (\<lambda>c. Inr (ck_type c)), re_SetLevel = (\<lambda>_. None)\<rparr>"

lemma ex_again_reload:
  assumes "daemon_start ex_denv ex_loaded ex_file = Inr r"
  shows "\<exists>r' res. Reload ex_again manager_iface r = Ret (r', res) \<and> rs_outcome res = ReloadApplied \<and> rl_staging r' = []"
proof -
  note st = started_side [OF assms]
  obtain v where v: "c_vips ex_loaded = [v]" using ex_loaded_vip by blast
  have load: "re_LoadRaw ex_again (rl_path r) = Inr (ex_loaded, ''asn: %{ASN}'')"
    using ex_load by (auto simp: ex_again_def st(4) ex_file_def load_raw_def config_Load_def LoadRaw_def ex_load_env_def)
  have hash: "re_sha256 ex_again raw \<noteq> rl_cur_hash r" for raw by (simp add: ex_again_def st(5) ex_denv_def ex_file_def)
  have diff: "DiffVIPs [v] [v] = \<lparr>df_added = [], df_removed = [], df_changed = [], df_unchanged = [v_name v]\<rparr>"
    by (simp add: DiffVIPs_def)
  have "RestartRequired ex_loaded ex_loaded = []" by (simp add: RestartRequired_def)
  then show ?thesis
    by (simp add: Reload_def reloadLocked_def load hash st(1,2) effectiveVIPsLocked_def v diff Let_def apply_diff_def
        dropStagingLocked_def apply_log_level_def finish_reload_def recordLocked_def empty_status_def)
qed

theorem reload_installs_file_witness:
  "\<exists>r r' res. daemon_start ex_denv ex_loaded ex_file = Inr r \<and> Reload ex_again manager_iface r = Ret (r', res) \<and>
     map_option ve_cfg (map_of (m_vips (lm_mgr (rl_pol r'))) ''web'') = find (\<lambda>v. v_name v = ''web'') (c_vips ex_loaded)"
proof -
  obtain r where r: "daemon_start ex_denv ex_loaded ex_file = Inr r" using ex_daemon by blast
  obtain r' res where r': "Reload ex_again manager_iface r = Ret (r', res)" "rs_outcome res = ReloadApplied" "rl_staging r' = []"
    using ex_again_reload [OF r] by blast
  have env: "re_LoadRaw ex_again = load_raw ex_load_env" "config_Load ex_load_env (rl_path r) = Inr ex_loaded"
    using ex_load by (simp_all add: ex_again_def started_side(4) [OF r] ex_file_def)
  from reload_installs_file [OF ex_load r ex_pol_envs rtranclp.rtrancl_refl env(1) refl r'(1) env(2)] r'(2,3)
  have "map_option ve_cfg (map_of (m_vips (lm_mgr (rl_pol r'))) ''web'') = find (\<lambda>v. v_name v = ''web'') (c_vips ex_loaded)"
    by (simp add: pendingLocked_def)
  then show ?thesis using r r'(1) by blast
qed

text \<open>
  What the definitions alone do not exclude: a reload that renames a VIP adds the new name although the old route could
  not be withdrawn, because only the name is looked up among the failed removals. Two VIPs with one prefix then
  run side by side, and the withdraw of one takes the route of the other.
\<close>

lemma renamed_vip_shares_prefix:
  "\<exists>r1 res1. Reload (ex_renv (Inr (ex_config_with [ex_vip ''www'' ''192.0.2.1/32'' [''a'']], ''v2'')))
       (manager_iface\<lparr>pi_RemoveVIP := (\<lambda>name p. (Some (Errorf ''peer down'' [] None), p))\<rparr>)
       (ex_reloader\<lparr>rl_cur := ex_config_with [ex_vip ''web'' ''192.0.2.1/32'' [''a'']]\<rparr>) = Ret (r1, res1) \<and>
     rs_removed res1 = [] \<and> rs_added res1 = [''www''] \<and>
     map (\<lambda>v. (v_name v, v_prefix v)) (c_vips (rl_cur r1)) = [(''www'', ''192.0.2.1/32''), (''web'', ''192.0.2.1/32'')]"
  by (simp add: reload_eval)

end
