(* ===== verification/Logging.thy ===== *)
theory Logging
  imports Checkers_App
begin

text \<open>
  Logging (\<open>internal/logging/logging.go\<close>) and the wrapper for the logger of GoBGP (\<open>internal/bgp/gobgp_logger.go\<close>).

  A handler is a tree: the wrappers of the sources over the three sinks the daemon writes to. What a sink does with
  a record, and whether the two third-party sinks want a level, are fields of \<open>log_env\<close>, like the current value of the
  shared \<open>levelVar\<close>. Handling a record gives the records that reach the sinks and the error. Time and program
  counter of a record are only copied and left out.
\<close>

section \<open>Levels\<close>

definition LevelDebug :: int where "LevelDebug = - 4"
definition LevelInfo :: int where "LevelInfo = 0"
definition LevelWarn :: int where "LevelWarn = 4"
definition LevelError :: int where "LevelError = 8"

text \<open>\<open>strconv.Atoi\<close> on a text that starts with a sign.\<close>

definition atoi :: "string \<Rightarrow> go_error + int" where
  "atoi s =
     (let fail = (\<lambda>why. Inl (Errorf ''strconv.Atoi: parsing %q: %s'' [FStr s, FStr why] None));
          bound = (if hd s = CHR ''-'' then 2 ^ 63 else 2 ^ 63 - 1) in
      if tl s = [] then fail ''invalid syntax''
      else case digits_from 0 (tl s) of
             None \<Rightarrow> fail ''invalid syntax''
           | Some n \<Rightarrow>
               (if bound < n then fail ''value out of range''
                else Inr (if hd s = CHR ''-'' then - int n else int n)))"

text \<open>\<open>Level.UnmarshalText\<close> of \<open>log/slog\<close>: a name in any case, with an offset such as \<open>INFO+2\<close>.\<close>

definition level_names :: "(string, int) gomap" where
  "level_names = [(''debug'', LevelDebug), (''info'', LevelInfo), (''warn'', LevelWarn), (''error'', LevelError)]"

definition is_sign :: "char \<Rightarrow> bool" where
  "is_sign c = (c = CHR ''+'' \<or> c = CHR ''-'')"

definition UnmarshalText :: "string \<Rightarrow> go_error + int" where
  "UnmarshalText s =
     (let fail = (\<lambda>e. Inl (Errorf ''slog: level string %q: %w'' [FStr s] (Some e)));
          name = takeWhile (\<lambda>c. \<not> is_sign c) s; rest = dropWhile (\<lambda>c. \<not> is_sign c) s in
      case (if rest = [] then Inr 0 else atoi rest) of
        Inl e \<Rightarrow> fail e
      | Inr offset \<Rightarrow>
          (case map_of level_names (to_lower name) of
             None \<Rightarrow> fail (Errorf ''unknown name'' [] None)
           | Some l \<Rightarrow> Inr (wrap64 (l + offset))))"

section \<open>Handlers\<close>

type_synonym log_attr = "string \<times> string"

record log_record =
  lr_level :: int
  lr_message :: string
  lr_attrs :: "log_attr list"

text \<open>The sinks: JSON and charm on standard error, with or without timestamps, and the OpenTelemetry bridge.\<close>

datatype sink = JSONSink bool | CharmSink bool | OTelSink

datatype with_op = WithAttrs "log_attr list" | WithGroup string

datatype handler =
    Leaf sink "with_op list"
  | LiveLevel handler
  | MultiHandler "handler list"
  | LevelFilter int handler
  | GoBGPHandler handler

record log_env =
  lg_level :: int
  lg_enabled :: "sink \<Rightarrow> int \<Rightarrow> bool"
  lg_write :: "sink \<Rightarrow> with_op list \<Rightarrow> log_record \<Rightarrow> go_error option"

definition goBGP_Enabled :: "bool \<Rightarrow> int \<Rightarrow> bool" where
  "goBGP_Enabled inner level = (level \<le> LevelDebug \<or> inner)"

definition filter_Enabled :: "int \<Rightarrow> bool \<Rightarrow> int \<Rightarrow> bool" where
  "filter_Enabled minLevel inner level = (minLevel \<le> level \<and> inner)"

text \<open>\<open>Enabled\<close>. The JSON handler of \<open>log/slog\<close> compares with the level of its options, the shared \<open>levelVar\<close>.\<close>

fun Enabled :: "log_env \<Rightarrow> handler \<Rightarrow> int \<Rightarrow> bool" where
  "Enabled env (Leaf s ops) level =
     (case s of JSONSink _ \<Rightarrow> lg_level env \<le> level | _ \<Rightarrow> lg_enabled env s level)"
| "Enabled env (LiveLevel h) level = (lg_level env \<le> level)"
| "Enabled env (MultiHandler hs) level = list_ex (\<lambda>h. Enabled env h level) hs"
| "Enabled env (LevelFilter minLevel h) level = filter_Enabled minLevel (Enabled env h level) level"
| "Enabled env (GoBGPHandler h) level = goBGP_Enabled (Enabled env h level) level"

definition goBGPConnectFailedMsg :: string where "goBGPConnectFailedMsg = ''failed to connect''"
definition goBGPErrorKey :: string where "goBGPErrorKey = ''Error''"
definition ttlHint :: string where
  "ttlHint = ''eBGP sessions dial with TTL 1 unless enable_multihop is set; a peer more than one hop away cannot answer''"

text \<open>The last attribute with the key wins, and the hint is added when the dial error is about routing.\<close>

definition dial_error :: "log_attr list \<Rightarrow> string" where
  "dial_error attrs = fold (\<lambda>a e. if fst a = goBGPErrorKey then snd a else e) attrs []"

definition promote :: "log_record \<Rightarrow> log_record" where
  "promote r =
     \<lparr>lr_level = LevelInfo, lr_message = lr_message r,
      lr_attrs = lr_attrs r @
        (if contains (dial_error (lr_attrs r)) ''no route to host'' then [(''hint'', ttlHint)] else [])\<rparr>"

text \<open>
  The record that the wrapper for GoBGP hands on, from whether the inner handler takes debug and info: a debug record
  it does not take is dropped, but for a failed dial, which is promoted to info.
\<close>

definition goBGP_pass :: "bool \<Rightarrow> bool \<Rightarrow> log_record \<Rightarrow> log_record option" where
  "goBGP_pass debug info r =
     (if LevelDebug < lr_level r \<or> debug then Some r
      else if lr_message r \<noteq> goBGPConnectFailedMsg \<or> \<not> info then None
      else Some (promote r))"

type_synonym delivery = "sink \<times> with_op list \<times> log_record"

definition last_error :: "(delivery list \<times> go_error option) list \<Rightarrow> go_error option" where
  "last_error outs = foldl (\<lambda>last out. if snd out \<noteq> None then snd out else last) None outs"

fun Handle :: "log_env \<Rightarrow> handler \<Rightarrow> log_record \<Rightarrow> delivery list \<times> go_error option" where
  "Handle env (Leaf s ops) r = ([(s, ops, r)], lg_write env s ops r)"
| "Handle env (LiveLevel h) r = Handle env h r"
| "Handle env (MultiHandler hs) r =
     (let outs = map (\<lambda>h. if Enabled env h (lr_level r) then Handle env h r else ([], None)) hs
      in (concat (map fst outs), last_error outs))"
| "Handle env (LevelFilter minLevel h) r = Handle env h r"
| "Handle env (GoBGPHandler h) r =
     (case goBGP_pass (Enabled env h LevelDebug) (Enabled env h LevelInfo) r of
        None \<Rightarrow> ([], None)
      | Some r' \<Rightarrow> Handle env h r')"

text \<open>\<open>WithAttrs\<close> and \<open>WithGroup\<close>: every wrapper passes the operation on.\<close>

fun derive :: "with_op \<Rightarrow> handler \<Rightarrow> handler" where
  "derive op (Leaf s ops) = Leaf s (ops @ [op])"
| "derive op (LiveLevel h) = LiveLevel (derive op h)"
| "derive op (MultiHandler hs) = MultiHandler (map (derive op) hs)"
| "derive op (LevelFilter minLevel h) = LevelFilter minLevel (derive op h)"
| "derive op (GoBGPHandler h) = GoBGPHandler (derive op h)"

definition NewLevelFilter :: "int \<Rightarrow> handler \<Rightarrow> handler" where
  "NewLevelFilter minLevel inner = LevelFilter minLevel inner"

definition newGoBGPHandler :: "handler \<Rightarrow> handler" where
  "newGoBGPHandler inner = GoBGPHandler inner"

text \<open>A logger asks its handler before it builds the record.\<close>

definition logger_log :: "log_env \<Rightarrow> handler \<Rightarrow> log_record \<Rightarrow> delivery list" where
  "logger_log env h r = (if Enabled env h (lr_level r) then fst (Handle env h r) else [])"

section \<open>Setting up\<close>

definition newPrimaryHandler :: "string \<Rightarrow> bool \<Rightarrow> handler" where
  "newPrimaryHandler format timestamps =
     (if format = ''json'' then Leaf (JSONSink timestamps) [] else LiveLevel (Leaf (CharmSink timestamps) []))"

text \<open>A level that does not parse leaves the zero level, which is info.\<close>

definition parse_level :: "string \<Rightarrow> int" where
  "parse_level level = (case UnmarshalText level of Inr l \<Rightarrow> l | Inl _ \<Rightarrow> LevelInfo)"

text \<open>The new value of \<open>levelVar\<close> and the handler of the logger.\<close>

definition log_Setup :: "string \<Rightarrow> string \<Rightarrow> bool \<Rightarrow> handler list \<Rightarrow> int \<times> handler" where
  "log_Setup level format timestamps extra =
     (let primary = newPrimaryHandler format timestamps
      in (parse_level level, if extra \<noteq> [] then MultiHandler (primary # extra) else primary))"

definition SetLevel :: "string \<Rightarrow> int \<Rightarrow> go_error option \<times> int" where
  "SetLevel level current = (case UnmarshalText level of Inl e \<Rightarrow> (Some e, current) | Inr l \<Rightarrow> (None, l))"

text \<open>
  \<open>provideLogger\<close> of the daemon: \<open>journal\<close> is whether standard error is the journal, \<open>otel\<close> the handler of the
  telemetry provider, if there is one.
\<close>

definition provideLogger :: "logging_config \<Rightarrow> bool \<Rightarrow> handler option \<Rightarrow> int \<times> handler" where
  "provideLogger cfg journal otel =
     (let timestamps = (case log_timestamps cfg of None \<Rightarrow> \<not> journal | Some b \<Rightarrow> b) in
      case otel of
        Some h \<Rightarrow>
          log_Setup (log_level cfg) (log_format cfg) timestamps
            [if log_otel_level cfg \<noteq> [] then NewLevelFilter (parse_level (log_otel_level cfg)) h else h]
      | None \<Rightarrow> log_Setup (log_level cfg) (log_format cfg) timestamps [])"

section \<open>The logger of GoBGP\<close>

definition goBGPLevelFromString :: "string \<Rightarrow> int" where
  "goBGPLevelFromString level =
     (if level = ''debug'' then LevelDebug
      else if level = ''warn'' then LevelWarn
      else if level = ''error'' then LevelError
      else LevelInfo)"

definition newGoBGPLevelVar :: "string \<Rightarrow> int" where
  "newGoBGPLevelVar level = goBGPLevelFromString level"


section \<open>Lemmas\<close>

lemma Enabled_derive [simp]: "Enabled env (derive op h) level = Enabled env h level"
  by (induction h) (auto simp: list_ex_iff)

definition add_op :: "with_op \<Rightarrow> delivery \<Rightarrow> delivery" where
  "add_op op d = (case d of (s, ops, r) \<Rightarrow> (s, ops @ [op], r))"

lemma Handle_derive: "fst (Handle env (derive op h) r) = map (add_op op) (fst (Handle env h r))"
proof (induction h arbitrary: r)
  case (MultiHandler hs)
  then show ?case by (induction hs) (auto simp: Let_def)
qed (auto simp: add_op_def split: option.splits)

lemma logger_log_derive: "logger_log env (derive op h) r = map (add_op op) (logger_log env h r)"
  by (simp add: logger_log_def Handle_derive)

lemma logger_log_derives:
  "logger_log env (fold derive ops h) r = map (\<lambda>(s, os, r). (s, os @ ops, r)) (logger_log env h r)"
proof (induction ops arbitrary: h)
  case (Cons op ops)
  then show ?case by (simp add: logger_log_derive comp_def add_op_def case_prod_beta)
qed simp

text \<open>The sink of the console.\<close>

definition console :: "logging_config \<Rightarrow> bool \<Rightarrow> sink" where
  "console cfg journal =
     (let timestamps = (case log_timestamps cfg of None \<Rightarrow> \<not> journal | Some b \<Rightarrow> b)
      in if log_format cfg = ''json'' then JSONSink timestamps else CharmSink timestamps)"


text \<open>
  GoBGP's records above debug are logged like any other. A debug record appears as it is when debug is enabled;
  otherwise only the failed connection attempts appear, at info level and with the hint.
\<close>

lemma gobgp_delivery:
  assumes "LevelDebug \<le> lr_level r"
  shows "logger_log env (newGoBGPHandler h) r =
    (if LevelDebug < lr_level r \<or> Enabled env h LevelDebug then logger_log env h r
     else if lr_message r = goBGPConnectFailedMsg then logger_log env h (promote r) else [])"
  using assms by (auto simp: logger_log_def newGoBGPHandler_def goBGP_Enabled_def goBGP_pass_def promote_def)

end
