(* ===== verification/Telemetry.thy ===== *)
theory Telemetry
  imports Defaults
begin

text \<open>
  OpenTelemetry export (\<open>internal/telemetry/telemetry.go\<close>): which exporters are created with which options, what is
  shut down when one of them fails, and what the provider keeps.

  Creating an exporter, the resource and the providers is SDK code: whether an exporter can be created and what
  shutting a provider down returns are arguments. The effects of \<open>Setup\<close> are recorded in order: a provider started
  (and registered as the global one) or shut down.
\<close>

datatype otel_signal = TracesSignal | MetricsSignal | LogsSignal

datatype otlp_option =
    WithEndpointURL string
  | WithInsecure
  | WithHeaders "(string, string) gomap"

definition exporter_options :: "string \<Rightarrow> bool \<Rightarrow> (string, string) gomap option \<Rightarrow> otlp_option list" where
  "exporter_options normURL insecure headers =
     [WithEndpointURL normURL] @ (if insecure then [WithInsecure] else []) @
     (case headers of Some h \<Rightarrow> if h \<noteq> [] then [WithHeaders h] else [] | None \<Rightarrow> [])"

text \<open>The parts of the error texts that differ.\<close>

definition signal_word :: "otel_signal \<Rightarrow> string" where
  "signal_word sig = (case sig of TracesSignal \<Rightarrow> ''trace'' | MetricsSignal \<Rightarrow> ''metrics'' | LogsSignal \<Rightarrow> ''log'')"

definition protocol_word :: "otel_protocol \<Rightarrow> string" where
  "protocol_word p = (case p of OTelProtocolGRPC \<Rightarrow> ''gRPC'' | OTelProtocolHTTP \<Rightarrow> ''HTTP'')"

text \<open>
  The three functions \<open>buildTraceExporter\<close>, \<open>buildMetricsExporter\<close> and \<open>buildLogExporter\<close> have the same text but for
  the exporter packages and the URL of the HTTP log exporter. \<open>url_path\<close> is the path \<open>url.Parse\<close> finds, \<open>None\<close> when it
  fails; \<open>newExp\<close> creates the exporter of a signal for a protocol.
\<close>

definition log_url :: "(string \<Rightarrow> string option) \<Rightarrow> string \<Rightarrow> string" where
  "log_url url_path normURL =
     (case url_path normURL of
        Some path \<Rightarrow>
          (if path = [] \<or> path = ''/'' then
             (if normURL \<noteq> [] \<and> last normURL = CHR ''/'' then butlast normURL else normURL) @ ''/v1/logs''
           else normURL)
      | None \<Rightarrow> normURL)"

type_synonym exporter_maker = "otel_signal \<Rightarrow> otel_protocol \<Rightarrow> otlp_option list \<Rightarrow> go_error option"

definition build_exporter ::
    "(string \<Rightarrow> string option) \<Rightarrow> exporter_maker \<Rightarrow> otel_signal \<Rightarrow> otel_config \<Rightarrow> otel_signal_config \<Rightarrow>
     go_error option outcome" where
  "build_exporter url_path newExp sig cfg sc =
     (case ParseOTelEndpoint (EffectiveEndpoint sc (otel_endpoint cfg)) of
        (_, _, Some err) \<Rightarrow> Ret (Some (Errorf (''otel: '' @ signal_word sig @ '' endpoint: %w'') [] (Some err)))
      | (proto, normURL, None) \<Rightarrow>
          (case EffectiveHeaders sc (otel_headers cfg) of
             Panic msg \<Rightarrow> Panic msg
           | Ret headers \<Rightarrow>
               (let url = (if proto = OTelProtocolHTTP \<and> sig = LogsSignal then log_url url_path normURL else normURL);
                    opts = exporter_options url (EffectiveInsecure sc (otel_insecure cfg)) headers in
                case newExp sig proto opts of
                  Some err \<Rightarrow>
                    Ret (Some (Errorf (''otel: creating '' @ protocol_word proto @ '' '' @ signal_word sig @ '' exporter: %w'')
                      [] (Some err)))
                | None \<Rightarrow> Ret None)))"

definition buildTraceExporter where
  "buildTraceExporter url_path newExp cfg = build_exporter url_path newExp TracesSignal cfg (otel_traces cfg)"

definition buildMetricsExporter where
  "buildMetricsExporter url_path newExp cfg = build_exporter url_path newExp MetricsSignal cfg (otel_metrics cfg)"

definition buildLogExporter where
  "buildLogExporter url_path newExp cfg = build_exporter url_path newExp LogsSignal cfg (otel_logs cfg)"

section \<open>The provider\<close>

record otel_provider =
  op_lp :: bool
  op_shutdown :: "otel_signal list"

datatype otel_event = Started otel_signal | ShutDown otel_signal

definition no_provider :: otel_provider where
  "no_provider = \<lparr>op_lp = False, op_shutdown = []\<rparr>"

text \<open>\<open>LogHandler\<close> is nil without a logger provider.\<close>

definition LogHandler :: "otel_provider \<Rightarrow> bool" where
  "LogHandler p = op_lp p"

text \<open>\<open>Shutdown\<close>: every provider in the order of creation, the last error.\<close>

definition otel_Shutdown :: "(otel_signal \<Rightarrow> go_error option) \<Rightarrow> otel_provider \<Rightarrow> go_error option \<times> otel_event list" where
  "otel_Shutdown stop p =
     (foldl (\<lambda>last sig. case stop sig of Some e \<Rightarrow> Some e | None \<Rightarrow> last) None (op_shutdown p),
      map ShutDown (op_shutdown p))"

text \<open>One of the three blocks of \<open>Setup\<close>: skipped, started, or failed with what was running shut down.\<close>

definition setup_signal ::
    "bool \<Rightarrow> go_error option outcome \<Rightarrow> otel_signal \<Rightarrow> otel_provider \<times> otel_event list \<Rightarrow>
     (go_error \<times> otel_event list + otel_provider \<times> otel_event list) outcome" where
  "setup_signal enabled build sig st =
     (case st of (p, evs) \<Rightarrow>
        if \<not> enabled then Ret (Inr (p, evs))
        else case build of
               Panic msg \<Rightarrow> Panic msg
             | Ret (Some err) \<Rightarrow> Ret (Inl (err, evs @ (if sig = TracesSignal then [] else map ShutDown (op_shutdown p))))
             | Ret None \<Rightarrow>
                 Ret (Inr (p\<lparr>op_lp := (sig = LogsSignal \<or> op_lp p), op_shutdown := op_shutdown p @ [sig]\<rparr>,
                           evs @ [Started sig])))"

definition otel_Setup ::
    "go_error option \<Rightarrow> (string \<Rightarrow> string option) \<Rightarrow> exporter_maker \<Rightarrow> otel_config \<Rightarrow>
     (go_error \<times> otel_event list + otel_provider \<times> otel_event list) outcome" where
  "otel_Setup resource url_path newExp cfg =
     (if otel_endpoint cfg = [] \<or> \<not> otel_IsEnabled cfg then Ret (Inr (no_provider, []))
      else case resource of
        Some err \<Rightarrow> Ret (Inl (Errorf ''otel: building resource: %w'' [] (Some err), []))
      | None \<Rightarrow>
          (case setup_signal (signal_IsEnabled (otel_traces cfg)) (buildTraceExporter url_path newExp cfg) TracesSignal
                  (no_provider, []) of
             Panic msg \<Rightarrow> Panic msg
           | Ret (Inl e) \<Rightarrow> Ret (Inl e)
           | Ret (Inr st1) \<Rightarrow>
               (case setup_signal (signal_IsEnabled (otel_metrics cfg)) (buildMetricsExporter url_path newExp cfg)
                       MetricsSignal st1 of
                  Panic msg \<Rightarrow> Panic msg
                | Ret (Inl e) \<Rightarrow> Ret (Inl e)
                | Ret (Inr st2) \<Rightarrow>
                    setup_signal (signal_IsEnabled (otel_logs cfg)) (buildLogExporter url_path newExp cfg) LogsSignal st2)))"

section \<open>Nothing is leaked\<close>

definition enabled_signals :: "otel_config \<Rightarrow> otel_signal list" where
  "enabled_signals cfg =
     (if otel_endpoint cfg = [] \<or> \<not> otel_IsEnabled cfg then []
      else (if signal_IsEnabled (otel_traces cfg) then [TracesSignal] else []) @
           (if signal_IsEnabled (otel_metrics cfg) then [MetricsSignal] else []) @
           (if signal_IsEnabled (otel_logs cfg) then [LogsSignal] else []))"

text \<open>The providers that run after a list of events.\<close>

definition still_running :: "otel_event list \<Rightarrow> otel_signal \<Rightarrow> bool" where
  "still_running evs sig = (Started sig \<in> set evs \<and> ShutDown sig \<notin> set evs)"

text \<open>C38: Setting telemetry up leaks nothing: when it fails, every provider it had started is shut down again; when it
  succeeds, exactly the enabled signals run, they are the ones that \<open>Shutdown\<close> stops, in that order, and there is a
  log handler exactly when logs are exported. It panics only for a signal with headers of its own and no global
  headers.\<close>

theorem telemetry_setup_complete:
  "case otel_Setup resource url_path newExp cfg of
     Ret (Inl (err, evs)) \<Rightarrow> \<not> (\<exists>sig. still_running evs sig)
   | Ret (Inr (p, evs)) \<Rightarrow>
       evs = map Started (enabled_signals cfg) \<and> op_shutdown p = enabled_signals cfg \<and>
       (LogHandler p \<longleftrightarrow> LogsSignal \<in> set (enabled_signals cfg))
   | Panic msg \<Rightarrow>
       otel_headers cfg = None \<and>
       list_ex (\<lambda>sc. signal_IsEnabled sc \<and> sig_headers sc \<noteq> []) [otel_traces cfg, otel_metrics cfg, otel_logs cfg]"
proof -
  have panics: "build_exporter url_path newExp sig cfg sc = Panic msg \<Longrightarrow> otel_headers cfg = None \<and> sig_headers sc \<noteq> []" for sig sc msg
    by (auto simp: build_exporter_def EffectiveHeaders_def Let_def split: prod.splits option.splits outcome.splits if_splits)
  show ?thesis
    by (auto simp: otel_Setup_def setup_signal_def buildTraceExporter_def buildMetricsExporter_def buildLogExporter_def
        no_provider_def enabled_signals_def still_running_def LogHandler_def dest: panics
        split: option.splits outcome.splits sum.splits if_splits)
qed

end
