(* ===== verification/Durations.thy ===== *)
theory Durations
  imports Metrics
begin

text \<open>
  The texts of durations in configuration files (\<open>internal/config/duration.go\<close>) and the histogram buckets computed from
  a duration (\<open>internal/metrics/metrics.go\<close>).

  \<open>time.ParseDuration\<close> and \<open>encoding/json\<close> are arguments. The buckets are computed in \<open>float64\<close>: the operations used are
  the fields of a record over an ordered type, so the results hold for every rounding; the exact rationals are one
  instance of it.
\<close>

section \<open>Durations as text\<close>

definition Duration_MarshalText :: "go_duration \<Rightarrow> string" where
  "Duration_MarshalText d = duration_text d"

definition Duration_MarshalJSON :: "(string \<Rightarrow> string) \<Rightarrow> go_duration \<Rightarrow> string" where
  "Duration_MarshalJSON json d = json (duration_text d)"

definition Duration_UnmarshalText :: "(string \<Rightarrow> go_error + go_duration) \<Rightarrow> string \<Rightarrow> go_error + go_duration" where
  "Duration_UnmarshalText parse text =
     (case parse text of
        Inl err \<Rightarrow> Inl (Errorf ''invalid duration %q: %w'' [FStr text] (Some err))
      | Inr d \<Rightarrow> Inr d)"

definition Duration_UnmarshalJSON ::
    "(string \<Rightarrow> go_error + string) \<Rightarrow> (string \<Rightarrow> go_error + go_duration) \<Rightarrow> string \<Rightarrow> go_error + go_duration" where
  "Duration_UnmarshalJSON json parse b =
     (case json b of Inl err \<Rightarrow> Inl err | Inr s \<Rightarrow> Duration_UnmarshalText parse s)"

section \<open>Histogram buckets\<close>

record 'f float_ops =
  fl_of_int :: "int \<Rightarrow> 'f"
  fl_add :: "'f \<Rightarrow> 'f \<Rightarrow> 'f"
  fl_mul :: "'f \<Rightarrow> 'f \<Rightarrow> 'f"
  fl_div :: "'f \<Rightarrow> 'f \<Rightarrow> 'f"
  fl_pow :: "'f \<Rightarrow> 'f \<Rightarrow> 'f"
  fl_pow10 :: "int \<Rightarrow> 'f"
  fl_round :: "'f \<Rightarrow> 'f"
  fl_seconds :: "go_duration \<Rightarrow> 'f"

definition maxCheckOverrun :: go_duration where "maxCheckOverrun = 50000000"
definition defaultBucketCount :: nat where "defaultBucketCount = 10"

definition roundTo :: "'f float_ops \<Rightarrow> 'f \<Rightarrow> int \<Rightarrow> 'f" where
  "roundTo F v decimals = (let mul = fl_pow10 F decimals in fl_div F (fl_round F (fl_mul F v mul)) mul)"

definition raw_buckets :: "'f :: linorder float_ops \<Rightarrow> 'f \<Rightarrow> nat \<Rightarrow> 'f list" where
  "raw_buckets F checkTimeout bucketCount =
     (let nominal = roundTo F checkTimeout 6;
          effective = roundTo F (fl_add F checkTimeout (fl_seconds F maxCheckOverrun)) 6;
          n = fl_of_int F (int bucketCount);
          bucketIncrement = fl_div F nominal n;
          steps = map int [1..<bucketCount + 1];
          linear = map (\<lambda>i. roundTo F (fl_mul F bucketIncrement (fl_of_int F i)) 6) steps;
          fine =
            (if bucketIncrement \<le> fl_of_int F 1 then
               map (\<lambda>i. roundTo F (fl_pow F bucketIncrement (fl_of_int F i)) 6) steps
             else
               let bucketFraction = fl_div F (fl_of_int F 1) n in
               map (\<lambda>i. roundTo F (fl_mul F checkTimeout (fl_pow F bucketFraction (fl_of_int F i))) 6) steps)
      in linear @ fine @ [nominal, effective])"

text \<open>The map \<open>seen\<close> and sorting its keys.\<close>

definition generateCheckBuckets :: "'f :: linorder float_ops \<Rightarrow> 'f \<Rightarrow> nat \<Rightarrow> 'f list" where
  "generateCheckBuckets F checkTimeout bucketCount = sort (remdups (raw_buckets F checkTimeout bucketCount))"

definition GenerateCheckBuckets :: "'f :: linorder float_ops \<Rightarrow> go_duration \<Rightarrow> 'f list" where
  "GenerateCheckBuckets F timeout = generateCheckBuckets F (fl_seconds F timeout) defaultBucketCount"

text \<open>The fresh metrics: every gauge and counter is empty but this one.\<close>

definition metrics_New :: metric_log where
  "metrics_New = emit [GaugeSet ConfigLastReloadSuccess [] 1] []"

section \<open>Lemmas\<close>

text \<open>The buckets are strictly increasing, which a Prometheus histogram requires: it panics otherwise.\<close>

lemma buckets_increasing:
  "sorted_wrt (<) (generateCheckBuckets F t n)" "set (generateCheckBuckets F t n) = set (raw_buckets F t n)"
  by (simp_all add: generateCheckBuckets_def strict_sorted_iff)

text \<open>Exact arithmetic as an instance; \<open>math.Round\<close> rounds halves away from zero.\<close>

definition round_away :: "rat \<Rightarrow> rat" where
  "round_away x = (if 0 \<le> x then of_int \<lfloor>x + 1 / 2\<rfloor> else - of_int \<lfloor>- x + 1 / 2\<rfloor>)"

definition exact :: "rat float_ops" where
  "exact =
     \<lparr>fl_of_int = of_int, fl_add = (+), fl_mul = (*), fl_div = (/),
      fl_pow = (\<lambda>b e. b ^ nat \<lfloor>e\<rfloor>), fl_pow10 = (\<lambda>d. 10 ^ nat d), fl_round = round_away, fl_seconds = seconds\<rparr>"

lemma round_away_mono: "0 \<le> x \<Longrightarrow> x \<le> y \<Longrightarrow> round_away x \<le> round_away y"
  by (auto simp: round_away_def intro!: floor_mono)

lemma roundTo_mono: "0 \<le> x \<Longrightarrow> x \<le> y \<Longrightarrow> roundTo exact x 6 \<le> roundTo exact y 6"
  unfolding roundTo_def exact_def by (auto simp: Let_def intro!: divide_right_mono round_away_mono)


lemma round_away_int [simp]: "round_away (of_int k) = of_int k"
proof (cases "0 \<le> k")
  case True
  have "\<lfloor>of_int k + 1 / 2 :: rat\<rfloor> = k" by (intro floor_unique) simp_all
  with True show ?thesis by (simp add: round_away_def)
next
  case False
  have "\<lfloor>- of_int k + 1 / 2 :: rat\<rfloor> = - k" by (intro floor_unique) simp_all
  with False show ?thesis by (simp add: round_away_def)
qed

lemma round_away_is_int: "\<exists>k. round_away x = of_int k"
  by (auto simp: round_away_def intro: exI [of _ "- \<lfloor>- x + 1 / 2\<rfloor>"])

lemma roundTo_idem: "roundTo exact (roundTo exact x 6) 6 = roundTo exact x 6"
proof -
  obtain k where "round_away (x * 1000000) = of_int k" using round_away_is_int by blast
  then show ?thesis by (simp add: roundTo_def exact_def)
qed

lemma roundTo_nonneg: "0 \<le> x \<Longrightarrow> 0 \<le> roundTo exact x 6"
  by (simp add: roundTo_def exact_def round_away_def)

lemma raw_buckets_bounded:
  assumes "0 \<le> t" and "0 < n" and "b \<in> set (raw_buckets exact t n)"
  shows "0 \<le> b \<and> b \<le> roundTo exact (t + 1 / 20) 6"
proof -
  let ?N = "roundTo exact t 6" and ?inc = "roundTo exact t 6 / of_nat n"
  have N: "0 \<le> ?N" "?N \<le> roundTo exact (t + 1 / 20) 6"
    using assms(1) by (simp_all add: roundTo_nonneg roundTo_mono)
  have below: "0 \<le> roundTo exact x 6 \<and> roundTo exact x 6 \<le> roundTo exact (t + 1 / 20) 6" if "0 \<le> x" "x \<le> ?N \<or> x \<le> t" for x
  proof -
    have "roundTo exact x 6 \<le> ?N" using that roundTo_mono [of x ?N] roundTo_mono [of x t] by (auto simp: roundTo_idem)
    with that(1) N(2) show ?thesis by (auto intro: roundTo_nonneg)
  qed
  have "?N * 1 \<le> ?N * of_nat n" using N(1) assms(2) by (intro mult_left_mono) simp_all
  then have inc: "0 \<le> ?inc" "?inc \<le> ?N" using N(1) assms(2) by (simp_all add: divide_le_eq)
  have linear: "0 \<le> ?inc * of_nat i \<and> ?inc * of_nat i \<le> ?N" if "i \<le> n" for i
    using that N(1) assms(2) by (auto simp: divide_simps intro: mult_left_mono)
  have power: "0 \<le> ?inc ^ i \<and> ?inc ^ i \<le> ?N" if "?inc \<le> 1" "1 \<le> i" for i
  proof -
    have "?inc ^ i \<le> ?inc ^ 1" using that inc(1) by (intro power_decreasing)
    then show ?thesis using inc by simp
  qed
  have fraction: "0 \<le> t * (1 / of_nat n) ^ i \<and> t * (1 / of_nat n) ^ i \<le> t" for i
    using assms(1,2) by (auto intro!: power_le_one mult_left_le simp: divide_le_eq)
  have mem: "b \<in> (\<lambda>i. roundTo exact (?inc * of_nat i) 6) ` {1..n} \<or>
      (if ?inc \<le> 1 then b \<in> (\<lambda>i. roundTo exact (?inc ^ i) 6) ` {1..n}
       else b \<in> (\<lambda>i. roundTo exact (t * (1 / of_nat n) ^ i) 6) ` {1..n}) \<or> b = ?N \<or> b = roundTo exact (t + 1 / 20) 6"
    using assms(3)
    by (auto simp: raw_buckets_def Let_def exact_def seconds_def maxCheckOverrun_def image_iff atLeastLessThanSuc_atLeastAtMost
        split: if_splits)
  show ?thesis
    using mem below linear power fraction N by (auto split: if_splits)
qed



end
