(* ===== verification/Lifecycle.thy ===== *)
theory Lifecycle
  imports Daemon Logging Telemetry Durations
begin

text \<open>
  The life of the daemon process: the systemd messages (\<open>internal/systemd\<close>), the status reporter
  (\<open>internal/daemon/sdstatus.go\<close>), the peer watcher (\<open>internal/bgp/watcher.go\<close>), raising capabilities
  (\<open>internal/caps\<close>), and the lifecycle hooks and \<open>Run\<close> of \<open>internal/daemon/daemon.go\<close>.

  A hook is its two functions over the state of the daemon. Fx, which runs them, is not modelled: what its calls
  return is an argument of \<open>Run\<close>.
\<close>

section \<open>Systemd\<close>

text \<open>The environment variable, what sending a message returns, and the test of standard error.\<close>

record sd_env =
  sde_notify_socket :: string
  sde_send :: "string \<Rightarrow> go_error + bool"
  sde_journal :: "go_error + bool"

definition NotifyAvailable :: "sd_env \<Rightarrow> bool" where
  "NotifyAvailable env = (sde_notify_socket env \<noteq> [])"

text \<open>Whether the message was delivered, and the messages handed to the library so far.\<close>

definition Notify :: "sd_env \<Rightarrow> string \<Rightarrow> string list \<Rightarrow> bool \<times> string list" where
  "Notify env state sent = ((case sde_send env state of Inl _ \<Rightarrow> False | Inr b \<Rightarrow> b), sent @ [state])"

definition sd_Ready :: "sd_env \<Rightarrow> string list \<Rightarrow> bool \<times> string list" where
  "sd_Ready env = Notify env ''READY=1''"

definition sd_Stopping :: "sd_env \<Rightarrow> string list \<Rightarrow> bool \<times> string list" where
  "sd_Stopping env = Notify env ''STOPPING=1''"

definition sd_Status :: "sd_env \<Rightarrow> string \<Rightarrow> string list \<Rightarrow> bool \<times> string list" where
  "sd_Status env text = Notify env (''STATUS='' @ text)"

definition StderrIsJournal :: "sd_env \<Rightarrow> bool" where
  "StderrIsJournal env = (case sde_journal env of Inl _ \<Rightarrow> False | Inr b \<Rightarrow> b)"

section \<open>The status reporter\<close>

text \<open>Of the reporter only whether \<open>configStatus\<close> is set: the managers it reads are arguments of \<open>Update\<close>.\<close>

record status_reporter =
  sr_config_status :: bool

definition provideStatusReporter :: status_reporter where
  "provideStatusReporter = \<lparr>sr_config_status = False\<rparr>"

text \<open>\<open>SetConfigStatus (rl.Status)\<close>: \<open>Update\<close> reads the status of the reloader from then on.\<close>

definition SetConfigStatus :: "status_reporter \<Rightarrow> status_reporter" where
  "SetConfigStatus rep = rep\<lparr>sr_config_status := True\<rparr>"

definition status_line :: "(go_time \<Rightarrow> string) \<Rightarrow> vip_status list \<Rightarrow> peer_status list \<Rightarrow> config_status option \<Rightarrow> string" where
  "status_line show_time vips peers config =
     Summarize vips peers @
     (case config of
        None \<Rightarrow> []
      | Some st \<Rightarrow>
          (let notice = ConfigNotice show_time (Some st) in if notice \<noteq> [] then ''; '' @ notice else []))"

definition status_Update ::
    "sd_env \<Rightarrow> (go_time \<Rightarrow> string) \<Rightarrow> 'srv gobgp \<Rightarrow> status_reporter \<Rightarrow> 'srv bgp_manager live_manager reloader \<Rightarrow> string list \<Rightarrow>
     string list outcome" where
  "status_Update env show_time g rep r sent =
     (if \<not> NotifyAvailable env then Ret sent
      else case GetVIPStatuses (lm_mgr (rl_pol r)) of
        Panic msg \<Rightarrow> Panic msg
      | Ret vips \<Rightarrow>
          Ret (snd (sd_Status env
            (status_line show_time vips (GetPeerStates g (m_bgp (lm_mgr (rl_pol r)))) (if sr_config_status rep then Some (reload_Status r) else None))
            sent)))"

section \<open>The peer watcher\<close>

text \<open>
  A peer of an event: the texts of the address in its configuration and in its state (\<open>invalid IP\<close> for none) and of
  its session state. An event is nil (\<open>None\<close>) or has a type, of which only the end of the initial dump matters.
\<close>

record watch_peer =
  wp_conf_address :: string
  wp_state_address :: string
  wp_session_state :: string

record peer_event =
  pe_end_of_init :: bool
  pe_peer :: watch_peer

definition resolvePeerIdentity :: "watch_peer option \<Rightarrow> (string, string) gomap \<Rightarrow> string \<times> string" where
  "resolvePeerIdentity peer neighbors =
     (case peer of
        None \<Rightarrow> ([], [])
      | Some p \<Rightarrow>
          (let addr0 = trim_space (wp_conf_address p);
               addr = (if addr0 = ''invalid IP'' then trim_space (wp_state_address p) else addr0);
               name = (if addr \<noteq> [] then (case map_of neighbors addr of Some n \<Rightarrow> n | None \<Rightarrow> []) else [])
           in (if name = [] then addr else name, addr)))"

text \<open>What \<open>logPeerEvent\<close> logs (name, address and state), nothing when the event describes no peer.\<close>

definition logPeerEvent :: "peer_event option \<Rightarrow> (string, string) gomap \<Rightarrow> (string \<times> string \<times> string) option" where
  "logPeerEvent ev neighbors =
     (case ev of
        None \<Rightarrow> None
      | Some e \<Rightarrow>
          (if pe_end_of_init e then None
           else
             let (name, addr) = resolvePeerIdentity (Some (pe_peer e)) neighbors;
                 state = to_lower (wp_session_state (pe_peer e)) in
             Some (if name = [] then ''unknown'' else name, if addr = [] then ''unknown'' else addr,
                   if state = [] then ''unknown'' else state)))"

text \<open>
  Watching: the error of \<open>WatchEvent\<close>, or the list of events it hands to the callback. The result is the lines
  logged and the number of calls of \<open>onChange\<close>.
\<close>

definition WatchPeerState ::
    "(string, string) gomap \<Rightarrow> bool \<Rightarrow> go_error + peer_event option list \<Rightarrow> (string \<times> string \<times> string) list \<times> nat" where
  "WatchPeerState neighbors onChange watched =
     (case watched of
        Inl _ \<Rightarrow> ([], 0)
      | Inr evs \<Rightarrow>
          (let lines = List.map_filter (\<lambda>e. logPeerEvent e neighbors) evs
           in (lines, if onChange then length lines else 0)))"

section \<open>Capabilities\<close>

text \<open>
  The effective and the permitted word of each of the two 32-bit halves; \<open>capget\<close> is what reading them returns and
  \<open>capset\<close> what setting them returns. The result is whether something changed, and the sets handed to the kernel.
\<close>

type_synonym cap_sets = "(uint32 \<times> uint32) \<times> (uint32 \<times> uint32)"

definition RaiseEffective ::
    "go_error + cap_sets \<Rightarrow> (cap_sets \<Rightarrow> go_error option) \<Rightarrow> (go_error + bool) \<times> cap_sets option" where
  "RaiseEffective capget capset =
     (case capget of
        Inl err \<Rightarrow> (Inl (Errorf ''capget: %w'' [] (Some err)), None)
      | Inr ((eff0, per0), (eff1, per1)) \<Rightarrow>
          (if eff0 = per0 \<and> eff1 = per1 then (Inr False, None)
           else
             let raised = ((per0, per0), (per1, per1)) in
             case capset raised of
               Some err \<Rightarrow> (Inl (Errorf ''capset: %w'' [] (Some err)), Some raised)
             | None \<Rightarrow> (Inr True, Some raised)))"

text \<open>What the daemon logs of it; a failure is not fatal.\<close>

definition raiseCapabilities :: "go_error + bool \<Rightarrow> log_record list" where
  "raiseCapabilities res =
     (case res of
        Inl err \<Rightarrow> [\<lparr>lr_level = LevelWarn, lr_message = ''could not raise file capabilities'',
                     lr_attrs = [(''error'', error_text err)]\<rparr>]
      | Inr raised \<Rightarrow>
          (if raised
           then [\<lparr>lr_level = LevelInfo, lr_message = ''raised file capabilities to effective'', lr_attrs = []\<rparr>]
           else []))"

section \<open>Registering collectors\<close>

text \<open>\<open>RegisterMetrics\<close>: a collector that is already registered is no error.\<close>

datatype register_result = Registered | AlreadyRegistered | RegisterFailed go_error

fun RegisterMetrics :: "register_result list \<Rightarrow> go_error option" where
  "RegisterMetrics [] = None"
| "RegisterMetrics (res # rest) =
     (case res of
        RegisterFailed err \<Rightarrow> Some (Errorf ''registering GoBGP collector: %w'' [] (Some err))
      | _ \<Rightarrow> RegisterMetrics rest)"

definition provideBGPManager :: "'srv \<Rightarrow> config \<Rightarrow> register_result list \<Rightarrow> go_error + 'srv bgp_manager" where
  "provideBGPManager srv cfg registered =
     (let m = bgp_NewManager srv cfg True in
      case RegisterMetrics registered of
        Some err \<Rightarrow> Inl (Errorf ''registering GoBGP metrics: %w'' [] (Some err))
      | None \<Rightarrow> Inr m)"

definition provideMetrics :: "'f :: linorder float_ops \<Rightarrow> config \<Rightarrow> 'f list \<times> metric_log" where
  "provideMetrics F cfg = (GenerateCheckBuckets F (max_check_timeout cfg), metrics_New)"

definition provideTelemetry ::
    "go_error option \<Rightarrow> (string \<Rightarrow> string option) \<Rightarrow> exporter_maker \<Rightarrow> config \<Rightarrow>
     (go_error \<times> otel_event list + otel_provider \<times> otel_event list) outcome" where
  "provideTelemetry resource url_path newExp cfg =
     (case otel_Setup resource url_path newExp (c_otel cfg) of
        Panic msg \<Rightarrow> Panic msg
      | Ret (Inl (err, evs)) \<Rightarrow> Ret (Inl (Errorf ''setting up OTEL telemetry: %w'' [] (Some err), evs))
      | Ret (Inr p) \<Rightarrow> Ret (Inr p))"

section \<open>The reload loop\<close>

text \<open>What wakes \<open>Reloader.Run\<close> up: the channel or the ticker, each with what it reads from outside.\<close>

datatype loop_event =
    WakeUp go_time "sid \<Rightarrow> check_result list"
  | PollTick reload_env "sid \<Rightarrow> check_result list"

fun reload_Run :: "'p policy_iface \<Rightarrow> loop_event list \<Rightarrow> 'p reloader \<Rightarrow> 'p reloader" where
  "reload_Run P [] r = r"
| "reload_Run P (WakeUp now during # evs) r = reload_Run P evs (run_wake now during P r)"
| "reload_Run P (PollTick env during # evs) r = reload_Run P evs (run_tick env during P r)"

text \<open>
  The two goroutines of the reload hook, one event at a time since the reloader's mutex serialises them: the loop of
  \<open>Run\<close> and the one that turns SIGHUP into a reload.
\<close>

datatype reload_signal = Loop loop_event | Hup reload_env

fun reload_goroutines :: "'p policy_iface \<Rightarrow> reload_signal list \<Rightarrow> 'p reloader \<Rightarrow> 'p reloader outcome" where
  "reload_goroutines P [] r = Ret r"
| "reload_goroutines P (Loop ev # sigs) r = reload_goroutines P sigs (reload_Run P [ev] r)"
| "reload_goroutines P (Hup env # sigs) r =
     (case Reload env P r of
        Panic msg \<Rightarrow> Panic msg
      | Ret (r', _) \<Rightarrow> reload_goroutines P sigs r')"

definition configPollInterval :: go_duration where "configPollInterval = 5000000000"

section \<open>Lifecycle hooks\<close>

text \<open>
  The reloader, which holds the policy manager and the registry, and what the hooks start and stop: \<open>dm_watching\<close>
  is the name table of a watcher that runs, \<open>dm_serving\<close> that the channel of the serve loop exists, \<open>dm_reload_loop\<close>
  that the reload loop runs; \<open>dm_sent\<close> are the messages to systemd.
\<close>

record 'srv daemon_state =
  dm_rl :: "'srv bgp_manager live_manager reloader"
  dm_bgp_stopped :: bool
  dm_watching :: "(string, string) gomap option"
  dm_serving :: bool
  dm_http_shutdown :: bool
  dm_reload_loop :: bool
  dm_otel :: "otel_event list"
  dm_sent :: "string list"

text \<open>What the hooks read from outside. A wait ends with its result or with the error of the context.\<close>

record 'srv hook_env =
  hk_gobgp :: "'srv gobgp"
  hk_cfg :: config
  hk_sd :: sd_env
  hk_show_time :: "go_time \<Rightarrow> string"
  hk_provider :: otel_provider
  hk_otel_stop :: "otel_signal \<Rightarrow> go_error option"
  hk_listen :: "string \<Rightarrow> go_error option"
  hk_shutdown :: "go_error option"
  hk_serve :: "go_error + go_error option"
  hk_loop_done :: "go_error option"
  hk_sched_ctx :: "go_error option"

record 'srv fx_hook =
  fx_start :: "'srv daemon_state \<Rightarrow> (go_error option \<times> 'srv daemon_state) outcome"
  fx_stop :: "'srv daemon_state \<Rightarrow> go_error option \<times> 'srv daemon_state"

definition upd_bgp :: "('srv bgp_manager \<Rightarrow> 'srv bgp_manager) \<Rightarrow> 'srv daemon_state \<Rightarrow> 'srv daemon_state" where
  "upd_bgp f d =
     d\<lparr>dm_rl := (dm_rl d)\<lparr>rl_pol := (rl_pol (dm_rl d))\<lparr>lm_mgr :=
        (lm_mgr (rl_pol (dm_rl d)))\<lparr>m_bgp := f (m_bgp (lm_mgr (rl_pol (dm_rl d))))\<rparr>\<rparr>\<rparr>\<rparr>"

definition bgp_Stop :: "'srv daemon_state \<Rightarrow> 'srv daemon_state" where
  "bgp_Stop d = d\<lparr>dm_bgp_stopped := True\<rparr>"

definition telemetry_hook :: "'srv hook_env \<Rightarrow> 'srv fx_hook" where
  "telemetry_hook env =
     \<lparr>fx_start = (\<lambda>d. Ret (None, d)),
      fx_stop = (\<lambda>d. let (err, evs) = otel_Shutdown (hk_otel_stop env) (hk_provider env)
                      in (err, d\<lparr>dm_otel := dm_otel d @ evs\<rparr>))\<rparr>"

definition registerProcessLifecycle :: "'srv fx_hook" where
  "registerProcessLifecycle =
     \<lparr>fx_start = (\<lambda>d. Ret (None, d)), fx_stop = (\<lambda>d. (None, d))\<rparr>"

definition registerBGPLifecycle :: "'srv hook_env \<Rightarrow> 'srv fx_hook" where
  "registerBGPLifecycle env =
     \<lparr>fx_start = (\<lambda>d.
        case bgp_Start (hk_gobgp env) (m_bgp (lm_mgr (rl_pol (dm_rl d)))) of
          (Some err, b) \<Rightarrow> Ret (Some (Errorf ''BGP start: %w'' [] (Some err)), upd_bgp (\<lambda>_. b) d)
        | (None, b) \<Rightarrow>
            (case AddPeers (hk_gobgp env) b of
               (Some err, b') \<Rightarrow> Ret (Some (Errorf ''BGP add peers: %w'' [] (Some err)), upd_bgp (\<lambda>_. b') d)
             | (None, b') \<Rightarrow> Ret (None, upd_bgp (\<lambda>_. b') d))),
      fx_stop = (\<lambda>d. (None, bgp_Stop d))\<rparr>"

definition registerPeerWatcherLifecycle :: "'srv hook_env \<Rightarrow> 'srv fx_hook" where
  "registerPeerWatcherLifecycle env =
     \<lparr>fx_start = (\<lambda>d. Ret (None, d\<lparr>dm_watching := Some (neighborNames (hk_cfg env))\<rparr>)),
      fx_stop = (\<lambda>d. (None, d\<lparr>dm_watching := None\<rparr>))\<rparr>"

definition registerSchedulersLifecycle :: "'srv hook_env \<Rightarrow> 'srv fx_hook" where
  "registerSchedulersLifecycle env =
     \<lparr>fx_start = (\<lambda>d. Ret (None, d\<lparr>dm_rl := start_schedulers (dm_rl d)\<rparr>)),
      fx_stop = (\<lambda>d. let (err, reg) = reg_Stop (hk_sched_ctx env) (rl_reg (dm_rl d))
                      in (err, d\<lparr>dm_rl := (dm_rl d)\<lparr>rl_reg := reg\<rparr>\<rparr>))\<rparr>"

definition registerHTTPServerLifecycle :: "'srv hook_env \<Rightarrow> 'srv fx_hook" where
  "registerHTTPServerLifecycle env =
     \<lparr>fx_start = (\<lambda>d.
        let addr = sv_addr (NewServer (provideHTTPServer (hk_cfg env))) in
        case hk_listen env addr of
          Some err \<Rightarrow> Ret (Some (Errorf ''starting HTTP API listener on %q: %w'' [FStr addr] (Some err)), d)
        | None \<Rightarrow> Ret (None, d\<lparr>dm_serving := True\<rparr>)),
      fx_stop = (\<lambda>d.
        let d' = d\<lparr>dm_http_shutdown := True\<rparr> in
        case hk_shutdown env of
          Some err \<Rightarrow> (Some (Errorf ''stopping HTTP API: %w'' [] (Some err)), d')
        | None \<Rightarrow>
            (if \<not> dm_serving d then (None, d')
             else case hk_serve env of
                    Inr (Some err) \<Rightarrow> (Some (Errorf ''HTTP API serve loop: %w'' [] (Some err)), d')
                  | Inr None \<Rightarrow> (None, d')
                  | Inl ctx \<Rightarrow> (Some (Errorf ''waiting for HTTP API shutdown: %w'' [] (Some ctx)), d')))\<rparr>"

definition registerReloadLifecycle :: "'srv hook_env \<Rightarrow> 'srv fx_hook" where
  "registerReloadLifecycle env =
     \<lparr>fx_start = (\<lambda>d. Ret (None, d\<lparr>dm_reload_loop := True\<rparr>)),
      fx_stop = (\<lambda>d. (hk_loop_done env, d\<lparr>dm_reload_loop := False\<rparr>))\<rparr>"

definition registerSystemdLifecycle :: "'srv hook_env \<Rightarrow> 'srv fx_hook" where
  "registerSystemdLifecycle env =
     \<lparr>fx_start = (\<lambda>d.
        if \<not> NotifyAvailable (hk_sd env) then Ret (None, d)
        else case status_Update (hk_sd env) (hk_show_time env) (hk_gobgp env)
               (SetConfigStatus provideStatusReporter) (dm_rl d) (dm_sent d) of
               Panic msg \<Rightarrow> Panic msg
             | Ret sent \<Rightarrow> Ret (None, d\<lparr>dm_sent := snd (sd_Ready (hk_sd env) sent)\<rparr>)),
      fx_stop = (\<lambda>d. (None, d\<lparr>dm_sent := snd (sd_Stopping (hk_sd env) (dm_sent d))\<rparr>))\<rparr>"

text \<open>
  The hooks in the order in which they are appended. The telemetry hook is first: the logger, which the first
  invoked function needs, is built from the telemetry provider.
\<close>

definition daemon_hooks :: "'srv hook_env \<Rightarrow> 'srv fx_hook list" where
  "daemon_hooks env =
     [telemetry_hook env, registerProcessLifecycle, registerBGPLifecycle env, registerPeerWatcherLifecycle env,
      registerSchedulersLifecycle env, registerHTTPServerLifecycle env, registerReloadLifecycle env,
      registerSystemdLifecycle env]"

text \<open>What the invoked functions change before any hook starts: the manager calls \<open>status.Update\<close> on transitions.\<close>

definition after_invokes :: "'srv daemon_state \<Rightarrow> 'srv daemon_state" where
  "after_invokes d =
     d\<lparr>dm_rl := (dm_rl d)\<lparr>rl_pol := (rl_pol (dm_rl d))\<lparr>lm_mgr := SetTransitionListener True (lm_mgr (rl_pol (dm_rl d)))\<rparr>\<rparr>\<rparr>"

section \<open>Running the daemon\<close>

text \<open>
  \<open>Run\<close> from what fx returns: the error of building the application, of starting it, the exit code of the shutdown
  signal, and the error of stopping it.
\<close>

definition daemon_Run :: "go_error option \<Rightarrow> go_error option \<Rightarrow> int \<Rightarrow> go_error option \<Rightarrow> go_error option" where
  "daemon_Run app_err start_err exit_code stop_err =
     (case app_err of
        Some err \<Rightarrow> Some err
      | None \<Rightarrow>
          (case start_err of
             Some err \<Rightarrow> Some (Errorf ''starting daemon: %w'' [] (Some err))
           | None \<Rightarrow>
               (case stop_err of
                  Some err \<Rightarrow> Some (Errorf ''stopping daemon: %w'' [] (Some err))
                | None \<Rightarrow>
                    (if exit_code \<noteq> 0
                     then Some (Errorf ''shutdown requested with non-zero exit code %d'' [FInt exit_code] None)
                     else None))))"

section \<open>Starting and stopping\<close>

text \<open>
  Running hooks in a given order, which fx does: the starts up to the first error, the stops whatever they return.
  Fx documents that it starts in the order of appending and stops in the reverse order.
\<close>

fun run_starts :: "'srv fx_hook list \<Rightarrow> 'srv daemon_state \<Rightarrow> (go_error option \<times> 'srv daemon_state) outcome" where
  "run_starts [] d = Ret (None, d)"
| "run_starts (h # hs) d =
     (case fx_start h d of
        Panic msg \<Rightarrow> Panic msg
      | Ret (Some err, d') \<Rightarrow> Ret (Some err, d')
      | Ret (None, d') \<Rightarrow> run_starts hs d')"

definition run_stops :: "'srv fx_hook list \<Rightarrow> 'srv daemon_state \<Rightarrow> 'srv daemon_state" where
  "run_stops hs d = fold (\<lambda>h d. snd (fx_stop h d)) hs d"

lemmas hook_defs = telemetry_hook_def registerProcessLifecycle_def registerBGPLifecycle_def
  registerPeerWatcherLifecycle_def registerSchedulersLifecycle_def registerHTTPServerLifecycle_def
  registerReloadLifecycle_def registerSystemdLifecycle_def

text \<open>\<open>Start\<close> leaves no listed scheduler without its goroutine.\<close>

definition launch_missing :: "sid \<Rightarrow> registry \<Rightarrow> registry" where
  "launch_missing s r = (if map_of (reg_running r) s = None then launchLocked s False r else r)"

lemma launch_missing_fold:
  "reg_started (fold launch_missing ss r) = reg_started r"
  "map_of (reg_running (fold launch_missing ss r)) s \<noteq> None \<longleftrightarrow> s \<in> set ss \<or> map_of (reg_running r) s \<noteq> None"
  by (induction ss arbitrary: r) (auto simp: launch_missing_def)

lemma reg_Start_launches: "reg_Start r = fold launch_missing (concat (map snd (reg_visible r))) (r\<lparr>reg_started := True\<rparr>)"
proof -
  have "fold (\<lambda>(vip, ss). fold launch_missing ss) vs q = fold launch_missing (concat (map snd vs)) q"
    for vs :: "(string, sid list) gomap" and q by (induction vs arbitrary: q) auto
  moreover have "reg_Start r = fold (\<lambda>(vip, ss). fold launch_missing ss) (reg_visible r) (r\<lparr>reg_started := True\<rparr>)"
    unfolding reg_Start_def launch_missing_def ..
  ultimately show ?thesis by simp
qed

lemma reg_Start_runs: "reg_started (reg_Start r)"
  "list_all (\<lambda>s. map_of (reg_running (reg_Start r)) s \<noteq> None) (visible_of (reg_Start r) vip)"
proof -
  show "reg_started (reg_Start r)" by (simp add: reg_Start_launches launch_missing_fold)
  have "s \<in> set (concat (map snd (reg_visible r)))" if "s \<in> set (visible_of r vip)" for s
  proof (cases "map_of (reg_visible r) vip")
    case (Some l)
    then show ?thesis using that by (force simp: visible_of_def gm_get0_def dest: map_of_SomeD)
  qed (use that in \<open>simp add: visible_of_def gm_get0_def\<close>)
  then show "list_all (\<lambda>s. map_of (reg_running (reg_Start r)) s \<noteq> None) (visible_of (reg_Start r) vip)"
    unfolding reg_Start_visible unfolding reg_Start_launches list_all_iff by (metis launch_missing_fold(2))
qed

lemma start_schedulers_runs:
  "rl_reg (start_schedulers r) = reg_Start (rl_reg r)" "rl_pol (start_schedulers r) = rl_pol r"
  by (simp_all add: start_schedulers_def)


text \<open>What each hook leaves behind when it stops, whatever error it returns.\<close>

lemma hook_stops:
  "snd (fx_stop (registerSystemdLifecycle env) d) = d\<lparr>dm_sent := dm_sent d @ [''STOPPING=1'']\<rparr>"
  "snd (fx_stop (registerReloadLifecycle env) d) = d\<lparr>dm_reload_loop := False\<rparr>"
  "snd (fx_stop (registerHTTPServerLifecycle env) d) = d\<lparr>dm_http_shutdown := True\<rparr>"
  "snd (fx_stop (registerSchedulersLifecycle env) d) =
     d\<lparr>dm_rl := (dm_rl d)\<lparr>rl_reg := (rl_reg (dm_rl d))\<lparr>reg_started := False, reg_running := []\<rparr>\<rparr>\<rparr>"
  "snd (fx_stop (registerPeerWatcherLifecycle env) d) = d\<lparr>dm_watching := None\<rparr>"
  "snd (fx_stop (registerBGPLifecycle env) d) = d\<lparr>dm_bgp_stopped := True\<rparr>"
  "snd (fx_stop registerProcessLifecycle d) = d"
  "snd (fx_stop (telemetry_hook env) d) =
     d\<lparr>dm_otel := dm_otel d @ snd (otel_Shutdown (hk_otel_stop env) (hk_provider env))\<rparr>"
  by (auto simp: hook_defs bgp_Stop_def sd_Stopping_def Notify_def reg_Stop_def Let_def split: option.splits sum.splits prod.splits)


text \<open>
  A shadow is started whatever the state of the registry: the reload that a SIGHUP runs, which no hook waits for, can
  leave a scheduler running after the registry has stopped.
\<close>

lemma late_shadow_runs: "reg_running (reg_AddShadow s (snd (reg_Stop ctx r))) = [(s, True)]"
  by (simp add: reg_AddShadow_def reg_Stop_def launchLocked_def gomap_simps)

end
